(* ===== verification/WinkdPrelude.thy ===== *)
theory WinkdPrelude
  imports Main
begin

text \<open>
  What every component of the development shares: the errors the TypeScript code throws, results
  of fallible functions as sums, effectful functions (async methods that may throw and that change
  a state) as state passing functions, and the lemmas that carry proofs through them.

  An async function that throws rejects its promise and keeps every state change made before the
  throw, so an effect returns the state on both sides of the sum.
\<close>

section \<open>Errors\<close>

text \<open>
  One constructor per \<open>throw\<close> of packages/core/src/encryption/session.ts, then the errors the
  platform raises: a DOMException by its name (atob, SubtleCrypto, IndexedDB), JSON.parse's
  SyntaxError, a TypeError, and encodeURIComponent's URIError.
\<close>

datatype 'm js_error =
    InvalidSignedPreKey 'm
  | NoLocalIdentityKey
  | NoSession 'm
  | NoSendingChainKey
  | NoReceivingChainKey
  | TooManySkipped
  | SignedPreKeyNotFound int
  | DOMExc string
  | SyntaxErr
  | TypeErr
  | URIErr

section \<open>Results\<close>

definition bindR :: "'e + 'a \<Rightarrow> ('a \<Rightarrow> 'e + 'b) \<Rightarrow> 'e + 'b" where
  "bindR m f = (case m of Inl e \<Rightarrow> Inl e | Inr x \<Rightarrow> f x)"

lemma bindR_simps [simp]:
  "bindR (Inl e) f = Inl e"
  "bindR (Inr x) f = f x"
  by (simp_all add: bindR_def)

lemma bindR_eq_Inr: "bindR m f = Inr y \<longleftrightarrow> (\<exists>x. m = Inr x \<and> f x = Inr y)"
  by (cases m) simp_all

lemma bindR_eq_Inl: "bindR m f = Inl e \<longleftrightarrow> m = Inl e \<or> (\<exists>x. m = Inr x \<and> f x = Inl e)"
  by (cases m) auto

section \<open>Effects\<close>

type_synonym ('s, 'e, 'a) eff = "'s \<Rightarrow> ('e + 'a) \<times> 's"

definition retE :: "'a \<Rightarrow> ('s, 'e, 'a) eff" where
  "retE x = (\<lambda>s. (Inr x, s))"

definition throwE :: "'e \<Rightarrow> ('s, 'e, 'a) eff" where
  "throwE e = (\<lambda>s. (Inl e, s))"

definition liftR :: "'e + 'a \<Rightarrow> ('s, 'e, 'a) eff" where
  "liftR r = (\<lambda>s. (r, s))"

definition bindE :: "('s, 'e, 'a) eff \<Rightarrow> ('a \<Rightarrow> ('s, 'e, 'b) eff) \<Rightarrow> ('s, 'e, 'b) eff" where
  "bindE m f = (\<lambda>s. case m s of (Inl e, s') \<Rightarrow> (Inl e, s') | (Inr x, s') \<Rightarrow> f x s')"

lemma eff_simps [simp]:
  "retE x s = (Inr x, s)"
  "throwE e s = (Inl e, s)"
  "liftR r s = (r, s)"
  by (simp_all add: retE_def throwE_def liftR_def)

lemma bindE_Inr: "m s = (Inr x, s') \<Longrightarrow> bindE m f s = f x s'"
  by (simp add: bindE_def)

lemma bindE_Inl: "m s = (Inl e, s') \<Longrightarrow> bindE m f s = (Inl e, s')"
  by (simp add: bindE_def)

lemma bindE_simps [simp]:
  "bindE (retE x) f = f x"
  "bindE (throwE e) f = throwE e"
  "bindE (liftR (Inr x)) f = f x"
  "bindE (liftR (Inl e)) f = throwE e"
  by (auto simp: bindE_def retE_def throwE_def liftR_def)

lemma bindE_eq_Inr:
  "bindE m f s = (Inr y, t) \<longleftrightarrow> (\<exists>x u. m s = (Inr x, u) \<and> f x u = (Inr y, t))"
  by (auto simp: bindE_def split: prod.splits sum.splits)

lemma bindE_eq_Inl:
  "bindE m f s = (Inl e, t) \<longleftrightarrow>
     m s = (Inl e, t) \<or> (\<exists>x u. m s = (Inr x, u) \<and> f x u = (Inl e, t))"
  by (auto simp: bindE_def split: prod.splits sum.splits)

lemma bindE_liftR: "bindE (liftR r) f s = (case r of Inl e \<Rightarrow> (Inl e, s) | Inr x \<Rightarrow> f x s)"
  by (simp add: bindE_def split: sum.splits)

section \<open>State kept by an effect\<close>

text \<open>Whatever an effect returns, the state it leaves is related to the one it started from.\<close>

definition keepsE :: "('s \<Rightarrow> 's \<Rightarrow> bool) \<Rightarrow> ('s, 'e, 'a) eff \<Rightarrow> bool" where
  "keepsE R m \<longleftrightarrow> (\<forall>s. R s (snd (m s)))"

lemma keepsE_intros [intro]:
  "reflp R \<Longrightarrow> keepsE R (retE x)"
  "reflp R \<Longrightarrow> keepsE R (throwE e)"
  "reflp R \<Longrightarrow> keepsE R (liftR r)"
  by (simp_all add: keepsE_def reflp_def)

lemma keepsE_bindE:
  assumes "transp R" and "keepsE R m" and "\<And>x. keepsE R (f x)"
  shows "keepsE R (bindE m f)"
  unfolding keepsE_def
proof
  fix s
  obtain r u where m: "m s = (r, u)" by fastforce
  from assms(2) m have "R s u" by (metis keepsE_def snd_conv)
  moreover have "R u (snd (f x u))" for x
    using assms(3) by (simp add: keepsE_def)
  ultimately show "R s (snd (bindE m f s))"
    using m assms(1) by (cases r) (auto simp: bindE_def dest: transpD)
qed

text \<open>A property of the state that holds once and is kept from then on.\<close>

definition stable :: "('s \<Rightarrow> bool) \<Rightarrow> ('s, 'e, 'a) eff \<Rightarrow> bool" where
  "stable P = keepsE (\<lambda>s t. P s \<longrightarrow> P t)"

lemma stable_intros:
  "stable P (retE x)" "stable P (throwE e)" "stable P (liftR r)"
  "stable P m \<Longrightarrow> (\<And>x. stable P (f x)) \<Longrightarrow> stable P (bindE m f)"
  by (auto simp: stable_def reflp_def transp_def intro: keepsE_bindE)

lemma stable_cases:
  "stable P m \<Longrightarrow> (\<And>a. stable P (f a)) \<Longrightarrow> stable P (case x of None \<Rightarrow> m | Some a \<Rightarrow> f a)"
  "stable P m \<Longrightarrow> stable P n \<Longrightarrow> stable P (if b then m else n)"
  "(\<And>a c. stable P (g a c)) \<Longrightarrow> stable P (case p of (a, c) \<Rightarrow> g a c)"
  by (simp_all split: option.split prod.split)

lemma stable_D: "stable P m \<Longrightarrow> P s \<Longrightarrow> P (snd (m s))"
  by (simp add: stable_def keepsE_def)

lemma stable_after: "P (snd (m s)) \<Longrightarrow> (\<And>x. stable P (f x)) \<Longrightarrow> P (snd (bindE m f s))"
  by (auto simp: bindE_def stable_D split: prod.splits sum.splits)

end
