(* ===== verification/JsString.thy ===== *)
theory JsString
  imports WinkdPrelude "HOL-Library.Word"
begin

unbundle bit_operations_syntax

text \<open>
  JavaScript strings and the parts of the language's string library the program uses: a string is
  a list of 16-bit code units, a Uint8Array a list of bytes. TextEncoder and TextDecoder are
  written out (UTF-16 to code points, code points to UTF-8 and back, with the replacement
  character where the standards put it), because the plaintext of a message goes through them.
\<close>

type_synonym u8 = "8 word"
type_synonym u16 = "16 word"
type_synonym jstr = "u16 list"
type_synonym bytes = "u8 list"

text \<open>A literal of the source.\<close>

definition js :: "string \<Rightarrow> jstr" where
  "js s = map of_char s"

lemma unat_of_nat_u16: "n < 65536 \<Longrightarrow> unat (of_nat n :: u16) = n"
  by (simp add: unat_of_nat)

lemma unat_of_nat_u8: "n < 256 \<Longrightarrow> unat (of_nat n :: u8) = n"
  by (simp add: unat_of_nat)

lemma of_char_u16: "(of_char c :: u16) = of_nat (of_char c)"
  by (cases c) (simp add: of_char_def)

lemma of_char_less: "(of_char c :: nat) < 256"
proof -
  have "(of_char c :: nat) = of_char c mod 256" by simp
  also have "\<dots> < 256" by (rule mod_less_divisor) simp
  finally show ?thesis .
qed

lemma unat_of_char: "unat (of_char c :: u16) = of_char c"
  unfolding of_char_u16
  by (rule unat_of_nat_u16 [OF order.strict_trans [OF of_char_less]]) simp

lemma of_char_u16_eq: "(of_char c :: u16) = of_char d \<longleftrightarrow> c = d"
  by (metis unat_of_char of_char_eq_iff)

lemma js_eq_iff [simp]: "js s = js t \<longleftrightarrow> s = t"
  by (induction s arbitrary: t) (auto simp: js_def of_char_u16_eq Cons_eq_map_conv)

lemma js_Nil [simp]: "js [] = []" "js s = [] \<longleftrightarrow> s = []" "[] = js s \<longleftrightarrow> s = []"
  by (auto simp: js_def)

lemma length_js [simp]: "length (js s) = length s"
  by (simp add: js_def)

section \<open>Numbers in strings\<close>

text \<open>Decimal digits: what a template literal writes for an integer.\<close>

fun nat_digits :: "nat \<Rightarrow> jstr" where
  "nat_digits n = (if n < 10 then [of_nat (48 + n)]
     else nat_digits (n div 10) @ [of_nat (48 + n mod 10)])"

declare nat_digits.simps [simp del]

definition js_int :: "int \<Rightarrow> jstr" where
  "js_int i = (if i < 0 then 45 # nat_digits (nat (- i)) else nat_digits (nat i))"

definition is_digit :: "u16 \<Rightarrow> bool" where
  "is_digit c \<longleftrightarrow> 48 \<le> c \<and> c \<le> 57"

definition digit_val :: "u16 \<Rightarrow> nat" where
  "digit_val c = unat c - 48"

definition digits_val :: "jstr \<Rightarrow> nat" where
  "digits_val ds = foldl (\<lambda>n c. n * 10 + digit_val c) 0 ds"

lemma unat_digit: "n < 10 \<Longrightarrow> unat (of_nat (48 + n) :: u16) = 48 + n"
  by (rule unat_of_nat_u16) simp

lemma is_digit_of_nat [simp]: "n < 10 \<Longrightarrow> is_digit (of_nat (48 + n))"
  unfolding is_digit_def word_le_nat_alt unat_digit by simp

lemma digit_val_of_nat [simp]: "n < 10 \<Longrightarrow> digit_val (of_nat (48 + n)) = n"
  unfolding digit_val_def by (simp only: unat_digit)

lemma nat_digits_not_Nil [simp]: "nat_digits n \<noteq> []"
  by (subst nat_digits.simps) simp

lemma nat_digits_are_digits: "\<forall>c \<in> set (nat_digits n). is_digit c"
proof (induction n rule: nat_digits.induct)
  case (1 n)
  then show ?case
    by (subst nat_digits.simps) (auto simp del: of_nat_add)
qed

lemma digits_val_snoc: "digits_val (ds @ [c]) = digits_val ds * 10 + digit_val c"
  by (simp add: digits_val_def)

lemma digits_val_nat_digits [simp]: "digits_val (nat_digits n) = n"
proof (induction n rule: nat_digits.induct)
  case (1 n)
  show ?case
  proof (cases "n < 10")
    case True
    then show ?thesis
      by (subst nat_digits.simps) (simp add: digits_val_def del: of_nat_add)
  next
    case False
    with 1 show ?thesis
      by (subst nat_digits.simps) (simp add: digits_val_snoc del: of_nat_add)
  qed
qed

lemma nat_digits_inject [simp]: "nat_digits m = nat_digits n \<longleftrightarrow> m = n"
  by (metis digits_val_nat_digits)

lemma minus_not_digit [simp]: "\<not> is_digit 45"
  by (simp add: is_digit_def)

lemma js_int_inject [simp]: "js_int i = js_int j \<longleftrightarrow> i = j"
proof -
  have hd_ne: "nat_digits n \<noteq> 45 # xs" for n xs
    using nat_digits_are_digits [of n] by fastforce
  show ?thesis
    using hd_ne hd_ne [symmetric] by (auto simp: js_int_def)
qed

lemma js_int_chars: "c \<in> set (js_int i) \<Longrightarrow> is_digit c \<or> c = 45"
  using nat_digits_are_digits by (auto simp: js_int_def split: if_splits)

end
