(* ===== verification/TextCodec.thy ===== *)
theory TextCodec
  imports JsString
begin

text \<open>
  TextEncoder.encode and TextDecoder.decode (the Encoding standard): the code units of a string are
  read as code points, a lone surrogate as U+FFFD; code points are written as UTF-8; the decoder is
  the standard's state machine (bytes still needed, bounds of the next byte), which writes U+FFFD
  for malformed input and drops a leading byte order mark.
\<close>

section \<open>Code units and code points\<close>

definition hi_surrogate :: "u16 \<Rightarrow> bool" where
  "hi_surrogate c \<longleftrightarrow> 0xD800 \<le> unat c \<and> unat c \<le> 0xDBFF"

definition lo_surrogate :: "u16 \<Rightarrow> bool" where
  "lo_surrogate c \<longleftrightarrow> 0xDC00 \<le> unat c \<and> unat c \<le> 0xDFFF"

definition lone :: "u16 \<Rightarrow> nat" where
  "lone c = (if hi_surrogate c \<or> lo_surrogate c then 0xFFFD else unat c)"

fun utf16_decode :: "jstr \<Rightarrow> nat list" where
  "utf16_decode [] = []"
| "utf16_decode [c] = [lone c]"
| "utf16_decode (c # d # s) =
     (if hi_surrogate c \<and> lo_surrogate d
      then (0x10000 + (unat c - 0xD800) * 0x400 + (unat d - 0xDC00)) # utf16_decode s
      else lone c # utf16_decode (d # s))"

definition utf16_encode :: "nat \<Rightarrow> jstr" where
  "utf16_encode cp =
     (if cp < 0x10000 then [of_nat cp]
      else [of_nat (0xD800 + (cp - 0x10000) div 0x400), of_nat (0xDC00 + (cp - 0x10000) mod 0x400)])"

text \<open>No lone surrogate: the strings String.prototype.isWellFormed accepts.\<close>

fun well_formed :: "jstr \<Rightarrow> bool" where
  "well_formed [] = True"
| "well_formed [c] = (\<not> hi_surrogate c \<and> \<not> lo_surrogate c)"
| "well_formed (c # d # s) =
     (if hi_surrogate c \<and> lo_surrogate d then well_formed s
      else \<not> hi_surrogate c \<and> \<not> lo_surrogate c \<and> well_formed (d # s))"

definition scalar_value :: "nat \<Rightarrow> bool" where
  "scalar_value cp \<longleftrightarrow> cp < 0x110000 \<and> \<not> (0xD800 \<le> cp \<and> cp \<le> 0xDFFF)"

lemma unat_u16_less: "unat (c :: u16) < 65536"
  using unsigned_less [of c, where ?'a = nat] by simp

lemma unat_u8_less: "unat (c :: u8) < 256"
  using unsigned_less [of c, where ?'a = nat] by simp

lemma lone_scalar: "scalar_value (lone c)"
  using unat_u16_less [of c]
  by (auto simp: scalar_value_def lone_def hi_surrogate_def lo_surrogate_def)

lemma utf16_decode_scalar: "\<forall>cp \<in> set (utf16_decode s). scalar_value cp"
proof (induction s rule: utf16_decode.induct)
  case (3 c d s)
  have "scalar_value (0x10000 + (unat c - 0xD800) * 0x400 + (unat d - 0xDC00))"
    if "hi_surrogate c" "lo_surrogate d"
    using that by (auto simp: scalar_value_def hi_surrogate_def lo_surrogate_def)
  with 3 show ?case by (simp add: lone_scalar)
qed (simp_all add: lone_scalar)

lemma utf16_encode_pair:
  assumes "hi_surrogate c" and "lo_surrogate d"
  shows "utf16_encode (0x10000 + (unat c - 0xD800) * 0x400 + (unat d - 0xDC00)) = [c, d]"
proof -
  let ?a = "unat c - 0xD800" and ?b = "unat d - 0xDC00"
  have a: "unat c = 0xD800 + ?a" and b: "unat d = 0xDC00 + ?b" "?b < 0x400"
    using assms by (auto simp: hi_surrogate_def lo_surrogate_def)
  have "(?a * 0x400 + ?b) div 0x400 = ?a" "(?a * 0x400 + ?b) mod 0x400 = ?b"
    using b(2) by simp_all
  then have "utf16_encode (0x10000 + ?a * 0x400 + ?b) = [of_nat (0xD800 + ?a), of_nat (0xDC00 + ?b)]"
    unfolding utf16_encode_def by (simp del: of_nat_add)
  then show ?thesis by (simp only: a [symmetric] b(1) [symmetric] of_nat_unat ucast_id)
qed

lemma utf16_encode_lone: "\<not> hi_surrogate c \<Longrightarrow> \<not> lo_surrogate c \<Longrightarrow> utf16_encode (lone c) = [c]"
  using unat_u16_less [of c] by (simp add: utf16_encode_def lone_def)

lemma utf16_roundtrip: "well_formed s \<Longrightarrow> concat (map utf16_encode (utf16_decode s)) = s"
  by (induction s rule: utf16_decode.induct)
    (auto simp: utf16_encode_pair utf16_encode_lone split: if_splits)

section \<open>Code points and UTF-8\<close>

definition utf8_encode :: "nat \<Rightarrow> nat list" where
  "utf8_encode cp =
     (if cp < 0x80 then [cp]
      else if cp < 0x800 then [0xC0 + cp div 64, 0x80 + cp mod 64]
      else if cp < 0x10000 then [0xE0 + cp div 4096, 0x80 + cp div 64 mod 64, 0x80 + cp mod 64]
      else [0xF0 + cp div 262144, 0x80 + cp div 4096 mod 64, 0x80 + cp div 64 mod 64,
            0x80 + cp mod 64])"

function (sequential) utf8_decode :: "nat \<Rightarrow> nat \<Rightarrow> nat \<Rightarrow> nat \<Rightarrow> nat list \<Rightarrow> nat list" where
  "utf8_decode cp need lo hi [] = (if need = 0 then [] else [0xFFFD])"
| "utf8_decode cp need lo hi (b # bs) =
     (if need = 0 then
        (if b \<le> 0x7F then b # utf8_decode 0 0 0x80 0xBF bs
         else if 0xC2 \<le> b \<and> b \<le> 0xDF then utf8_decode (b - 0xC0) 1 0x80 0xBF bs
         else if 0xE0 \<le> b \<and> b \<le> 0xEF then
           utf8_decode (b - 0xE0) 2 (if b = 0xE0 then 0xA0 else 0x80) (if b = 0xED then 0x9F else 0xBF) bs
         else if 0xF0 \<le> b \<and> b \<le> 0xF4 then
           utf8_decode (b - 0xF0) 3 (if b = 0xF0 then 0x90 else 0x80) (if b = 0xF4 then 0x8F else 0xBF) bs
         else 0xFFFD # utf8_decode 0 0 0x80 0xBF bs)
      else if lo \<le> b \<and> b \<le> hi then
        (if need = 1 then (cp * 64 + (b - 0x80)) # utf8_decode 0 0 0x80 0xBF bs
         else utf8_decode (cp * 64 + (b - 0x80)) (need - 1) 0x80 0xBF bs)
      else 0xFFFD # utf8_decode 0 0 0x80 0xBF (b # bs))"
  by pat_completeness auto
termination
  by (relation "measure (\<lambda>(cp, need, lo, hi, bs). 2 * length bs + (if need = 0 then 0 else 1))") auto

lemma utf8_encode_bytes: "cp < 0x110000 \<Longrightarrow> b \<in> set (utf8_encode cp) \<Longrightarrow> b < 256"
  by (auto simp: utf8_encode_def split: if_splits)

lemma div64_steps:
  "(cp::nat) div 4096 = cp div 64 div 64" "cp div 262144 = cp div 64 div 64 div 64"
  by (simp_all add: div_mult2_eq [symmetric])

lemma utf8_decode_encode:
  assumes "scalar_value cp"
  shows "utf8_decode 0 0 0x80 0xBF (utf8_encode cp @ bs) = cp # utf8_decode 0 0 0x80 0xBF bs"
proof -
  consider "cp < 0x80" | "0x80 \<le> cp" "cp < 0x800" | "0x800 \<le> cp" "cp < 0x10000"
    | "0x10000 \<le> cp" "cp < 0x110000"
    using assms by (force simp: scalar_value_def)
  then show ?thesis
  proof cases
    case 1
    then show ?thesis by (simp add: utf8_encode_def)
  next
    case 2
    define q r where "q = cp div 64" and "r = cp mod 64"
    have cp: "cp = q * 64 + r" "r < 64" by (simp_all add: q_def r_def)
    with 2 have "2 \<le> q" "q < 32" by auto
    with cp(2) 2 show ?thesis
      by (simp add: utf8_encode_def q_def [symmetric] r_def [symmetric] cp(1) [symmetric])
  next
    case 3
    define q m r where "q = cp div 4096" and "m = cp div 64 mod 64" and "r = cp mod 64"
    have cp: "cp = (q * 64 + m) * 64 + r" "m < 64" "r < 64"
      by (simp_all add: q_def m_def r_def div64_steps)
    with 3 have q: "q < 16" "q = 0 \<Longrightarrow> 32 \<le> m" by auto
    have m: "q = 13 \<Longrightarrow> m < 32"
      using assms cp by (auto simp: scalar_value_def)
    from 3 cp(2,3) q m have
      "utf8_decode 0 0 0x80 0xBF (utf8_encode cp @ bs) =
         ((q * 64 + m) * 64 + r) # utf8_decode 0 0 0x80 0xBF bs"
      by (auto simp: utf8_encode_def q_def [symmetric] m_def [symmetric] r_def [symmetric])
    then show ?thesis by (simp only: cp(1) [symmetric])
  next
    case 4
    define q m n r where "q = cp div 262144" and "m = cp div 4096 mod 64"
      and "n = cp div 64 mod 64" and "r = cp mod 64"
    have cp: "cp = ((q * 64 + m) * 64 + n) * 64 + r" "m < 64" "n < 64" "r < 64"
      by (simp_all add: q_def m_def n_def r_def div64_steps)
    with 4 have q: "q \<le> 4" "q = 0 \<Longrightarrow> 16 \<le> m" "q = 4 \<Longrightarrow> m < 16" by auto
    from 4 cp(2,3,4) q have
      "utf8_decode 0 0 0x80 0xBF (utf8_encode cp @ bs) =
         (((q * 64 + m) * 64 + n) * 64 + r) # utf8_decode 0 0 0x80 0xBF bs"
      by (auto simp: utf8_encode_def q_def [symmetric] m_def [symmetric] n_def [symmetric]
          r_def [symmetric])
    then show ?thesis by (simp only: cp(1) [symmetric])
  qed
qed

lemma utf8_roundtrip:
  "\<forall>cp \<in> set cps. scalar_value cp \<Longrightarrow>
   utf8_decode 0 0 0x80 0xBF (concat (map utf8_encode cps)) = cps"
  by (induction cps) (simp_all add: utf8_decode_encode)

section \<open>TextEncoder and TextDecoder\<close>

definition text_encode :: "jstr \<Rightarrow> bytes" where
  "text_encode s = map of_nat (concat (map utf8_encode (utf16_decode s)))"

definition text_decode :: "bytes \<Rightarrow> jstr" where
  "text_decode bs =
     (let cps = utf8_decode 0 0 0x80 0xBF (map unat bs)
      in concat (map utf16_encode (if take 3 bs = [0xEF, 0xBB, 0xBF] then tl cps else cps)))"

text \<open>The strings that survive: no lone surrogate, and no leading U+FEFF.\<close>

definition encodable :: "jstr \<Rightarrow> bool" where
  "encodable s \<longleftrightarrow> well_formed s \<and> take 1 s \<noteq> [0xFEFF]"

lemma utf8_cps_bytes:
  "b \<in> set (concat (map utf8_encode (utf16_decode s))) \<Longrightarrow> b < 256"
  using utf16_decode_scalar [of s] utf8_encode_bytes by (auto simp: scalar_value_def)

lemma map_unat_text_encode: "map unat (text_encode s) = concat (map utf8_encode (utf16_decode s))"
proof -
  have "map (\<lambda>b. unat (of_nat b :: u8)) bs = bs" if "\<forall>b \<in> set bs. b < 256" for bs
    using that by (induction bs) (simp_all add: unat_of_nat_u8)
  then show ?thesis
    using utf8_cps_bytes [of _ s] by (simp add: text_encode_def o_def del: map_concat set_concat)
qed

text \<open>The encoder writes the three bytes EF BB BF first only for a leading U+FEFF.\<close>

lemma utf8_encode_bom:
  assumes "scalar_value cp" and "take 3 (utf8_encode cp @ bs) = [0xEF, 0xBB, 0xBF]"
  shows "cp = 0xFEFF"
proof -
  have "cp = 0xFEFF" if "cp div 4096 = 15" "cp div 64 mod 64 = 59" "cp mod 64 = 63"
  proof -
    have "cp = (cp div 64 div 64 * 64 + cp div 64 mod 64) * 64 + cp mod 64" by simp
    with that show ?thesis by (simp add: div64_steps)
  qed
  with assms show ?thesis
    by (auto simp: utf8_encode_def scalar_value_def split: if_splits)
qed

lemma lone_bom: "lone c = 0xFEFF \<Longrightarrow> c = 0xFEFF"
  by (auto simp: lone_def split: if_splits intro: word_unat_eq_iff [THEN iffD2])

lemma text_encode_no_bom:
  assumes "encodable s"
  shows "take 3 (text_encode s) \<noteq> [0xEF, 0xBB, 0xBF]"
proof
  assume "take 3 (text_encode s) = [0xEF, 0xBB, 0xBF]"
  then have bom: "take 3 (map unat (text_encode s)) = [0xEF, 0xBB, 0xBF]"
    by (simp add: take_map)
  obtain cp cps where cps: "utf16_decode s = cp # cps"
    using bom by (cases "utf16_decode s") (auto simp: text_encode_def)
  have "scalar_value cp" using utf16_decode_scalar [of s] by (simp add: cps)
  moreover have "take 3 (utf8_encode cp @ concat (map utf8_encode cps)) = [0xEF, 0xBB, 0xBF]"
    using bom by (simp add: map_unat_text_encode cps)
  ultimately have "cp = 0xFEFF" by (rule utf8_encode_bom)
  with assms cps show False
    by (cases s rule: utf16_decode.cases) (auto simp: encodable_def dest: lone_bom split: if_splits)
qed

theorem text_roundtrip: "encodable s \<Longrightarrow> text_decode (text_encode s) = s"
  using text_encode_no_bom [of s]
  by (simp add: text_decode_def map_unat_text_encode utf8_roundtrip utf16_decode_scalar
      utf16_roundtrip encodable_def)

lemma js_Cons: "js (c # s) = of_char c # js s"
  by (simp add: js_def)

lemma encodable_js: "encodable (js s)"
proof -
  have small: "unat (of_char c :: u16) < 0xD800" for c :: char
    unfolding unat_of_char by (rule order.strict_trans [OF of_char_less]) simp
  have *: "\<not> hi_surrogate (of_char c)" "\<not> lo_surrogate (of_char c)" "(of_char c :: u16) \<noteq> 0xFEFF" for c
    using small [of c] by (auto simp: hi_surrogate_def lo_surrogate_def simp del: unat_of_char)
  have "well_formed (js s)"
    by (induction s rule: induct_list012) (simp_all add: js_Cons *)
  then show ?thesis by (cases s) (simp_all add: encodable_def js_Cons *)
qed

end
