(* ===== verification/Encoding.thy ===== *)
theory Encoding
  imports TextCodec
begin

text \<open>
  The encoding helpers of packages/core/src/encryption/crypto.ts (bufToBase64, base64ToBuf,
  bufToHex, hexToBuf, concatBufs) and the platform functions under them: btoa, atob (the
  forgiving-base64 decoder of the Infra standard), parseInt with radix 16, padStart. A byte that
  parseInt cannot read is NaN and is stored as 0; an odd last digit is dropped, because the write
  past the end of a Uint8Array is ignored.
\<close>

type_synonym error = "jstr js_error"

section \<open>btoa and atob\<close>

definition b64_code :: "nat \<Rightarrow> nat" where
  "b64_code n = (if n < 26 then 65 + n else if n < 52 then 71 + n
     else if n < 62 then n - 4 else if n = 62 then 43 else 47)"

definition b64_char :: "nat \<Rightarrow> u16" where
  "b64_char n = of_nat (b64_code n)"

definition b64_val :: "u16 \<Rightarrow> nat option" where
  "b64_val c = (let n = unat c in
     if 65 \<le> n \<and> n \<le> 90 then Some (n - 65) else if 97 \<le> n \<and> n \<le> 122 then Some (n - 71)
     else if 48 \<le> n \<and> n \<le> 57 then Some (n + 4) else if n = 43 then Some 62
     else if n = 47 then Some 63 else None)"

fun b64_sextets :: "nat list \<Rightarrow> nat list" where
  "b64_sextets [] = []"
| "b64_sextets [a] = [a div 4, a mod 4 * 16]"
| "b64_sextets [a, b] = [a div 4, a mod 4 * 16 + b div 16, b mod 16 * 4]"
| "b64_sextets (a # b # c # r) =
     a div 4 # (a mod 4 * 16 + b div 16) # (b mod 16 * 4 + c div 64) # (c mod 64) # b64_sextets r"

fun b64_octets :: "nat list \<Rightarrow> nat list" where
  "b64_octets (a # b # c # d # r) =
     (a * 4 + b div 16) # (b mod 16 * 16 + c div 4) # (c mod 4 * 64 + d) # b64_octets r"
| "b64_octets [a, b, c] = [a * 4 + b div 16, b mod 16 * 16 + c div 4]"
| "b64_octets [a, b] = [a * 4 + b div 16]"
| "b64_octets _ = []"

definition btoa :: "jstr \<Rightarrow> error + jstr" where
  "btoa s = (if \<forall>c \<in> set s. unat c < 256
     then Inr (map b64_char (b64_sextets (map unat s)) @ replicate ((3 - length s mod 3) mod 3) 61)
     else Inl (DOMExc ''InvalidCharacterError''))"

definition ascii_ws :: "u16 \<Rightarrow> bool" where
  "ascii_ws c \<longleftrightarrow> c \<in> {9, 10, 12, 13, 32}"

definition strip_pad :: "jstr \<Rightarrow> jstr" where
  "strip_pad s = (if length s mod 4 \<noteq> 0 then s
     else case rev s of
       [] \<Rightarrow> s
     | c # r \<Rightarrow> if c \<noteq> 61 then s else (case r of [] \<Rightarrow> [] | d # r' \<Rightarrow> if d = 61 then rev r' else rev r))"

definition atob :: "jstr \<Rightarrow> error + jstr" where
  "atob s = (let t = strip_pad (filter (\<lambda>c. \<not> ascii_ws c) s) in
     if length t mod 4 = 1 \<or> (\<exists>c \<in> set t. b64_val c = None)
     then Inl (DOMExc ''InvalidCharacterError'')
     else Inr (map of_nat (b64_octets (map (\<lambda>c. the (b64_val c)) t))))"

lemma b64_sextets_less: "\<forall>n \<in> set ns. n < 256 \<Longrightarrow> n \<in> set (b64_sextets ns) \<Longrightarrow> n < 64"
  by (induction ns rule: b64_sextets.induct) auto

lemma b64_octets_sextets: "\<forall>n \<in> set ns. n < 256 \<Longrightarrow> b64_octets (b64_sextets ns) = ns"
proof (induction ns rule: b64_sextets.induct)
  case (4 a b c r)
  have "(b mod 16 * 4 + c div 64) div 4 = b mod 16" "(b mod 16 * 4 + c div 64) mod 4 = c div 64"
    using 4 by auto
  moreover have "(a mod 4 * 16 + b div 16) div 16 = a mod 4" "(a mod 4 * 16 + b div 16) mod 16 = b div 16"
    using 4 by auto
  ultimately show ?case using 4 by simp
next
  case (3 a b)
  then have "(a mod 4 * 16 + b div 16) div 16 = a mod 4" "(a mod 4 * 16 + b div 16) mod 16 = b div 16"
    by auto
  then show ?case by simp
qed simp_all

lemma length_b64_sextets:
  "length (b64_sextets ns) = 4 * (length ns div 3) + (if length ns mod 3 = 0 then 0 else length ns mod 3 + 1)"
proof (induction ns rule: b64_sextets.induct)
  case (4 a b c r)
  have "length (a # b # c # r) div 3 = Suc (length r div 3)" "length (a # b # c # r) mod 3 = length r mod 3"
    by simp_all
  with 4 show ?case by simp
qed simp_all

lemma b64_sextets_pad:
  "(length (b64_sextets ns) + (3 - length ns mod 3) mod 3) mod 4 = 0"
  "length (b64_sextets ns) mod 4 \<noteq> 1"
proof -
  define q m where "q = length ns div 3" and "m = length ns mod 3"
  have "m = 0 \<or> m = 1 \<or> m = 2" by (auto simp: m_def)
  then have "(4 * q + (if m = 0 then 0 else m + 1) + (3 - m) mod 3) mod 4 = 0"
    and "(4 * q + (if m = 0 then 0 else m + 1)) mod 4 \<noteq> 1" by auto
  then show "(length (b64_sextets ns) + (3 - length ns mod 3) mod 3) mod 4 = 0"
    and "length (b64_sextets ns) mod 4 \<noteq> 1"
    unfolding length_b64_sextets q_def m_def by - assumption+
qed

lemma b64_val_char: "n < 64 \<Longrightarrow> b64_val (b64_char n) = Some n"
proof -
  assume n: "n < 64"
  then have "b64_code n < 65536" by (auto simp: b64_code_def)
  then have "unat (b64_char n) = b64_code n" unfolding b64_char_def by (rule unat_of_nat_u16)
  with n show ?thesis by (auto simp: b64_val_def b64_code_def Let_def)
qed

lemma b64_char_not:
  assumes "n < 64"
  shows "b64_char n \<noteq> 61" and "\<not> ascii_ws (b64_char n)"
proof -
  have "b64_val 61 = None" and ws: "\<forall>c. ascii_ws c \<longrightarrow> b64_val c = None"
    by (auto simp: b64_val_def ascii_ws_def)
  with b64_val_char [OF assms] show "b64_char n \<noteq> 61" by auto
  from ws b64_val_char [OF assms] show "\<not> ascii_ws (b64_char n)" by auto
qed

lemma strip_pad_append:
  assumes "61 \<notin> set t" and "k \<le> 2" and "(length t + k) mod 4 = 0"
  shows "strip_pad (t @ replicate k 61) = t"
proof -
  have "k = 0 \<or> k = Suc 0 \<or> k = Suc (Suc 0)" using assms(2) by auto
  moreover have "hd (rev t) \<noteq> 61" if "t \<noteq> []"
    using that assms(1) by (metis hd_in_set rev_is_Nil_conv set_rev)
  ultimately show ?thesis
    using assms by (auto simp: strip_pad_def neq_Nil_conv split: list.splits)
qed

theorem atob_btoa: "\<forall>c \<in> set s. unat c < 256 \<Longrightarrow> bindR (btoa s) atob = Inr s"
proof -
  assume s: "\<forall>c \<in> set s. unat c < 256"
  let ?x = "b64_sextets (map unat s)" and ?k = "(3 - length s mod 3) mod 3"
  let ?t = "map b64_char ?x"
  have x: "\<forall>n \<in> set ?x. n < 64" using s b64_sextets_less [of "map unat s"] by auto
  have "(length ?t + ?k) mod 4 = 0"
    using b64_sextets_pad(1) [of "map unat s"] by simp
  moreover have "61 \<notin> set ?t" using x b64_char_not(1) by (metis (no_types, lifting) in_set_conv_nth length_map nth_map nth_mem)
  ultimately have sp: "strip_pad (?t @ replicate ?k 61) = ?t" by (intro strip_pad_append) auto
  have f: "filter (\<lambda>c. \<not> ascii_ws c) (?t @ replicate ?k 61) = ?t @ replicate ?k 61"
    using x b64_char_not(2) by (auto simp: ascii_ws_def intro!: filter_True)
  have "map (\<lambda>c. the (b64_val c)) ?t = ?x"
    using x by (auto simp: b64_val_char intro!: map_idI)
  moreover have "length ?t mod 4 \<noteq> 1" using b64_sextets_pad(2) [of "map unat s"] by simp
  moreover have "\<forall>c \<in> set ?t. b64_val c \<noteq> None" using x by (auto simp: b64_val_char)
  ultimately have "atob (?t @ replicate ?k 61) = Inr (map of_nat (b64_octets ?x))"
    unfolding atob_def f sp Let_def by auto
  also have "b64_octets ?x = map unat s" using s by (intro b64_octets_sextets) simp
  finally show ?thesis using s by (simp add: btoa_def o_def)
qed

section \<open>Base64 of byte arrays\<close>

text \<open>
  The two loops: a binary string is built with String.fromCharCode, and read back with charCodeAt.
  Every code unit of it is a byte, so btoa does not throw and \<open>projr\<close> reads its result.
\<close>

definition bufToBase64 :: "bytes \<Rightarrow> jstr" where
  "bufToBase64 buf = projr (btoa (map ucast buf))"

definition base64ToBuf :: "jstr \<Rightarrow> error + bytes" where
  "base64ToBuf b64 = bindR (atob b64) (\<lambda>binary. Inr (map ucast binary))"

lemma unat_ucast_u16: "unat (ucast (b :: u8) :: u16) = unat b"
proof -
  have "unat (of_nat (unat b) :: u16) = unat b"
    using unat_u8_less [of b] by (intro unat_of_nat_u16) simp
  then show ?thesis by (simp only: of_nat_unat)
qed

lemma ucast_u16_u8: "(ucast (ucast (b :: u8) :: u16) :: u8) = b"
proof -
  have "(of_nat (unat (ucast b :: u16)) :: u8) = b" by (simp only: unat_ucast_u16 of_nat_unat ucast_id)
  then show ?thesis by (simp only: of_nat_unat)
qed

lemma btoa_bytes: "btoa (map ucast (buf :: bytes)) = Inr (bufToBase64 buf)"
proof -
  have "\<forall>c \<in> set (map ucast buf :: jstr). unat c < 256"
    using unat_u8_less by (auto simp: unat_ucast_u16)
  then show ?thesis unfolding bufToBase64_def btoa_def by simp
qed

theorem base64_roundtrip [simp]: "base64ToBuf (bufToBase64 buf) = Inr buf"
proof -
  have "\<forall>c \<in> set (map ucast buf :: jstr). unat c < 256"
    using unat_u8_less by (auto simp: unat_ucast_u16)
  then have "atob (bufToBase64 buf) = Inr (map ucast buf)"
    using atob_btoa [of "map ucast buf"] by (simp add: btoa_bytes)
  moreover have "map ucast (map ucast buf :: jstr) = buf"
    by (auto simp: o_def ucast_u16_u8 intro!: map_idI)
  ultimately show ?thesis by (simp add: base64ToBuf_def)
qed

lemma bufToBase64_inject [simp]: "bufToBase64 a = bufToBase64 b \<longleftrightarrow> a = b"
  by (metis base64_roundtrip sum.inject(2))

text \<open>No colon in base64 text: the separator of the skipped-key names.\<close>

lemma b64_char_not_colon: "n < 64 \<Longrightarrow> b64_char n \<noteq> 58"
  using b64_val_char [of n] by (auto simp: b64_val_def)

lemma colon_not_in_base64: "58 \<notin> set (bufToBase64 buf)"
proof -
  let ?ns = "map unat (map ucast buf :: jstr)"
  have "\<forall>n \<in> set ?ns. n < 256"
    using unat_u8_less by (auto simp: unat_ucast_u16)
  then have "\<forall>n \<in> set (b64_sextets ?ns). n < 64"
    using b64_sextets_less by blast
  then have sextets: "58 \<notin> set (map b64_char (b64_sextets ?ns))"
    using b64_char_not_colon by (auto simp del: map_map)
  have "bufToBase64 buf = map b64_char (b64_sextets ?ns) @ replicate ((3 - length buf mod 3) mod 3) 61"
    using btoa_bytes [of buf] unfolding btoa_def by (simp split: if_splits del: map_map)
  then have "set (bufToBase64 buf) \<subseteq> set (map b64_char (b64_sextets ?ns)) \<union> {61}"
    by (simp only: set_append set_replicate_conv_if) auto
  with sextets show ?thesis by auto
qed

section \<open>Hexadecimal\<close>

definition hex_char :: "nat \<Rightarrow> u16" where
  "hex_char n = of_nat (if n < 10 then 48 + n else 87 + n)"

fun to_string16 :: "nat \<Rightarrow> jstr" where
  "to_string16 n = (if n < 16 then [hex_char n] else to_string16 (n div 16) @ [hex_char (n mod 16)])"

declare to_string16.simps [simp del]

definition pad_start :: "nat \<Rightarrow> u16 \<Rightarrow> jstr \<Rightarrow> jstr" where
  "pad_start n c s = replicate (n - length s) c @ s"

definition bufToHex :: "bytes \<Rightarrow> jstr" where
  "bufToHex buf = concat (map (\<lambda>b. pad_start 2 48 (to_string16 (unat b))) buf)"

text \<open>White space for parseInt and String.prototype.trim.\<close>

definition js_ws :: "u16 \<Rightarrow> bool" where
  "js_ws c \<longleftrightarrow> (let n = unat c in
     (9 \<le> n \<and> n \<le> 13) \<or> n = 32 \<or> n = 0xA0 \<or> n = 0x1680 \<or> (0x2000 \<le> n \<and> n \<le> 0x200A) \<or>
     n = 0x2028 \<or> n = 0x2029 \<or> n = 0x202F \<or> n = 0x205F \<or> n = 0x3000 \<or> n = 0xFEFF)"

definition hex_val :: "u16 \<Rightarrow> nat option" where
  "hex_val c = (let n = unat c in
     if 48 \<le> n \<and> n \<le> 57 then Some (n - 48) else if 97 \<le> n \<and> n \<le> 102 then Some (n - 87)
     else if 65 \<le> n \<and> n \<le> 70 then Some (n - 55) else None)"

text \<open>parseInt(s, 16): \<open>None\<close> is NaN.\<close>

definition strip_0x :: "jstr \<Rightarrow> jstr" where
  "strip_0x s = (case s of c # d # r \<Rightarrow> if c = 48 \<and> (d = 120 \<or> d = 88) then r else s | _ \<Rightarrow> s)"

definition parse_int16 :: "jstr \<Rightarrow> int option" where
  "parse_int16 s =
     (let t = dropWhile js_ws s;
          (sign, u) = (case t of c # r \<Rightarrow> if c = 45 then (-1, r) else if c = 43 then (1, r) else (1, t)
                       | [] \<Rightarrow> (1, t));
          ds = takeWhile (\<lambda>c. hex_val c \<noteq> None) (strip_0x u)
      in if ds = [] then None
         else Some (sign * foldl (\<lambda>n c. n * 16 + int (the (hex_val c))) 0 ds))"

definition uint8_of :: "int option \<Rightarrow> u8" where
  "uint8_of n = (case n of None \<Rightarrow> 0 | Some i \<Rightarrow> of_int i)"

fun hexToBuf :: "jstr \<Rightarrow> bytes" where
  "hexToBuf (c # d # hex) = uint8_of (parse_int16 [c, d]) # hexToBuf hex"
| "hexToBuf _ = []"

lemma unat_hex_char: "n < 16 \<Longrightarrow> unat (hex_char n) = (if n < 10 then 48 + n else 87 + n)"
  unfolding hex_char_def by (rule unat_of_nat_u16) auto

lemma hex_val_char [simp]: "n < 16 \<Longrightarrow> hex_val (hex_char n) = Some n"
  by (auto simp: hex_val_def unat_hex_char Let_def)

lemma hex_char_not_ws: "n < 16 \<Longrightarrow> \<not> js_ws (hex_char n)"
  by (auto simp: js_ws_def unat_hex_char Let_def)

lemma hex_char_neq:
  assumes "n < 16"
  shows "hex_char n \<noteq> 45" "hex_char n \<noteq> 43" "hex_char n \<noteq> 120" "hex_char n \<noteq> 88"
  using hex_val_char [OF assms] by (auto simp: hex_val_def)

lemma parse_hex_pair:
  "a < 16 \<Longrightarrow> b < 16 \<Longrightarrow> parse_int16 [hex_char a, hex_char b] = Some (int (a * 16 + b))"
  by (simp add: parse_int16_def hex_char_not_ws hex_char_neq strip_0x_def)

lemma byte_hex:
  "pad_start 2 48 (to_string16 (unat (b :: u8))) = [hex_char (unat b div 16), hex_char (unat b mod 16)]"
proof (cases "unat b < 16")
  case True
  then show ?thesis by (subst to_string16.simps) (simp add: pad_start_def hex_char_def)
next
  case False
  have "unat b div 16 < 16" using unat_u8_less [of b] by simp
  with False show ?thesis
    by (subst to_string16.simps, subst to_string16.simps) (simp add: pad_start_def)
qed

lemma bufToHex_simps:
  "bufToHex [] = []"
  "bufToHex (b # bs) = hex_char (unat b div 16) # hex_char (unat b mod 16) # bufToHex bs"
  by (simp_all add: bufToHex_def byte_hex)

theorem hex_roundtrip [simp]: "hexToBuf (bufToHex buf) = buf"
proof (induction buf)
  case (Cons b buf)
  have lt: "unat b div 16 < 16" using unat_u8_less [of b] by simp
  have "uint8_of (parse_int16 [hex_char (unat b div 16), hex_char (unat b mod 16)])
      = of_int (int (unat b div 16 * 16 + unat b mod 16))"
    using lt by (simp only: parse_hex_pair mod_less_divisor uint8_of_def option.case zero_less_numeral)
  also have "\<dots> = of_nat (unat b)" by (simp only: div_mult_mod_eq of_int_of_nat_eq)
  finally show ?case using Cons by (simp add: bufToHex_simps)
qed (simp add: bufToHex_simps)

lemma length_bufToHex [simp]: "length (bufToHex buf) = 2 * length buf"
  by (induction buf) (simp_all add: bufToHex_simps)

lemma bufToHex_eq_Nil [simp]: "bufToHex buf = [] \<longleftrightarrow> buf = []"
  by (cases buf) (simp_all add: bufToHex_simps)

lemma length_hexToBuf: "length (hexToBuf hex) = length hex div 2"
  by (induction hex rule: hexToBuf.induct) simp_all

section \<open>Concatenation\<close>

text \<open>
  The code allocates the result at its total length and copies each array at a running offset:
  \<open>set_at\<close> is Uint8Array.prototype.set.
\<close>

definition set_at :: "bytes \<Rightarrow> nat \<Rightarrow> bytes \<Rightarrow> bytes" where
  "set_at out offset arr = take offset out @ arr @ drop (offset + length arr) out"

definition concatBufs :: "bytes list \<Rightarrow> bytes" where
  "concatBufs arrays =
     (let total = foldl (\<lambda>s a. s + length a) 0 arrays
      in fst (foldl (\<lambda>(out, offset) arr. (set_at out offset arr, offset + length arr))
           (replicate total 0, 0) arrays))"

lemma foldl_set_at:
  "fst (foldl (\<lambda>(out, offset) arr. (set_at out offset arr, offset + length arr)) (pre @ rest, length pre) arrays)
     = pre @ concat arrays @ drop (length (concat arrays)) rest"
proof (induction arrays arbitrary: pre rest)
  case (Cons a arrays)
  have "set_at (pre @ rest) (length pre) a = (pre @ a) @ drop (length a) rest"
    by (simp add: set_at_def)
  then show ?case using Cons.IH [of "pre @ a" "drop (length a) rest"] by (simp add: add.commute)
qed simp

lemma total_length: "foldl (\<lambda>s a. s + length a) n arrays = n + length (concat arrays)"
  by (induction arrays arbitrary: n) simp_all

theorem concatBufs_concat: "concatBufs arrays = concat arrays"
  using foldl_set_at [of "[]" _ arrays] by (simp add: concatBufs_def total_length)

end
