(* ===== verification/Json.thy ===== *)
theory Json
  imports Encoding
begin

text \<open>
  JSON.stringify and JSON.parse on the values the program writes and reads. A number literal that
  is not an integer is kept as its text (\<open>JNum\<close>); integers are exact here, so a value beyond 2^53
  is outside the model. JSON.parse runs on fuel; \<open>json_parse\<close> gives it more than any text of its
  length can spend (\<open>parse_fuel_enough\<close>).
\<close>

datatype json =
    JNull
  | JBool bool
  | JInt int
  | JNum jstr
  | JStr jstr
  | JArr "json list"
  | JObj "(jstr \<times> json) list"

text \<open>Reading a property: a repeated key keeps its last value.\<close>

definition json_get :: "json \<Rightarrow> jstr \<Rightarrow> json option" where
  "json_get v k = (case v of JObj fs \<Rightarrow> map_of (rev fs) k | _ \<Rightarrow> None)"

section \<open>JSON.stringify\<close>

definition u_escape :: "u16 \<Rightarrow> jstr" where
  "u_escape c = (let n = unat c in
     [92, 117, hex_char (n div 4096), hex_char (n div 256 mod 16), hex_char (n div 16 mod 16),
      hex_char (n mod 16)])"

definition escape_char :: "u16 \<Rightarrow> jstr" where
  "escape_char c =
     (if c = 34 then [92, 34] else if c = 92 then [92, 92] else if c = 8 then [92, 98]
      else if c = 12 then [92, 102] else if c = 10 then [92, 110] else if c = 13 then [92, 114]
      else if c = 9 then [92, 116] else if unat c < 32 then u_escape c
      else if hi_surrogate c \<or> lo_surrogate c then u_escape c else [c])"

fun escape :: "jstr \<Rightarrow> jstr" where
  "escape [] = []"
| "escape [c] = escape_char c"
| "escape (c # d # s) =
     (if hi_surrogate c \<and> lo_surrogate d then c # d # escape s else escape_char c @ escape (d # s))"

definition quote :: "jstr \<Rightarrow> jstr" where
  "quote s = 34 # escape s @ [34]"

fun join :: "u16 \<Rightarrow> jstr list \<Rightarrow> jstr" where
  "join c [] = []"
| "join c [s] = s"
| "join c (s # t # ss) = s @ c # join c (t # ss)"

fun json_stringify :: "json \<Rightarrow> jstr" where
  "json_stringify JNull = js ''null''"
| "json_stringify (JBool b) = js (if b then ''true'' else ''false'')"
| "json_stringify (JInt i) = js_int i"
| "json_stringify (JNum t) = t"
| "json_stringify (JStr s) = quote s"
| "json_stringify (JArr vs) = 91 # join 44 (map json_stringify vs) @ [93]"
| "json_stringify (JObj fs) = 123 # join 44 (map (\<lambda>(k, v). quote k @ 58 # json_stringify v) fs) @ [125]"

section \<open>JSON.parse\<close>

definition skip_ws :: "jstr \<Rightarrow> jstr" where
  "skip_ws s = dropWhile (\<lambda>c. c = 9 \<or> c = 10 \<or> c = 13 \<or> c = 32) s"

definition hex4 :: "u16 \<Rightarrow> u16 \<Rightarrow> u16 \<Rightarrow> u16 \<Rightarrow> u16 option" where
  "hex4 a b c d = (case (hex_val a, hex_val b, hex_val c, hex_val d) of
     (Some i, Some j, Some k, Some l) \<Rightarrow> Some (of_nat (((i * 16 + j) * 16 + k) * 16 + l))
   | _ \<Rightarrow> None)"

definition unescape :: "u16 \<Rightarrow> u16 option" where
  "unescape d =
     (if d = 34 \<or> d = 92 \<or> d = 47 then Some d else if d = 98 then Some 8
      else if d = 102 then Some 12 else if d = 110 then Some 10 else if d = 114 then Some 13
      else if d = 116 then Some 9 else None)"

definition cons_fst :: "'a \<Rightarrow> ('a list \<times> 'b) option \<Rightarrow> ('a list \<times> 'b) option" where
  "cons_fst x r = map_option (\<lambda>(xs, y). (x # xs, y)) r"

fun parse_string :: "jstr \<Rightarrow> (jstr \<times> jstr) option" where
  "parse_string [] = None"
| "parse_string (c # r) =
     (if c = 34 then Some ([], r)
      else if c = 92 then
        (case r of [] \<Rightarrow> None | d # r' \<Rightarrow>
          if d = 117 then
            (case r' of a # b # e # f # r'' \<Rightarrow>
               (case hex4 a b e f of None \<Rightarrow> None | Some x \<Rightarrow> cons_fst x (parse_string r''))
             | _ \<Rightarrow> None)
          else (case unescape d of None \<Rightarrow> None | Some x \<Rightarrow> cons_fst x (parse_string r')))
      else if unat c < 32 then None
      else cons_fst c (parse_string r))"

text \<open>
  A number: an optional minus, digits with no leading zero, then a fraction or an exponent, which
  make it a literal kept as text.
\<close>

definition frac_part :: "jstr \<Rightarrow> (jstr \<times> jstr) option" where
  "frac_part s = (case s of c # r \<Rightarrow>
       if c = 46 then (let ds = takeWhile is_digit r in
         if ds = [] then None else Some (c # ds, dropWhile is_digit r))
       else Some ([], s) | [] \<Rightarrow> Some ([], s))"

definition exp_part :: "jstr \<Rightarrow> (jstr \<times> jstr) option" where
  "exp_part s = (case s of c # r \<Rightarrow>
       if c = 101 \<or> c = 69 then
         (let (sg, r') = (case r of d # r' \<Rightarrow> if d = 43 \<or> d = 45 then ([d], r') else ([], r) | [] \<Rightarrow> ([], r));
              ds = takeWhile is_digit r'
          in if ds = [] then None else Some (c # sg @ ds, dropWhile is_digit r'))
       else Some ([], s) | [] \<Rightarrow> Some ([], s))"

definition parse_number :: "jstr \<Rightarrow> (json \<times> jstr) option" where
  "parse_number s =
     (let (sg, r) = (case s of c # r \<Rightarrow> if c = 45 then ([c], r) else ([], s) | [] \<Rightarrow> ([], s));
          ds = takeWhile is_digit r; r1 = dropWhile is_digit r
      in if ds = [] \<or> (hd ds = 48 \<and> length ds > 1) then None
         else case frac_part r1 of None \<Rightarrow> None | Some (fs, r2) \<Rightarrow>
           (case exp_part r2 of None \<Rightarrow> None | Some (es, r3) \<Rightarrow>
             Some (if fs = [] \<and> es = []
               then JInt (if sg = [] then int (digits_val ds) else - int (digits_val ds))
               else JNum (sg @ ds @ fs @ es), r3)))"

definition parse_word :: "jstr \<Rightarrow> json \<Rightarrow> jstr \<Rightarrow> (json \<times> jstr) option" where
  "parse_word w v s = (if take (length w) s = w then Some (v, drop (length w) s) else None)"

fun parse_value :: "nat \<Rightarrow> jstr \<Rightarrow> (json \<times> jstr) option"
  and parse_elems :: "nat \<Rightarrow> jstr \<Rightarrow> (json list \<times> jstr) option"
  and parse_fields :: "nat \<Rightarrow> jstr \<Rightarrow> ((jstr \<times> json) list \<times> jstr) option" where
  "parse_value 0 s = None"
| "parse_value (Suc n) s = (case skip_ws s of [] \<Rightarrow> None | c # r \<Rightarrow>
     if c = 34 then map_option (\<lambda>(t, r'). (JStr t, r')) (parse_string r)
     else if c = 91 then
       (case skip_ws r of [] \<Rightarrow> None | d # r' \<Rightarrow>
          if d = 93 then Some (JArr [], r')
          else map_option (\<lambda>(vs, r''). (JArr vs, r'')) (parse_elems n (d # r')))
     else if c = 123 then
       (case skip_ws r of [] \<Rightarrow> None | d # r' \<Rightarrow>
          if d = 125 then Some (JObj [], r')
          else map_option (\<lambda>(fs, r''). (JObj fs, r'')) (parse_fields n (d # r')))
     else if c = 45 \<or> is_digit c then parse_number (c # r)
     else if c = 110 then parse_word (js ''null'') JNull (c # r)
     else if c = 116 then parse_word (js ''true'') (JBool True) (c # r)
     else if c = 102 then parse_word (js ''false'') (JBool False) (c # r)
     else None)"
| "parse_elems 0 s = None"
| "parse_elems (Suc n) s = (case parse_value n s of None \<Rightarrow> None | Some (v, r) \<Rightarrow>
     (case skip_ws r of [] \<Rightarrow> None | c # r' \<Rightarrow>
        if c = 44 then cons_fst v (parse_elems n r')
        else if c = 93 then Some ([v], r') else None))"
| "parse_fields 0 s = None"
| "parse_fields (Suc n) s = (case skip_ws s of [] \<Rightarrow> None | q # r0 \<Rightarrow>
     if q \<noteq> 34 then None
     else (case parse_string r0 of None \<Rightarrow> None | Some (k, r1) \<Rightarrow>
       (case skip_ws r1 of [] \<Rightarrow> None | e # r2 \<Rightarrow>
         if e \<noteq> 58 then None
         else (case parse_value n r2 of None \<Rightarrow> None | Some (v, r3) \<Rightarrow>
           (case skip_ws r3 of [] \<Rightarrow> None | c # r4 \<Rightarrow>
              if c = 44 then cons_fst (k, v) (parse_fields n r4)
              else if c = 125 then Some ([(k, v)], r4) else None)))))"

definition json_parse :: "jstr \<Rightarrow> error + json" where
  "json_parse s = (case parse_value (2 * length s + 2) s of
     None \<Rightarrow> Inl SyntaxErr
   | Some (v, r) \<Rightarrow> if skip_ws r = [] then Inr v else Inl SyntaxErr)"

section \<open>A stringified value parses back\<close>

lemma hex4_digits:
  assumes "n < 65536"
  shows "hex4 (hex_char (n div 4096)) (hex_char (n div 256 mod 16)) (hex_char (n div 16 mod 16))
           (hex_char (n mod 16)) = Some (of_nat n)"
proof -
  define m where "m = n div 16"
  have "n div 4096 = m div 16 div 16" "n div 256 = m div 16"
    by (simp_all add: m_def div_mult2_eq [symmetric])
  moreover have "((m div 16 div 16 * 16 + m div 16 mod 16) * 16 + m mod 16) * 16 + n mod 16 = n"
    by (simp add: m_def)
  moreover have "n div 4096 < 16" using assms by simp
  ultimately show ?thesis by (simp add: hex4_def m_def [symmetric])
qed

lemma parse_u_escape: "parse_string (u_escape c @ t) = cons_fst c (parse_string t)"
proof -
  have "hex4 (hex_char (unat c div 4096)) (hex_char (unat c div 256 mod 16))
      (hex_char (unat c div 16 mod 16)) (hex_char (unat c mod 16)) = Some c"
    using hex4_digits [OF unat_u16_less] by simp
  then show ?thesis by (simp add: u_escape_def Let_def)
qed

lemma parse_escape_char: "parse_string (escape_char c @ t) = cons_fst c (parse_string t)"
  by (simp add: escape_char_def parse_u_escape unescape_def)

lemma surrogate_plain:
  assumes "hi_surrogate c \<or> lo_surrogate c"
  shows "c \<noteq> 34" "c \<noteq> 92" "\<not> unat c < 32"
  using assms by (auto simp: hi_surrogate_def lo_surrogate_def)

lemma parse_escape: "parse_string (escape s @ 34 # t) = Some (s, t)"
proof (induction s rule: escape.induct)
  case (2 c)
  then show ?case by (simp add: parse_escape_char cons_fst_def)
next
  case (3 c d s)
  show ?case
  proof (cases "hi_surrogate c \<and> lo_surrogate d")
    case True
    then have "escape (c # d # s) @ 34 # t = c # d # (escape s @ 34 # t)" by simp
    moreover have "parse_string (c # d # u) = cons_fst c (cons_fst d (parse_string u))" for u
      using True surrogate_plain [of c] surrogate_plain [of d] by simp
    ultimately show ?thesis using 3(1) True by (simp add: cons_fst_def)
  next
    case False
    then have eq: "escape (c # d # s) = escape_char c @ escape (d # s)"
      unfolding escape.simps by (rule if_not_P)
    from False have "parse_string (escape (d # s) @ 34 # t) = Some (d # s, t)" by (rule 3(2))
    then show ?thesis unfolding eq append_assoc parse_escape_char by (simp add: cons_fst_def)
  qed
qed (simp add: cons_fst_def)

definition stop :: "jstr \<Rightarrow> bool" where
  "stop s = (case s of [] \<Rightarrow> True | c # _ \<Rightarrow> \<not> is_digit c \<and> c \<noteq> 46 \<and> c \<noteq> 101 \<and> c \<noteq> 69)"

lemma hd_nat_digits: "hd (nat_digits n) = 48 \<Longrightarrow> n = 0"
proof (induction n rule: nat_digits.induct)
  case (1 n)
  show ?case
  proof (cases "n < 10")
    case True
    with 1(2) have "(of_nat (48 + n) :: u16) = of_nat 48"
      by (simp add: nat_digits.simps [of n] del: of_nat_add)
    then have "48 + n = 48" using True by (metis unat_digit unat_of_nat_u16 numeral_less_iff semiring_norm(76,77,78,79,80,81))
    then show ?thesis by simp
  next
    case False
    then have "hd (nat_digits n) = hd (nat_digits (n div 10))"
      by (simp add: nat_digits.simps [of n])
    with 1 False show ?thesis by simp
  qed
qed

lemma digits_take_drop:
  assumes "stop rest"
  shows "takeWhile is_digit (nat_digits n @ rest) = nat_digits n"
    and "dropWhile is_digit (nat_digits n @ rest) = rest"
proof -
  have "\<not> is_digit (hd rest)" if "rest \<noteq> []"
    using assms that by (cases rest) (auto simp: stop_def)
  then show "takeWhile is_digit (nat_digits n @ rest) = nat_digits n"
    and "dropWhile is_digit (nat_digits n @ rest) = rest"
    using nat_digits_are_digits [of n] by (cases rest; simp)+
qed

lemma stop_no_suffix: "stop rest \<Longrightarrow> frac_part rest = Some ([], rest)" "stop rest \<Longrightarrow> exp_part rest = Some ([], rest)"
  by (auto simp: stop_def frac_part_def exp_part_def split: list.splits)

lemma parse_js_int:
  assumes "stop rest"
  shows "parse_number (js_int i @ rest) = Some (JInt i, rest)"
proof -
  let ?n = "nat \<bar>i\<bar>"
  have zero: "\<not> (hd (nat_digits ?n) = 48 \<and> length (nat_digits ?n) > 1)"
    using hd_nat_digits [of ?n] by (cases "?n = 0") (auto simp: nat_digits.simps [of 0])
  obtain d ds where dd: "nat_digits ?n = d # ds" by (cases "nat_digits ?n") auto
  have "d \<noteq> 45" using nat_digits_are_digits [of ?n] by (auto simp: dd)
  show ?thesis
  proof (cases "i < 0")
    case True
    then have "js_int i = 45 # nat_digits ?n" by (simp add: js_int_def)
    with True zero assms show ?thesis
      by (simp add: parse_number_def digits_take_drop stop_no_suffix Let_def)
  next
    case False
    then have "js_int i = nat_digits ?n" by (simp add: js_int_def)
    moreover have "(case nat_digits ?n @ rest of c # r \<Rightarrow> if c = 45 then ([c], r) else ([], nat_digits ?n @ rest)
        | [] \<Rightarrow> ([], nat_digits ?n @ rest)) = ([], nat_digits ?n @ rest)"
      using \<open>d \<noteq> 45\<close> by (simp add: dd)
    ultimately show ?thesis using False zero assms
      by (simp only: parse_number_def) (simp add: digits_take_drop stop_no_suffix Let_def)
  qed
qed

fun json_wf :: "json \<Rightarrow> bool" where
  "json_wf (JNum t) = False"
| "json_wf (JArr vs) = (\<forall>v \<in> set vs. json_wf v)"
| "json_wf (JObj fs) = (\<forall>f \<in> set fs. json_wf (snd f))"
| "json_wf _ = True"

lemma json_first:
  assumes "json_wf v"
  obtains c r where "json_stringify v = c # r" "c \<notin> {9, 10, 13, 32}" "c \<noteq> 93" "c \<noteq> 125"
proof -
  have digit: "\<exists>d ds. nat_digits n = d # ds \<and> is_digit d" for n
    using nat_digits_are_digits [of n] by (cases "nat_digits n") auto
  have nws: "is_digit c \<Longrightarrow> c \<noteq> 9 \<and> c \<noteq> 10 \<and> c \<noteq> 13 \<and> c \<noteq> 32 \<and> c \<noteq> 93 \<and> c \<noteq> 125" for c
    by (auto simp: is_digit_def)
  show thesis
  proof (cases v)
    case (JInt i)
    show thesis
    proof (cases "i < 0")
      case True
      with JInt show thesis by (intro that [of 45 "nat_digits (nat (- i))"]) (simp_all add: js_int_def skip_ws_def)
    next
      case False
      obtain d ds where "nat_digits (nat i) = d # ds" "is_digit d" using digit by blast
      with False JInt nws show thesis by (intro that [of d ds]) (simp_all add: js_int_def skip_ws_def)
    qed
  next
    case (JBool b)
    with that show thesis by (cases b) (auto simp: js_def skip_ws_def)
  qed (use assms that in \<open>auto simp: js_def quote_def skip_ws_def\<close>)
qed

lemma json_stringify_pos: "json_wf v \<Longrightarrow> 0 < length (json_stringify v)"
  by (erule json_first) simp

lemma parse_elems_join:
  assumes "vs \<noteq> []"
    and elem: "\<And>v n rest. v \<in> set vs \<Longrightarrow> stop rest \<Longrightarrow> 2 * length (json_stringify v) < n \<Longrightarrow>
      parse_value n (json_stringify v @ rest) = Some (v, rest)"
    and "2 * length (join 44 (map json_stringify vs)) + 1 < n"
    and "\<forall>v \<in> set vs. json_wf v"
  shows "parse_elems n (join 44 (map json_stringify vs) @ 93 # rest) = Some (vs, rest)"
  using assms
proof (induction vs arbitrary: n rule: list_nonempty_induct)
  case (single v)
  then obtain m where n: "n = Suc m" "2 * length (json_stringify v) < m" by (cases n) auto
  have "parse_value m (json_stringify v @ 93 # rest) = Some (v, 93 # rest)"
    using single n by (intro single(1)) (auto simp: stop_def is_digit_def)
  then show ?case by (simp add: n skip_ws_def)
next
  case (cons v vs)
  obtain w ws where vs: "vs = w # ws" using cons(1) by (cases vs) auto
  let ?t = "join 44 (map json_stringify vs) @ 93 # rest"
  have txt_eq: "join 44 (map json_stringify (v # vs)) @ 93 # rest = json_stringify v @ 44 # ?t"
    by (simp add: vs)
  have "0 < length (json_stringify v)" using cons(5) by (intro json_stringify_pos) simp
  with cons(4) obtain m where n: "n = Suc m" "2 * length (json_stringify v) < m"
    "2 * length (join 44 (map json_stringify vs)) + 1 < m"
    by (cases n) (auto simp: vs)
  have "parse_value m (json_stringify v @ 44 # ?t) = Some (v, 44 # ?t)"
    using n by (intro cons(3)) (auto simp: stop_def is_digit_def)
  moreover have "parse_elems m ?t = Some (vs, rest)"
    using cons n by (intro cons(2)) auto
  ultimately show ?case unfolding txt_eq by (simp add: n skip_ws_def cons_fst_def)
qed

lemma parse_fields_join:
  assumes "fs \<noteq> []"
    and elem: "\<And>k v n rest. (k, v) \<in> set fs \<Longrightarrow> stop rest \<Longrightarrow> 2 * length (json_stringify v) < n \<Longrightarrow>
      parse_value n (json_stringify v @ rest) = Some (v, rest)"
    and "2 * length (join 44 (map (\<lambda>(k, v). quote k @ 58 # json_stringify v) fs)) + 1 < n"
  shows "parse_fields n (join 44 (map (\<lambda>(k, v). quote k @ 58 # json_stringify v) fs) @ 125 # rest)
    = Some (fs, rest)"
  using assms
proof (induction fs arbitrary: n rule: list_nonempty_induct)
  case (single f)
  obtain k v where f: "f = (k, v)" by (cases f)
  obtain m where n: "n = Suc m" "2 * length (json_stringify v) < m"
    using single(2) by (cases n) (auto simp: f quote_def)
  have "parse_value m (json_stringify v @ 125 # rest) = Some (v, 125 # rest)"
    using n by (intro single(1) [of k]) (auto simp: f stop_def is_digit_def)
  then show ?case by (simp add: n f quote_def skip_ws_def parse_escape)
next
  case (cons f fs)
  obtain k v where f: "f = (k, v)" by (cases f)
  let ?j = "\<lambda>fs. join 44 (map (\<lambda>(k, v). quote k @ 58 # json_stringify v) fs)"
  let ?t = "?j fs @ 125 # rest"
  have txt_eq: "?j (f # fs) @ 125 # rest = 34 # escape k @ 34 # 58 # json_stringify v @ 44 # ?t"
    using cons(1) by (cases fs) (auto simp: f quote_def)
  have "length (?j (f # fs)) = length (escape k) + length (json_stringify v) + length (?j fs) + 4"
    using arg_cong [OF txt_eq, of length] by simp
  with cons(4) obtain m where n: "n = Suc m" "2 * length (json_stringify v) < m"
    "2 * length (?j fs) + 1 < m"
    by (cases n) auto
  have "parse_value m (json_stringify v @ 44 # ?t) = Some (v, 44 # ?t)"
    using n by (intro cons(3) [of k]) (auto simp: f stop_def is_digit_def)
  moreover have "parse_fields m ?t = Some (fs, rest)"
    using n by (intro cons(2) cons(3)) auto
  ultimately show ?case
    unfolding txt_eq by (simp add: n f skip_ws_def parse_escape cons_fst_def)
qed

lemma parse_value_stringify:
  assumes "json_wf v" and "stop rest" and "2 * length (json_stringify v) < n"
  shows "parse_value n (json_stringify v @ rest) = Some (v, rest)"
  using assms
proof (induction v arbitrary: n rest)
  case (JInt i)
  obtain c r where cr: "js_int i = c # r" "c \<notin> {9, 10, 13, 32}"
    by (rule json_first [of "JInt i"]) auto
  then have "c = 45 \<or> is_digit c" using js_int_chars [of c i] by auto
  moreover have "parse_number (c # r @ rest) = Some (JInt i, rest)"
    using parse_js_int [OF JInt(2), of i] by (simp add: cr(1))
  ultimately show ?case using JInt(3) cr
    by (cases n) (auto simp: skip_ws_def is_digit_def)
next
  case (JStr t)
  then show ?case by (cases n) (simp_all add: quote_def skip_ws_def parse_escape)
next
  case (JArr vs)
  show ?case
  proof (cases "vs = []")
    case True
    with JArr(4) show ?thesis by (cases n) (simp_all add: skip_ws_def)
  next
    case False
    then obtain v ws where vs: "vs = v # ws" by (cases vs) auto
    obtain m where n: "n = Suc m" "2 * length (join 44 (map json_stringify vs)) + 1 < m"
      using JArr(4) by (cases n) auto
    have "json_wf v" using JArr(2) by (simp add: vs)
    then obtain c r where cr: "json_stringify v = c # r" "c \<notin> {9, 10, 13, 32}" "c \<noteq> 93"
      by (rule json_first)
    obtain u where j: "join 44 (map json_stringify vs) = c # u"
      by (cases ws) (auto simp: vs cr(1))
    have "parse_elems m (join 44 (map json_stringify vs) @ 93 # rest) = Some (vs, rest)"
      using JArr(1,2) n False by (intro parse_elems_join) auto
    then show ?thesis using cr(2,3) by (simp add: n j skip_ws_def)
  qed
next
  case (JObj fs)
  let ?j = "join 44 (map (\<lambda>(k, v). quote k @ 58 # json_stringify v) fs)"
  show ?case
  proof (cases "fs = []")
    case True
    with JObj(4) show ?thesis by (cases n) (simp_all add: skip_ws_def)
  next
    case False
    obtain m where n: "n = Suc m" "2 * length ?j + 1 < m"
      using JObj(4) by (cases n) auto
    obtain u where j: "?j = 34 # u"
      using False by (cases fs; cases "tl fs") (auto simp: quote_def split: prod.splits)
    have "parse_fields m (?j @ 125 # rest) = Some (fs, rest)"
      using JObj(1,2) n False by (intro parse_fields_join) (auto simp: snds.simps)
    then show ?thesis by (simp add: n j skip_ws_def)
  qed
next
  case (JBool b)
  then show ?case by (cases n; cases b) (simp_all add: skip_ws_def js_def parse_word_def is_digit_def)
next
  case JNull
  then show ?case by (cases n) (simp_all add: skip_ws_def js_def parse_word_def is_digit_def)
qed simp

theorem json_roundtrip: "json_wf v \<Longrightarrow> json_parse (json_stringify v) = Inr v"
  using parse_value_stringify [of v "[]" "2 * length (json_stringify v) + 2"]
  by (simp add: json_parse_def stop_def skip_ws_def)

section \<open>The fuel is enough\<close>

lemma length_skip_ws: "length (skip_ws s) \<le> length s"
  by (simp add: skip_ws_def length_dropWhile_le)

lemma skip_ws_shorter: "skip_ws s = c # r \<Longrightarrow> length r < length s"
  using length_skip_ws [of s] by simp

lemma parse_string_shorter: "parse_string s = Some (t, r) \<Longrightarrow> length r < length s"
proof (induction s arbitrary: t r rule: length_induct)
  case (1 s)
  have step: "length r < length u" if "cons_fst x (parse_string u) = Some (t, r)" "length u < length s" for x u
    using that 1(1) by (auto simp: cons_fst_def)
  from 1(2) show ?case
    by (cases s) (auto split: if_splits list.splits option.splits dest!: step)
qed

lemma exp_part_shorter: "exp_part s = Some (t, r) \<Longrightarrow> length r \<le> length s"
  by (auto simp: exp_part_def Let_def length_dropWhile_le le_SucI split: list.splits if_splits
      intro: order.trans [OF length_dropWhile_le])

lemma frac_part_shorter: "frac_part s = Some (t, r) \<Longrightarrow> length r \<le> length s"
  by (auto simp: frac_part_def Let_def length_dropWhile_le le_SucI split: list.splits if_splits)

lemma parse_number_shorter:
  assumes "parse_number s = Some (v, r)"
  shows "length r < length s"
proof -
  obtain sg u where u: "(case s of c # r \<Rightarrow> if c = 45 then ([c], r) else ([], s) | [] \<Rightarrow> ([], s)) = (sg, u)"
    by fastforce
  have us: "length u \<le> length s" using u by (auto split: list.splits if_splits)
  have "length (takeWhile is_digit u) + length (dropWhile is_digit u) = length u"
    by (metis length_append takeWhile_dropWhile_id)
  moreover have "takeWhile is_digit u \<noteq> []" "length r \<le> length (dropWhile is_digit u)"
    using assms unfolding parse_number_def u
    by (auto simp: Let_def split: option.splits if_splits dest!: exp_part_shorter frac_part_shorter)
  ultimately show ?thesis using us by (cases "takeWhile is_digit u") auto
qed

lemma parse_word_shorter: "parse_word w x s = Some (v, r) \<Longrightarrow> w \<noteq> [] \<Longrightarrow> length r < length s"
  by (cases w; cases s) (auto simp: parse_word_def split: if_splits)

lemma parse_shorter:
  "parse_value n s = Some (v, r) \<Longrightarrow> length r < length s"
  "parse_elems n s = Some (vs, r) \<Longrightarrow> length r < length s"
  "parse_fields n s = Some (fs, r) \<Longrightarrow> length r < length s"
proof (induction n arbitrary: s v vs fs r)
  case (Suc n)
  note ws = length_skip_ws
  { case 1
    have "length r < length (skip_ws s)"
      using 1 Suc.IH(2,3)
      by (auto split: list.splits if_splits dest!: parse_string_shorter parse_number_shorter
          parse_word_shorter)
         (metis (no_types, lifting) Suc_lessD length_Cons length_skip_ws less_Suc_eq_le order.strict_trans2 order_less_imp_le)+
    with ws [of s] show ?case by linarith
  next
    case 2
    then obtain u w where "parse_value n s = Some (u, w)" "length r < length w"
      using Suc.IH(2) ws
      by (auto simp: cons_fst_def split: list.splits if_splits option.splits)
         (metis length_Cons less_Suc_eq order.strict_trans2 length_skip_ws less_SucI)+
    with Suc.IH(1) show ?case by fastforce
  next
    case 3
    then obtain r0 k r1 r2 u r3 c r4 where *: "skip_ws s = 34 # r0" "parse_string r0 = Some (k, r1)"
      "skip_ws r1 = 58 # r2" "parse_value n r2 = Some (u, r3)" "skip_ws r3 = c # r4"
      "r = r4 \<or> (\<exists>gs. parse_fields n r4 = Some (gs, r))"
      by (auto simp: cons_fst_def split: list.splits if_splits option.splits)
    have "length r \<le> length r4" using *(6) Suc.IH(3) by fastforce
    with skip_ws_shorter [OF *(1)] parse_string_shorter [OF *(2)] skip_ws_shorter [OF *(3)]
      Suc.IH(1) [OF *(4)] skip_ws_shorter [OF *(5)]
    show ?case by linarith
  }
qed simp_all

lemma fuel_irrelevant:
  "2 * length s < n \<Longrightarrow> 2 * length s < m \<Longrightarrow> parse_value n s = parse_value m s"
  "2 * length s + 1 < n \<Longrightarrow> 2 * length s + 1 < m \<Longrightarrow> parse_elems n s = parse_elems m s"
  "2 * length s + 1 < n \<Longrightarrow> 2 * length s + 1 < m \<Longrightarrow> parse_fields n s = parse_fields m s"
proof (induction n arbitrary: m s)
  case (Suc n)
  { case 1
    then obtain k where m: "m = Suc k" "2 * length s \<le> n" "2 * length s \<le> k" by (cases m) auto
    have "parse_elems n (d # r') = parse_elems k (d # r') \<and> parse_fields n (d # r') = parse_fields k (d # r')"
      if "skip_ws s = c # r" "skip_ws r = d # r'" for c r d r'
      using skip_ws_shorter [OF that(1)] length_skip_ws [of r] that(2) m
      by (intro conjI Suc.IH) auto
    then show ?case by (auto simp: m(1) split: list.split)
  next
    case 2
    then obtain k where m: "m = Suc k" "2 * length s < n" "2 * length s < k" by (cases m) auto
    have v: "parse_value n s = parse_value k s" using m by (intro Suc.IH)
    have "parse_elems n r' = parse_elems k r'" if "parse_value n s = Some (v, r)" "skip_ws r = c # r'" for v r c r'
      using parse_shorter(1) [OF that(1)] skip_ws_shorter [OF that(2)] m by (intro Suc.IH) auto
    then show ?case unfolding m(1) using v by (auto split: list.split option.split)
  next
    case 3
    then obtain k where m: "m = Suc k" "2 * length s < n" "2 * length s < k" by (cases m) auto
    have v: "parse_value n r2 = parse_value k r2"
      if "skip_ws s = q # r0" "parse_string r0 = Some (x, r1)" "skip_ws r1 = e # r2" for q r0 x r1 e r2
      using skip_ws_shorter [OF that(1)] parse_string_shorter [OF that(2)] skip_ws_shorter [OF that(3)] m
      by (intro Suc.IH) auto
    have "parse_fields n r4 = parse_fields k r4"
      if "skip_ws s = q # r0" "parse_string r0 = Some (x, r1)" "skip_ws r1 = e # r2"
        "parse_value n r2 = Some (v, r3)" "skip_ws r3 = c # r4" for q r0 x r1 e r2 v r3 c r4
      using skip_ws_shorter [OF that(1)] parse_string_shorter [OF that(2)] skip_ws_shorter [OF that(3)]
        parse_shorter(1) [OF that(4)] skip_ws_shorter [OF that(5)] m
      by (intro Suc.IH) auto
    with v show ?case unfolding m(1) by (auto split: list.split option.split)
  }
qed simp_all

theorem parse_fuel_enough:
  "2 * length s < n \<Longrightarrow> parse_value n s = parse_value (2 * length s + 2) s"
  by (rule fuel_irrelevant) simp_all

section \<open>Texts of Latin-1 characters\<close>

text \<open>btoa accepts a string of code units below 256; stringify keeps to them where its strings do.\<close>

definition latin1 :: "jstr \<Rightarrow> bool" where
  "latin1 s \<longleftrightarrow> (\<forall>c \<in> set s. unat c < 256)"

lemma latin1_simps [simp]:
  "latin1 []" "latin1 (c # s) \<longleftrightarrow> unat c < 256 \<and> latin1 s" "latin1 (s @ t) \<longleftrightarrow> latin1 s \<and> latin1 t"
  by (auto simp: latin1_def)

lemma latin1_js [simp]: "latin1 (js s)"
  using of_char_less by (auto simp: latin1_def js_def unat_of_char)

lemma latin1_digits: "\<forall>c \<in> set s. is_digit c \<Longrightarrow> latin1 s"
  by (fastforce simp: latin1_def is_digit_def word_le_nat_alt)

lemma latin1_js_int [simp]: "latin1 (js_int i)"
  using latin1_digits [OF nat_digits_are_digits] by (simp add: js_int_def)

lemma latin1_hex_char [simp]: "n < 16 \<Longrightarrow> unat (hex_char n) < 256"
  by (simp add: unat_hex_char)

lemma latin1_escape_char: "unat c < 256 \<Longrightarrow> latin1 (escape_char c)"
  by (simp add: escape_char_def u_escape_def Let_def)

lemma latin1_escape: "latin1 s \<Longrightarrow> latin1 (escape s)"
  by (induction s rule: escape.induct) (simp_all add: latin1_escape_char)

lemma latin1_quote [simp]: "latin1 s \<Longrightarrow> latin1 (quote s)"
  by (simp add: quote_def latin1_escape)

lemma latin1_join: "unat c < 256 \<Longrightarrow> \<forall>s \<in> set ss. latin1 s \<Longrightarrow> latin1 (join c ss)"
  by (induction c ss rule: join.induct) simp_all

fun json_latin1 :: "json \<Rightarrow> bool" where
  "json_latin1 (JNum t) = latin1 t"
| "json_latin1 (JStr s) = latin1 s"
| "json_latin1 (JArr vs) = (\<forall>v \<in> set vs. json_latin1 v)"
| "json_latin1 (JObj fs) = (\<forall>f \<in> set fs. latin1 (fst f) \<and> json_latin1 (snd f))"
| "json_latin1 _ = True"

lemma latin1_json_stringify: "json_latin1 v \<Longrightarrow> latin1 (json_stringify v)"
  by (induction v rule: json_stringify.induct) (fastforce intro!: latin1_join latin1_quote)+

lemma latin1_bufToBase64 [simp]: "latin1 (bufToBase64 buf)"
proof -
  have less: "\<forall>n \<in> set (map unat (map ucast buf :: jstr)). n < 256"
    using unat_u8_less by (auto simp: unat_ucast_u16)
  have code: "b64_code n < 256" if "n < 64" for n using that by (auto simp: b64_code_def)
  have "unat (b64_char n) < 256" if "n < 64" for n
    using code [OF that] unat_of_nat_u16 [of "b64_code n"] by (simp add: b64_char_def)
  then have "latin1 (map b64_char (b64_sextets (map unat (map ucast buf :: jstr))))"
    using b64_sextets_less [OF less] by (auto simp: latin1_def simp del: map_map)
  moreover have "bufToBase64 buf = map b64_char (b64_sextets (map unat (map ucast buf :: jstr))) @
      replicate ((3 - length buf mod 3) mod 3) 61"
    using btoa_bytes [of buf] unfolding btoa_def by (simp split: if_splits del: map_map)
  moreover have "latin1 (replicate n 61)" for n by (simp add: latin1_def)
  ultimately show ?thesis by (simp only: latin1_simps simp_thms)
qed

text \<open>A value written with btoa(JSON.stringify(v)) is read back with JSON.parse(atob(t)).\<close>

lemma btoa_json:
  assumes "json_wf v" and "json_latin1 v"
  obtains t where "btoa (json_stringify v) = Inr t" "bindR (atob t) json_parse = Inr v"
proof -
  have l: "\<forall>c \<in> set (json_stringify v). unat c < 256"
    using latin1_json_stringify [OF assms(2)] by (simp add: latin1_def)
  then obtain t where t: "btoa (json_stringify v) = Inr t"
    by (simp add: btoa_def)
  with atob_btoa [OF l] show thesis
    by (intro that [of t]) (simp_all add: json_roundtrip [OF assms(1)])
qed

end
