(* ===== verification/EncryptionTypes.thy ===== *)
theory EncryptionTypes
  imports Json
begin

text \<open>
  The data of packages/core/src/encryption/types.ts, and the key pair and cipher result of
  crypto.ts. A field that may be null or absent is an option. \<open>Record<string, string>\<close> is a partial
  map. Numbers that count or name keys are integers.
\<close>

type_synonym KeyBytes = jstr

record IdentityKeyPair =
  ik_publicKey :: KeyBytes
  ik_privateKey :: KeyBytes

record PreKey =
  pk_id :: int
  pk_publicKey :: KeyBytes
  pk_privateKey :: KeyBytes

record SignedPreKey = PreKey +
  spk_signature :: KeyBytes

text \<open>The two parts of a bundle: \<open>Omit<SignedPreKey, "privateKey">\<close> and \<open>Omit<PreKey, "privateKey">\<close>.\<close>

record PublicSignedPreKey =
  bspk_id :: int
  bspk_publicKey :: KeyBytes
  bspk_signature :: KeyBytes

record PublicPreKey =
  bopk_id :: int
  bopk_publicKey :: KeyBytes

record PreKeyBundle =
  b_registrationId :: int
  b_deviceId :: int
  b_identityKey :: KeyBytes
  b_signedPreKey :: PublicSignedPreKey
  b_oneTimePreKey :: "PublicPreKey option"

record EncryptedEnvelope =
  env_type :: int
  env_ciphertext :: KeyBytes
  env_registrationId :: int

record PendingPreKeyMsg =
  pend_identityKey :: jstr
  pend_ephemeralKey :: jstr
  pend_spkId :: int
  pend_opkId :: "int option"

record RatchetSession =
  rootKey :: jstr
  sendChainKey :: "jstr option"
  recvChainKey :: "jstr option"
  sendCount :: int
  recvCount :: int
  prevSendCount :: int
  ourRatchetPublic :: jstr
  ourRatchetPrivate :: jstr
  theirRatchetPublic :: "jstr option"
  skipped :: "jstr \<rightharpoonup> jstr"
  isInitiator :: bool
  pendingPreKeyMsg :: "PendingPreKeyMsg option"

record DHKeyPair =
  publicKeyRaw :: jstr
  privateKeyJwk :: jstr

record AesGcmResult =
  gcm_ciphertext :: jstr
  gcm_iv :: jstr

text \<open>A nullable string is falsy when it is null or empty.\<close>

definition truthy :: "jstr option \<Rightarrow> bool" where
  "truthy s = (case s of None \<Rightarrow> False | Some t \<Rightarrow> t \<noteq> [])"

lemma truthy_Some [simp]: "truthy (Some t) \<longleftrightarrow> t \<noteq> []" "\<not> truthy None"
  by (simp_all add: truthy_def)

end
