(* ===== verification/KeyStore.thy ===== *)
theory KeyStore
  imports EncryptionTypes
begin

text \<open>
  packages/core/src/encryption/keystore.ts: the KeyStore interface as a record of effects, its two
  implementations (IndexedDB and memory), and the contract both keep, as a locale over the abstract
  contents of a key store. The session manager is written against the record and its lemmas are
  proved in the locale.

  One field of the record is not a method: \<open>sessionMutated\<close> is what happens to the store when the
  caller mutates the session object it last loaded or stored. IndexedDB hands out structured
  clones, so nothing happens; the in-memory store hands out the object it holds, so the change is
  visible at once, whether or not \<open>storeSession\<close> follows.
\<close>

section \<open>The interface\<close>

record 'st key_store =
  getIdentityKeyPair :: "('st, error, IdentityKeyPair option) eff"
  saveIdentityKeyPair :: "IdentityKeyPair \<Rightarrow> ('st, error, unit) eff"
  getLocalRegistrationId :: "('st, error, int option) eff"
  saveLocalRegistrationId :: "int \<Rightarrow> ('st, error, unit) eff"
  loadPreKey :: "int \<Rightarrow> ('st, error, PreKey option) eff"
  storePreKey :: "PreKey \<Rightarrow> ('st, error, unit) eff"
  removePreKey :: "int \<Rightarrow> ('st, error, unit) eff"
  loadSignedPreKey :: "int \<Rightarrow> ('st, error, SignedPreKey option) eff"
  storeSignedPreKey :: "SignedPreKey \<Rightarrow> ('st, error, unit) eff"
  removeSignedPreKey :: "int \<Rightarrow> ('st, error, unit) eff"
  loadSession :: "jstr \<Rightarrow> ('st, error, RatchetSession option) eff"
  storeSession :: "jstr \<Rightarrow> RatchetSession \<Rightarrow> ('st, error, unit) eff"
  deleteSession :: "jstr \<Rightarrow> ('st, error, unit) eff"
  sessionMutated :: "jstr \<Rightarrow> RatchetSession \<Rightarrow> 'st \<Rightarrow> 'st"

section \<open>IndexedDB\<close>

text \<open>
  The database winkd_keys has five object stores. \<open>idb\<close> is the state of the page: the database on
  disk (\<open>None\<close> before its first open), whether the module variable \<open>_db\<close> is set, and the error the
  browser reports for an open or for a request, if it reports one.
\<close>

record idb_stores =
  identity_keys :: "string \<rightharpoonup> IdentityKeyPair"
  registration_id :: "string \<rightharpoonup> int"
  pre_keys :: "int \<rightharpoonup> PreKey"
  signed_pre_keys :: "int \<rightharpoonup> SignedPreKey"
  sessions :: "jstr \<rightharpoonup> RatchetSession"

record idb =
  disk :: "idb_stores option"
  db_cached :: bool
  open_error :: "string option"
  request_error :: "string option"

definition empty_stores :: idb_stores where
  "empty_stores = \<lparr>identity_keys = Map.empty, registration_id = Map.empty, pre_keys = Map.empty,
     signed_pre_keys = Map.empty, sessions = Map.empty\<rparr>"

text \<open>The upgrade handler creates the stores that are missing; an existing database has them all.\<close>

definition stores_of :: "idb \<Rightarrow> idb_stores" where
  "stores_of d = (case disk d of None \<Rightarrow> empty_stores | Some x \<Rightarrow> x)"

definition openDB :: "(idb, error, unit) eff" where
  "openDB = (\<lambda>d. if db_cached d then (Inr (), d)
     else case open_error d of
       Some e \<Rightarrow> (Inl (DOMExc e), d)
     | None \<Rightarrow> (Inr (), d\<lparr>disk := Some (stores_of d), db_cached := True\<rparr>))"

definition idbRequest :: "(idb_stores \<Rightarrow> 'a \<times> idb_stores) \<Rightarrow> (idb, error, 'a) eff" where
  "idbRequest req = bindE openDB (\<lambda>_ d. case request_error d of
     Some e \<Rightarrow> (Inl (DOMExc e), d)
   | None \<Rightarrow> (let (res, stores) = req (stores_of d) in (Inr res, d\<lparr>disk := Some stores\<rparr>)))"

definition idbGet :: "(idb_stores \<Rightarrow> 'k \<rightharpoonup> 'v) \<Rightarrow> 'k \<Rightarrow> (idb, error, 'v option) eff" where
  "idbGet store key = idbRequest (\<lambda>x. (store x key, x))"

definition idbPut :: "((('k \<rightharpoonup> 'v) \<Rightarrow> ('k \<rightharpoonup> 'v)) \<Rightarrow> idb_stores \<Rightarrow> idb_stores) \<Rightarrow> 'k \<Rightarrow> 'v \<Rightarrow> (idb, error, unit) eff" where
  "idbPut upd key v = idbRequest (\<lambda>x. ((), upd (\<lambda>m. m(key \<mapsto> v)) x))"

definition idbDelete :: "((('k \<rightharpoonup> 'v) \<Rightarrow> ('k \<rightharpoonup> 'v)) \<Rightarrow> idb_stores \<Rightarrow> idb_stores) \<Rightarrow> 'k \<Rightarrow> (idb, error, unit) eff" where
  "idbDelete upd key = idbRequest (\<lambda>x. ((), upd (\<lambda>m. m(key := None)) x))"

definition IndexedDbKeyStore :: "idb key_store" where
  "IndexedDbKeyStore = \<lparr>
     getIdentityKeyPair = idbGet identity_keys ''ik'',
     saveIdentityKeyPair = (\<lambda>pair. idbPut identity_keys_update ''ik'' pair),
     getLocalRegistrationId = idbGet registration_id ''rid'',
     saveLocalRegistrationId = (\<lambda>i. idbPut registration_id_update ''rid'' i),
     loadPreKey = idbGet pre_keys,
     storePreKey = (\<lambda>key. idbPut pre_keys_update (pk_id key) key),
     removePreKey = idbDelete pre_keys_update,
     loadSignedPreKey = idbGet signed_pre_keys,
     storeSignedPreKey = (\<lambda>key. idbPut signed_pre_keys_update (pk_id key) key),
     removeSignedPreKey = idbDelete signed_pre_keys_update,
     loadSession = idbGet sessions,
     storeSession = idbPut sessions_update,
     deleteSession = idbDelete sessions_update,
     sessionMutated = (\<lambda>_ _ d. d)\<rparr>"

section \<open>Memory\<close>

record memory_store =
  m_identity :: "IdentityKeyPair option"
  m_regId :: "int option"
  m_preKeys :: "int \<rightharpoonup> PreKey"
  m_signedPreKeys :: "int \<rightharpoonup> SignedPreKey"
  m_sessions :: "jstr \<rightharpoonup> RatchetSession"

definition readM :: "('s \<Rightarrow> 'a) \<Rightarrow> ('s, 'e, 'a) eff" where
  "readM f = (\<lambda>s. (Inr (f s), s))"

definition writeM :: "('s \<Rightarrow> 's) \<Rightarrow> ('s, 'e, unit) eff" where
  "writeM f = (\<lambda>s. (Inr (), f s))"

definition InMemoryKeyStore :: "memory_store key_store" where
  "InMemoryKeyStore = \<lparr>
     getIdentityKeyPair = readM m_identity,
     saveIdentityKeyPair = (\<lambda>pair. writeM (m_identity_update (\<lambda>_. Some pair))),
     getLocalRegistrationId = readM m_regId,
     saveLocalRegistrationId = (\<lambda>i. writeM (m_regId_update (\<lambda>_. Some i))),
     loadPreKey = (\<lambda>i. readM (\<lambda>s. m_preKeys s i)),
     storePreKey = (\<lambda>key. writeM (m_preKeys_update (\<lambda>m. m(pk_id key \<mapsto> key)))),
     removePreKey = (\<lambda>i. writeM (m_preKeys_update (\<lambda>m. m(i := None)))),
     loadSignedPreKey = (\<lambda>i. readM (\<lambda>s. m_signedPreKeys s i)),
     storeSignedPreKey = (\<lambda>key. writeM (m_signedPreKeys_update (\<lambda>m. m(pk_id key \<mapsto> key)))),
     removeSignedPreKey = (\<lambda>i. writeM (m_signedPreKeys_update (\<lambda>m. m(i := None)))),
     loadSession = (\<lambda>p. readM (\<lambda>s. m_sessions s p)),
     storeSession = (\<lambda>p x. writeM (m_sessions_update (\<lambda>m. m(p \<mapsto> x)))),
     deleteSession = (\<lambda>p. writeM (m_sessions_update (\<lambda>m. m(p := None)))),
     sessionMutated = (\<lambda>p x. m_sessions_update (\<lambda>m. m(p \<mapsto> x)))\<rparr>"

section \<open>The contract\<close>

text \<open>
  What a key store holds, and a key store that is nothing but its contents. \<open>spec_store shared\<close> is the
  reference: with \<open>shared\<close> a mutation of a session object reaches the store, without it only
  \<open>storeSession\<close> does.
\<close>

record key_contents =
  kc_identity :: "IdentityKeyPair option"
  kc_regId :: "int option"
  kc_preKeys :: "int \<rightharpoonup> PreKey"
  kc_signedPreKeys :: "int \<rightharpoonup> SignedPreKey"
  kc_sessions :: "jstr \<rightharpoonup> RatchetSession"

definition spec_store :: "bool \<Rightarrow> key_contents key_store" where
  "spec_store shared = \<lparr>
     getIdentityKeyPair = readM kc_identity,
     saveIdentityKeyPair = (\<lambda>pair. writeM (kc_identity_update (\<lambda>_. Some pair))),
     getLocalRegistrationId = readM kc_regId,
     saveLocalRegistrationId = (\<lambda>i. writeM (kc_regId_update (\<lambda>_. Some i))),
     loadPreKey = (\<lambda>i. readM (\<lambda>c. kc_preKeys c i)),
     storePreKey = (\<lambda>key. writeM (kc_preKeys_update (\<lambda>m. m(pk_id key \<mapsto> key)))),
     removePreKey = (\<lambda>i. writeM (kc_preKeys_update (\<lambda>m. m(i := None)))),
     loadSignedPreKey = (\<lambda>i. readM (\<lambda>c. kc_signedPreKeys c i)),
     storeSignedPreKey = (\<lambda>key. writeM (kc_signedPreKeys_update (\<lambda>m. m(pk_id key \<mapsto> key)))),
     removeSignedPreKey = (\<lambda>i. writeM (kc_signedPreKeys_update (\<lambda>m. m(i := None)))),
     loadSession = (\<lambda>p. readM (\<lambda>c. kc_sessions c p)),
     storeSession = (\<lambda>p x. writeM (kc_sessions_update (\<lambda>m. m(p \<mapsto> x)))),
     deleteSession = (\<lambda>p. writeM (kc_sessions_update (\<lambda>m. m(p := None)))),
     sessionMutated = (\<lambda>p x. if shared then kc_sessions_update (\<lambda>m. m(p \<mapsto> x)) else (\<lambda>c. c))\<rparr>"

text \<open>
  \<open>m\<close> refines \<open>m'\<close> under the abstraction \<open>view\<close>: from a state where the store works (\<open>ok\<close>) both
  return the same result and leave states that correspond, and the store still works.
\<close>

definition refinesE :: "('s \<Rightarrow> bool) \<Rightarrow> ('s \<Rightarrow> 'c) \<Rightarrow> ('s, 'e, 'a) eff \<Rightarrow> ('c, 'e, 'a) eff \<Rightarrow> bool" where
  "refinesE ok view m m' \<longleftrightarrow> (\<forall>s. ok s \<longrightarrow>
     fst (m s) = fst (m' (view s)) \<and> ok (snd (m s)) \<and> view (snd (m s)) = snd (m' (view s)))"

lemma refinesE_D:
  assumes "refinesE ok view m m'" and "ok s" and "m' (view s) = (res, c)"
  obtains t where "m s = (res, t)" "ok t" "view t = c"
  using assms by (cases "m s") (auto simp: refinesE_def)

lemma refinesE_pure [intro]:
  "refinesE ok view (retE x) (retE x)"
  "refinesE ok view (throwE e) (throwE e)"
  "refinesE ok view (liftR r) (liftR r)"
  by (simp_all add: refinesE_def)

lemma refinesE_bindE [intro]:
  assumes "refinesE ok view m m'" and "\<And>x. refinesE ok view (f x) (f' x)"
  shows "refinesE ok view (bindE m f) (bindE m' f')"
  unfolding refinesE_def
proof (intro allI impI)
  fix s assume "ok s"
  obtain r c where m': "m' (view s) = (r, c)" by fastforce
  obtain t where "m s = (r, t)" "ok t" "view t = c"
    using refinesE_D [OF assms(1) \<open>ok s\<close> m'] by blast
  with m' assms(2) show "fst (bindE m f s) = fst (bindE m' f' (view s)) \<and> ok (snd (bindE m f s)) \<and>
      view (snd (bindE m f s)) = snd (bindE m' f' (view s))"
    by (cases r) (auto simp: bindE_def refinesE_def)
qed

locale key_store_contract =
  fixes ks :: "'st key_store" and ok :: "'st \<Rightarrow> bool" and view :: "'st \<Rightarrow> key_contents" and shared :: bool
  assumes getIdentityKeyPair: "refinesE ok view (getIdentityKeyPair ks) (getIdentityKeyPair (spec_store shared))"
    and saveIdentityKeyPair: "refinesE ok view (saveIdentityKeyPair ks k) (saveIdentityKeyPair (spec_store shared) k)"
    and getLocalRegistrationId: "refinesE ok view (getLocalRegistrationId ks) (getLocalRegistrationId (spec_store shared))"
    and saveLocalRegistrationId: "refinesE ok view (saveLocalRegistrationId ks i) (saveLocalRegistrationId (spec_store shared) i)"
    and loadPreKey: "refinesE ok view (loadPreKey ks i) (loadPreKey (spec_store shared) i)"
    and storePreKey: "refinesE ok view (storePreKey ks pk) (storePreKey (spec_store shared) pk)"
    and removePreKey: "refinesE ok view (removePreKey ks i) (removePreKey (spec_store shared) i)"
    and loadSignedPreKey: "refinesE ok view (loadSignedPreKey ks i) (loadSignedPreKey (spec_store shared) i)"
    and storeSignedPreKey: "refinesE ok view (storeSignedPreKey ks spk) (storeSignedPreKey (spec_store shared) spk)"
    and removeSignedPreKey: "refinesE ok view (removeSignedPreKey ks i) (removeSignedPreKey (spec_store shared) i)"
    and loadSession: "refinesE ok view (loadSession ks p) (loadSession (spec_store shared) p)"
    and storeSession: "refinesE ok view (storeSession ks p x) (storeSession (spec_store shared) p x)"
    and deleteSession: "refinesE ok view (deleteSession ks p) (deleteSession (spec_store shared) p)"
    and sessionMutated: "ok st \<Longrightarrow> ok (sessionMutated ks p x st) \<and>
       view (sessionMutated ks p x st) = sessionMutated (spec_store shared) p x (view st)"
begin

lemmas refines = getIdentityKeyPair saveIdentityKeyPair getLocalRegistrationId saveLocalRegistrationId
  loadPreKey storePreKey removePreKey loadSignedPreKey storeSignedPreKey removeSignedPreKey
  loadSession storeSession deleteSession

text \<open>A stored session is the one the next load returns, for its peer and for no other.\<close>

lemma load_after_store:
  assumes "ok st"
  shows "fst (bindE (storeSession ks p x) (\<lambda>_. loadSession ks q) st) =
    Inr (if q = p then Some x else kc_sessions (view st) q)"
proof -
  have "refinesE ok view (bindE (storeSession ks p x) (\<lambda>_. loadSession ks q))
      (bindE (storeSession (spec_store shared) p x) (\<lambda>_. loadSession (spec_store shared) q))"
    using storeSession loadSession by blast
  with assms show ?thesis
    by (simp add: refinesE_def spec_store_def bindE_def readM_def writeM_def)
qed

end

subsection \<open>Both stores keep it\<close>

definition idb_ok :: "idb \<Rightarrow> bool" where
  "idb_ok d \<longleftrightarrow> request_error d = None \<and> (db_cached d \<or> open_error d = None)"

definition idb_view :: "idb \<Rightarrow> key_contents" where
  "idb_view d = (let x = stores_of d in
     \<lparr>kc_identity = identity_keys x ''ik'', kc_regId = registration_id x ''rid'', kc_preKeys = pre_keys x,
      kc_signedPreKeys = signed_pre_keys x, kc_sessions = sessions x\<rparr>)"

definition memory_view :: "memory_store \<Rightarrow> key_contents" where
  "memory_view s = \<lparr>kc_identity = m_identity s, kc_regId = m_regId s, kc_preKeys = m_preKeys s,
      kc_signedPreKeys = m_signedPreKeys s, kc_sessions = m_sessions s\<rparr>"

lemma idbRequest_ok:
  assumes "idb_ok d"
  obtains d' where "idbRequest req d = (Inr (fst (req (stores_of d))), d')" "idb_ok d'"
    "stores_of d' = snd (req (stores_of d))"
proof (cases "db_cached d")
  case True
  with assms show thesis
    by (intro that [of "d\<lparr>disk := Some (snd (req (stores_of d)))\<rparr>"])
      (auto simp: idbRequest_def openDB_def bindE_def idb_ok_def stores_of_def split: prod.split)
next
  case False
  with assms show thesis
    by (intro that [of "d\<lparr>disk := Some (snd (req (stores_of d))), db_cached := True\<rparr>"])
      (auto simp: idbRequest_def openDB_def bindE_def idb_ok_def stores_of_def split: prod.split)
qed

lemma refinesE_idb:
  assumes "\<And>d d'. stores_of d' = snd (req (stores_of d)) \<Longrightarrow>
       fst (m' (idb_view d)) = Inr (fst (req (stores_of d))) \<and> idb_view d' = snd (m' (idb_view d))"
  shows "refinesE idb_ok idb_view (idbRequest req) m'"
  unfolding refinesE_def
proof (intro allI impI)
  fix d assume "idb_ok d"
  obtain d' where "idbRequest req d = (Inr (fst (req (stores_of d))), d')" "idb_ok d'"
    "stores_of d' = snd (req (stores_of d))"
    by (rule idbRequest_ok [OF \<open>idb_ok d\<close>, of req])
  with assms [of d' d] show "fst (idbRequest req d) = fst (m' (idb_view d)) \<and> idb_ok (snd (idbRequest req d)) \<and>
      idb_view (snd (idbRequest req d)) = snd (m' (idb_view d))"
    by simp
qed

lemmas store_defs = IndexedDbKeyStore_def InMemoryKeyStore_def spec_store_def readM_def writeM_def

interpretation indexed_db: key_store_contract IndexedDbKeyStore idb_ok idb_view False
  by unfold_locales
    (auto simp: store_defs idbGet_def idbPut_def idbDelete_def idb_view_def Let_def
      intro!: refinesE_idb)

interpretation in_memory: key_store_contract InMemoryKeyStore "\<lambda>_. True" memory_view True
  by unfold_locales (auto simp: store_defs refinesE_def memory_view_def)

interpretation spec: key_store_contract "spec_store shared" "\<lambda>_. True" "\<lambda>c. c" shared for shared
  by unfold_locales (auto simp: refinesE_def)

end
