(* ===== verification/Crypto.thy ===== *)
theory Crypto
  imports EncryptionTypes
begin

text \<open>
  packages/core/src/encryption/crypto.ts over SubtleCrypto. SubtleCrypto itself is not code of the
  repository: it is the record \<open>webcrypto\<close>, a parameter of every definition, with one field per call
  the code makes, a type \<open>'k\<close> of key handles and a state \<open>'r\<close> of its random source. What the
  theorems need of it are the named predicates at the end of the theory.

  A pure helper that may throw returns a sum; one that draws randomness is an effect on \<open>'r\<close>.
\<close>

section \<open>SubtleCrypto\<close>

datatype alg = ECDH_P256 | ECDSA_P256 | HKDF | HMAC_SHA256 | AES_GCM

record ('r, 'k) webcrypto =
  generateKey :: "'r \<Rightarrow> ('k \<times> 'k) \<times> 'r"  \<comment> \<open>public and private key\<close>
  exportRaw :: "'k \<Rightarrow> bytes"
  exportJwk :: "'k \<Rightarrow> json"
  importRaw :: "alg \<Rightarrow> bytes \<Rightarrow> error + 'k"
  importJwk :: "alg \<Rightarrow> json \<Rightarrow> error + 'k"
  deriveECDH :: "'k \<Rightarrow> 'k \<Rightarrow> nat \<Rightarrow> error + bytes"  \<comment> \<open>public, private, bits\<close>
  deriveHKDF :: "bytes \<Rightarrow> bytes \<Rightarrow> 'k \<Rightarrow> nat \<Rightarrow> error + bytes"  \<comment> \<open>salt, info, key, bits\<close>
  signHMAC :: "'k \<Rightarrow> bytes \<Rightarrow> bytes"
  signECDSA :: "'k \<Rightarrow> bytes \<Rightarrow> 'r \<Rightarrow> bytes \<times> 'r"
  verifyECDSA :: "'k \<Rightarrow> bytes \<Rightarrow> bytes \<Rightarrow> bool"  \<comment> \<open>key, signature, data\<close>
  encryptGCM :: "bytes \<Rightarrow> 'k \<Rightarrow> bytes \<Rightarrow> error + bytes"  \<comment> \<open>iv, key, plaintext\<close>
  decryptGCM :: "bytes \<Rightarrow> 'k \<Rightarrow> bytes \<Rightarrow> error + bytes"
  digest512 :: "bytes \<Rightarrow> bytes"
  randomBytes :: "nat \<Rightarrow> 'r \<Rightarrow> bytes \<times> 'r"
  randomU16 :: "'r \<Rightarrow> u16 \<times> 'r"

section \<open>Key pairs and imports\<close>

text \<open>\<open>const { key_ops: _, ...jwkClean } = privJwk\<close>\<close>

definition strip_key_ops :: "json \<Rightarrow> json" where
  "strip_key_ops jwk = (case jwk of JObj fs \<Rightarrow> JObj (filter (\<lambda>(k, _). k \<noteq> js ''key_ops'') fs) | v \<Rightarrow> v)"

definition generateDHKeyPair :: "('r, 'k) webcrypto \<Rightarrow> ('r, error, DHKeyPair) eff" where
  "generateDHKeyPair W = (\<lambda>r.
     let ((pub, priv), r') = generateKey W r;
         pubRaw = exportRaw W pub;
         privJwk = exportJwk W priv
     in (Inr \<lparr>publicKeyRaw = bufToBase64 pubRaw, privateKeyJwk = json_stringify (strip_key_ops privJwk)\<rparr>, r'))"

definition importDHPublic :: "('r, 'k) webcrypto \<Rightarrow> jstr \<Rightarrow> error + 'k" where
  "importDHPublic W b64 = bindR (base64ToBuf b64) (importRaw W ECDH_P256)"

definition importDHPrivate :: "('r, 'k) webcrypto \<Rightarrow> jstr \<Rightarrow> error + 'k" where
  "importDHPrivate W jwkStr = bindR (json_parse jwkStr) (importJwk W ECDH_P256)"

definition importVerifyPublic :: "('r, 'k) webcrypto \<Rightarrow> jstr \<Rightarrow> error + 'k" where
  "importVerifyPublic W b64 = bindR (base64ToBuf b64) (importRaw W ECDSA_P256)"

definition importSigningPrivate :: "('r, 'k) webcrypto \<Rightarrow> jstr \<Rightarrow> error + 'k" where
  "importSigningPrivate W jwkStr = bindR (json_parse jwkStr) (importJwk W ECDSA_P256)"

definition dh :: "('r, 'k) webcrypto \<Rightarrow> jstr \<Rightarrow> jstr \<Rightarrow> error + bytes" where
  "dh W privJwk pubB64 =
     bindR (importDHPrivate W privJwk) (\<lambda>priv.
     bindR (importDHPublic W pubB64) (\<lambda>pub.
     deriveECDH W pub priv 256))"

section \<open>Key derivation\<close>

definition hkdf :: "('r, 'k) webcrypto \<Rightarrow> bytes \<Rightarrow> bytes \<Rightarrow> jstr \<Rightarrow> nat \<Rightarrow> error + bytes" where
  "hkdf W ikm salt info outBytes =
     bindR (importRaw W HKDF ikm) (\<lambda>baseKey. deriveHKDF W salt (text_encode info) baseKey (outBytes * 8))"

definition hmacSha256 :: "('r, 'k) webcrypto \<Rightarrow> bytes \<Rightarrow> bytes \<Rightarrow> error + bytes" where
  "hmacSha256 W keyBytes data = bindR (importRaw W HMAC_SHA256 keyBytes) (\<lambda>key. Inr (signHMAC W key data))"

text \<open>\<open>kdfRootKey\<close> returns the new root key and a chain key, \<open>kdfChainKey\<close> a message key and the next chain key.\<close>

definition kdfRootKey :: "('r, 'k) webcrypto \<Rightarrow> jstr \<Rightarrow> bytes \<Rightarrow> error + (jstr \<times> jstr)" where
  "kdfRootKey W rootKeyHex dhOutput =
     bindR (hkdf W dhOutput (hexToBuf rootKeyHex) (js ''WinkdRatchetRK v1'') 64) (\<lambda>out.
     Inr (bufToHex (take 32 out), bufToHex (take 32 (drop 32 out))))"

definition kdfChainKey :: "('r, 'k) webcrypto \<Rightarrow> jstr \<Rightarrow> error + (bytes \<times> jstr)" where
  "kdfChainKey W chainKeyHex =
     (let ck = hexToBuf chainKeyHex in
      bindR (hmacSha256 W ck [1]) (\<lambda>messageKey.
      bindR (hmacSha256 W ck [2]) (\<lambda>nextCK.
      Inr (messageKey, bufToHex nextCK))))"

section \<open>Symmetric encryption\<close>

definition aesGcmEncrypt :: "('r, 'k) webcrypto \<Rightarrow> bytes \<Rightarrow> bytes \<Rightarrow> ('r, error, AesGcmResult) eff" where
  "aesGcmEncrypt W keyBytes plaintext =
     bindE (liftR (importRaw W AES_GCM (take 32 keyBytes))) (\<lambda>key r.
       let (iv, r') = randomBytes W 12 r in
       bindE (liftR (encryptGCM W iv key plaintext)) (\<lambda>ct.
         retE \<lparr>gcm_ciphertext = bufToBase64 ct, gcm_iv = bufToBase64 iv\<rparr>) r')"

definition aesGcmDecrypt :: "('r, 'k) webcrypto \<Rightarrow> bytes \<Rightarrow> jstr \<Rightarrow> jstr \<Rightarrow> error + bytes" where
  "aesGcmDecrypt W keyBytes ciphertext iv =
     bindR (importRaw W AES_GCM (take 32 keyBytes)) (\<lambda>key.
     bindR (base64ToBuf iv) (\<lambda>ivBytes.
     bindR (base64ToBuf ciphertext) (\<lambda>ct.
     decryptGCM W ivBytes key ct)))"

section \<open>X3DH\<close>

text \<open>The domain separator F and the HKDF call both sides share at the end.\<close>

definition x3dh_sk :: "('r, 'k) webcrypto \<Rightarrow> bytes \<Rightarrow> error + bytes" where
  "x3dh_sk W dhInput =
     hkdf W (concatBufs [replicate 32 0xFF, dhInput]) (replicate 32 0) (js ''Winkd X3DH v1'') 32"

definition x3dh :: "('r, 'k) webcrypto \<Rightarrow> jstr \<Rightarrow> jstr \<Rightarrow> jstr \<Rightarrow> jstr \<Rightarrow> jstr option \<Rightarrow> error + bytes" where
  "x3dh W myIdentityPrivJwk myEphemeralPrivJwk theirIdentityPub theirSignedPreKeyPub theirOneTimePreKeyPub =
     bindR (dh W myIdentityPrivJwk theirSignedPreKeyPub) (\<lambda>DH1.
     bindR (dh W myEphemeralPrivJwk theirIdentityPub) (\<lambda>DH2.
     bindR (dh W myEphemeralPrivJwk theirSignedPreKeyPub) (\<lambda>DH3.
     let dhInput = concatBufs [DH1, DH2, DH3] in
     case theirOneTimePreKeyPub of
       None \<Rightarrow> x3dh_sk W dhInput
     | Some opk \<Rightarrow> bindR (dh W myEphemeralPrivJwk opk) (\<lambda>DH4. x3dh_sk W (concatBufs [dhInput, DH4])))))"

definition x3dhRespond :: "('r, 'k) webcrypto \<Rightarrow> jstr \<Rightarrow> jstr \<Rightarrow> jstr option \<Rightarrow> jstr \<Rightarrow> jstr \<Rightarrow> error + bytes" where
  "x3dhRespond W myIdentityPrivJwk mySignedPreKeyPrivJwk myOneTimePreKeyPrivJwk theirIdentityPub theirEphemeralPub =
     bindR (dh W mySignedPreKeyPrivJwk theirIdentityPub) (\<lambda>DH1.
     bindR (dh W myIdentityPrivJwk theirEphemeralPub) (\<lambda>DH2.
     bindR (dh W mySignedPreKeyPrivJwk theirEphemeralPub) (\<lambda>DH3.
     let dhInput = concatBufs [DH1, DH2, DH3] in
     case myOneTimePreKeyPrivJwk of
       None \<Rightarrow> x3dh_sk W dhInput
     | Some opk \<Rightarrow> bindR (dh W opk theirEphemeralPub) (\<lambda>DH4. x3dh_sk W (concatBufs [dhInput, DH4])))))"

section \<open>Signing and key generation\<close>

definition signPreKey :: "('r, 'k) webcrypto \<Rightarrow> jstr \<Rightarrow> jstr \<Rightarrow> ('r, error, jstr) eff" where
  "signPreKey W identityPrivateJwk preKeyPublicB64 =
     bindE (liftR (importSigningPrivate W identityPrivateJwk)) (\<lambda>signingKey.
     bindE (liftR (base64ToBuf preKeyPublicB64)) (\<lambda>data r.
       let (sig, r') = signECDSA W signingKey data r in (Inr (bufToBase64 sig), r')))"

definition verifyPreKey :: "('r, 'k) webcrypto \<Rightarrow> jstr \<Rightarrow> jstr \<Rightarrow> jstr \<Rightarrow> bool" where
  "verifyPreKey W identityPublicB64 preKeyPublicB64 signatureB64 =
     (case bindR (importVerifyPublic W identityPublicB64) (\<lambda>verifyKey.
           bindR (base64ToBuf signatureB64) (\<lambda>sig.
           bindR (base64ToBuf preKeyPublicB64) (\<lambda>data.
           Inr (verifyECDSA W verifyKey sig data))))
      of Inr b \<Rightarrow> b | Inl _ \<Rightarrow> False)"

definition generateIdentityKeyPair :: "('r, 'k) webcrypto \<Rightarrow> ('r, error, IdentityKeyPair) eff" where
  "generateIdentityKeyPair W = bindE (generateDHKeyPair W) (\<lambda>kp.
     retE \<lparr>ik_publicKey = publicKeyRaw kp, ik_privateKey = privateKeyJwk kp\<rparr>)"

definition generatePreKeyPair :: "('r, 'k) webcrypto \<Rightarrow> int \<Rightarrow> ('r, error, PreKey) eff" where
  "generatePreKeyPair W i = bindE (generateDHKeyPair W) (\<lambda>kp.
     retE \<lparr>pk_id = i, pk_publicKey = publicKeyRaw kp, pk_privateKey = privateKeyJwk kp\<rparr>)"

definition generateSignedPreKeyPair :: "('r, 'k) webcrypto \<Rightarrow> int \<Rightarrow> jstr \<Rightarrow> ('r, error, SignedPreKey) eff" where
  "generateSignedPreKeyPair W i identityPrivateJwk =
     bindE (generateDHKeyPair W) (\<lambda>kp.
     bindE (signPreKey W identityPrivateJwk (publicKeyRaw kp)) (\<lambda>signature.
     retE \<lparr>pk_id = i, pk_publicKey = publicKeyRaw kp, pk_privateKey = privateKeyJwk kp,
           spk_signature = signature\<rparr>))"

definition newRegistrationId :: "('r, 'k) webcrypto \<Rightarrow> ('r, error, int) eff" where
  "newRegistrationId W = (\<lambda>r. let (buf, r') = randomU16 W r in (Inr (uint (buf AND 0x3FFF) + 1), r'))"

section \<open>Safety numbers\<close>

text \<open>String comparison: by code unit.\<close>

fun js_less :: "jstr \<Rightarrow> jstr \<Rightarrow> bool" where
  "js_less _ [] = False"
| "js_less [] (_ # _) = True"
| "js_less (c # s) (d # t) = (if c < d then True else if c = d then js_less s t else False)"

definition fold5 :: "bytes \<Rightarrow> nat \<Rightarrow> nat" where
  "fold5 hash i = (let at = (\<lambda>j. unat (hash ! (i + j))) in
     ((((at 0 * 256 + at 1) * 256 + at 2) * 256 + at 3) * 256 + at 4) mod 100000)"

definition computeSafetyNumber :: "('r, 'k) webcrypto \<Rightarrow> jstr \<Rightarrow> jstr \<Rightarrow> jstr \<Rightarrow> jstr \<Rightarrow> error + jstr" where
  "computeSafetyNumber W myWinkdId myIdentityPublicB64 theirWinkdId theirIdentityPublicB64 =
     (let (id1, key1, id2, key2) =
        (if js_less myWinkdId theirWinkdId
         then (myWinkdId, myIdentityPublicB64, theirWinkdId, theirIdentityPublicB64)
         else (theirWinkdId, theirIdentityPublicB64, myWinkdId, myIdentityPublicB64)) in
      bindR (base64ToBuf key1) (\<lambda>k1.
      bindR (base64ToBuf key2) (\<lambda>k2.
      let data = concatBufs [text_encode id1, k1, text_encode id2, k2];
          hash = digest512 W data
      in Inr (join 32 (map (\<lambda>i. pad_start 5 48 (nat_digits (fold5 hash (i * 5)))) [0..<12])))))"

section \<open>What SubtleCrypto promises\<close>

text \<open>
  Documented behaviour of the Web Crypto API, stated on the record's fields only: keys that
  generateKey makes can be exported and imported again, ECDH agrees from both sides, ECDSA verifies
  what it signed, HKDF and HMAC return the bytes asked for, AES-GCM decrypts what it encrypted
  under the same key and IV, and a SHA-512 digest has 64 bytes.
\<close>

definition rawOf :: "('r, 'k) webcrypto \<Rightarrow> 'r \<Rightarrow> bytes" where
  "rawOf W r = exportRaw W (fst (fst (generateKey W r)))"

definition jwkOf :: "('r, 'k) webcrypto \<Rightarrow> 'r \<Rightarrow> json" where
  "jwkOf W r = strip_key_ops (exportJwk W (snd (fst (generateKey W r))))"

definition jwk_law :: "('r, 'k) webcrypto \<Rightarrow> bool" where
  "jwk_law W \<longleftrightarrow> (\<forall>r. json_wf (jwkOf W r))"

definition ecdh_law :: "('r, 'k) webcrypto \<Rightarrow> bool" where
  "ecdh_law W \<longleftrightarrow> (\<forall>r1 r2. length (rawOf W r1) = 65 \<and> (\<exists>P1 J1 P2 J2 s.
     importRaw W ECDH_P256 (rawOf W r1) = Inr P1 \<and> importJwk W ECDH_P256 (jwkOf W r1) = Inr J1 \<and>
     importRaw W ECDH_P256 (rawOf W r2) = Inr P2 \<and> importJwk W ECDH_P256 (jwkOf W r2) = Inr J2 \<and>
     deriveECDH W P2 J1 256 = Inr s \<and> deriveECDH W P1 J2 256 = Inr s \<and> length s = 32))"

definition ecdsa_law :: "('r, 'k) webcrypto \<Rightarrow> bool" where
  "ecdsa_law W \<longleftrightarrow> (\<forall>r. \<exists>S V.
     importJwk W ECDSA_P256 (jwkOf W r) = Inr S \<and> importRaw W ECDSA_P256 (rawOf W r) = Inr V \<and>
     (\<forall>data r'. verifyECDSA W V (fst (signECDSA W S data r')) data))"

definition hkdf_law :: "('r, 'k) webcrypto \<Rightarrow> bool" where
  "hkdf_law W \<longleftrightarrow> (\<forall>ikm. \<exists>k. importRaw W HKDF ikm = Inr k \<and>
     (\<forall>salt info n. n \<le> 255 * 32 \<longrightarrow> (\<exists>out. deriveHKDF W salt info k (n * 8) = Inr out \<and> length out = n)))"

definition hmac_law :: "('r, 'k) webcrypto \<Rightarrow> bool" where
  "hmac_law W \<longleftrightarrow> (\<forall>key. key \<noteq> [] \<longrightarrow>
     (\<exists>k. importRaw W HMAC_SHA256 key = Inr k \<and> (\<forall>d. length (signHMAC W k d) = 32)))"

definition gcm_law :: "('r, 'k) webcrypto \<Rightarrow> bool" where
  "gcm_law W \<longleftrightarrow> (\<forall>r. length (fst (randomBytes W 12 r)) = 12) \<and>
     (\<forall>key. length key = 32 \<longrightarrow> (\<exists>k. importRaw W AES_GCM key = Inr k \<and>
       (\<forall>iv pt. length iv = 12 \<longrightarrow> (\<exists>ct. encryptGCM W iv k pt = Inr ct \<and> decryptGCM W iv k ct = Inr pt))))"

definition sha512_law :: "('r, 'k) webcrypto \<Rightarrow> bool" where
  "sha512_law W \<longleftrightarrow> (\<forall>d. length (digest512 W d) = 64)"

definition subtle_laws :: "('r, 'k) webcrypto \<Rightarrow> bool" where
  "subtle_laws W \<longleftrightarrow> jwk_law W \<and> ecdh_law W \<and> ecdsa_law W \<and> hkdf_law W \<and> hmac_law W \<and> gcm_law W \<and> sha512_law W"

text \<open>A key pair that generateDHKeyPair made.\<close>

definition dh_keypair :: "('r, 'k) webcrypto \<Rightarrow> jstr \<Rightarrow> jstr \<Rightarrow> bool" where
  "dh_keypair W pub priv \<longleftrightarrow> (\<exists>r. pub = bufToBase64 (rawOf W r) \<and> priv = json_stringify (jwkOf W r))"

lemma generateDHKeyPair_eq:
  "generateDHKeyPair W r =
     (Inr \<lparr>publicKeyRaw = bufToBase64 (rawOf W r), privateKeyJwk = json_stringify (jwkOf W r)\<rparr>,
      snd (generateKey W r))"
  by (simp add: generateDHKeyPair_def rawOf_def jwkOf_def Let_def split: prod.split)

lemma generated_dh_keypair: "dh_keypair W (bufToBase64 (rawOf W r)) (json_stringify (jwkOf W r))"
  by (auto simp: dh_keypair_def)

lemma dh_keypair_public:
  assumes "ecdh_law W" and "dh_keypair W pub priv"
  shows "pub \<noteq> []" and "latin1 pub"
proof -
  obtain r where pub: "pub = bufToBase64 (rawOf W r)" using assms(2) by (auto simp: dh_keypair_def)
  have "length (rawOf W r) = 65" using assms(1) by (simp add: ecdh_law_def)
  moreover have "bufToBase64 [] = []" using btoa_bytes [of "[]"] by (simp add: btoa_def)
  ultimately show "pub \<noteq> []" "latin1 pub"
    using bufToBase64_inject [of "rawOf W r" "[]"] by (auto simp: pub)
qed

lemma dh_comm:
  assumes "jwk_law W" and "ecdh_law W" and "dh_keypair W pubA privA" and "dh_keypair W pubB privB"
  obtains s where "dh W privA pubB = Inr s" "dh W privB pubA = Inr s" "length s = 32"
proof -
  obtain ra rb where keys: "pubA = bufToBase64 (rawOf W ra)" "privA = json_stringify (jwkOf W ra)"
    "pubB = bufToBase64 (rawOf W rb)" "privB = json_stringify (jwkOf W rb)"
    using assms(3,4) by (auto simp: dh_keypair_def)
  have imp: "importDHPrivate W (json_stringify (jwkOf W r)) = importJwk W ECDH_P256 (jwkOf W r)" for r
    using assms(1) by (simp add: importDHPrivate_def json_roundtrip jwk_law_def)
  obtain P1 J1 P2 J2 s where
    "importRaw W ECDH_P256 (rawOf W ra) = Inr P1" "importJwk W ECDH_P256 (jwkOf W ra) = Inr J1"
    "importRaw W ECDH_P256 (rawOf W rb) = Inr P2" "importJwk W ECDH_P256 (jwkOf W rb) = Inr J2"
    "deriveECDH W P2 J1 256 = Inr s" "deriveECDH W P1 J2 256 = Inr s" "length s = 32"
    using assms(2) unfolding ecdh_law_def by meson
  then show thesis
    by (intro that [of s]) (simp_all add: keys dh_def imp importDHPublic_def)
qed

section \<open>Key derivation yields keys\<close>

definition key32 :: "jstr \<Rightarrow> bool" where
  "key32 s \<longleftrightarrow> s = bufToHex (hexToBuf s) \<and> length (hexToBuf s) = 32"

lemma key32_bufToHex [simp]: "key32 (bufToHex b) \<longleftrightarrow> length b = 32"
  by (simp add: key32_def)

lemma key32_not_Nil: "key32 s \<Longrightarrow> s \<noteq> []" "key32 s \<Longrightarrow> hexToBuf s \<noteq> []"
  by (auto simp: key32_def)

lemma hkdf_total:
  assumes "hkdf_law W" and "n \<le> 255 * 32"
  obtains out where "hkdf W ikm salt info n = Inr out" "length out = n"
proof -
  obtain k where "importRaw W HKDF ikm = Inr k"
    "\<forall>salt info n. n \<le> 255 * 32 \<longrightarrow> (\<exists>out. deriveHKDF W salt info k (n * 8) = Inr out \<and> length out = n)"
    using assms(1) unfolding hkdf_law_def by blast
  moreover then obtain out where "deriveHKDF W salt (text_encode info) k (n * 8) = Inr out" "length out = n"
    using assms(2) by blast
  ultimately show thesis by (intro that [of out]) (simp_all add: hkdf_def)
qed

lemma kdfRootKey_total:
  assumes "hkdf_law W"
  obtains rk ck where "kdfRootKey W rk0 d = Inr (rk, ck)" "key32 rk" "key32 ck"
proof -
  obtain out where "hkdf W d (hexToBuf rk0) (js ''WinkdRatchetRK v1'') 64 = Inr out" "length out = 64"
    by (rule hkdf_total [OF assms, of 64]) simp_all
  then show thesis
    by (intro that [of "bufToHex (take 32 out)" "bufToHex (take 32 (drop 32 out))"])
      (simp_all add: kdfRootKey_def)
qed

lemma kdfChainKey_total:
  assumes "hmac_law W" and "key32 ck"
  obtains mk nk where "kdfChainKey W ck = Inr (mk, nk)" "length mk = 32" "key32 nk"
proof -
  obtain k where "importRaw W HMAC_SHA256 (hexToBuf ck) = Inr k" "\<forall>d. length (signHMAC W k d) = 32"
    using assms key32_not_Nil(2) unfolding hmac_law_def by blast
  then show thesis
    by (intro that [of "signHMAC W k [1]" "bufToHex (signHMAC W k [2])"])
      (simp_all add: kdfChainKey_def hmacSha256_def)
qed

lemma x3dh_sk_total:
  assumes "hkdf_law W"
  obtains sk where "x3dh_sk W d = Inr sk" "length sk = 32"
  unfolding x3dh_sk_def by (rule hkdf_total [OF assms, of 32]) simp_all

lemma aesGcm_roundtrip:
  assumes "gcm_law W" and "length key = 32"
  obtains res where "aesGcmEncrypt W key pt r = (Inr res, snd (randomBytes W 12 r))"
    "aesGcmDecrypt W key (gcm_ciphertext res) (gcm_iv res) = Inr pt"
proof -
  obtain iv r' where iv: "randomBytes W 12 r = (iv, r')" by fastforce
  with assms(1) have "length iv = 12" unfolding gcm_law_def by (metis fst_conv)
  moreover obtain k where "importRaw W AES_GCM key = Inr k"
    "\<forall>iv pt. length iv = 12 \<longrightarrow> (\<exists>ct. encryptGCM W iv k pt = Inr ct \<and> decryptGCM W iv k ct = Inr pt)"
    using assms unfolding gcm_law_def by blast
  moreover then obtain ct where "encryptGCM W iv k pt = Inr ct" "decryptGCM W iv k ct = Inr pt"
    using \<open>length iv = 12\<close> by blast
  ultimately show thesis using assms(2) iv
    by (intro that [of "\<lparr>gcm_ciphertext = bufToBase64 ct, gcm_iv = bufToBase64 iv\<rparr>"])
      (simp_all add: aesGcmEncrypt_def aesGcmDecrypt_def)
qed

section \<open>X3DH agrees\<close>

lemma x3dh_shared:
  assumes laws: "jwk_law W" "ecdh_law W" "hkdf_law W"
    and alice: "dh_keypair W ikA ikA'" "dh_keypair W ekA ekA'"
    and bob: "dh_keypair W ikB ikB'" "dh_keypair W spkB spkB'"
    and opk: "rel_option (\<lambda>pub priv. dh_keypair W pub priv) opkB opkB'"
  obtains sk where "x3dh W ikA' ekA' ikB spkB opkB = Inr sk"
    "x3dhRespond W ikB' spkB' opkB' ikA ekA = Inr sk" "length sk = 32"
proof -
  obtain d1 where d1: "dh W ikA' spkB = Inr d1" "dh W spkB' ikA = Inr d1"
    by (rule dh_comm [OF laws(1,2) alice(1) bob(2)]) blast
  obtain d2 where d2: "dh W ekA' ikB = Inr d2" "dh W ikB' ekA = Inr d2"
    by (rule dh_comm [OF laws(1,2) alice(2) bob(1)]) blast
  obtain d3 where d3: "dh W ekA' spkB = Inr d3" "dh W spkB' ekA = Inr d3"
    by (rule dh_comm [OF laws(1,2) alice(2) bob(2)]) blast
  show thesis
  proof (cases opkB)
    case None
    with opk have "opkB' = None" by simp
    obtain sk where "x3dh_sk W (concatBufs [d1, d2, d3]) = Inr sk" "length sk = 32"
      using x3dh_sk_total [OF laws(3)] by blast
    with None \<open>opkB' = None\<close> show thesis
      by (intro that [of sk]) (simp_all add: x3dh_def x3dhRespond_def d1 d2 d3)
  next
    case (Some p)
    with opk obtain p' where p': "opkB' = Some p'" "dh_keypair W p p'" by (auto simp: option_rel_Some1)
    obtain d4 where d4: "dh W ekA' p = Inr d4" "dh W p' ekA = Inr d4"
      by (rule dh_comm [OF laws(1,2) alice(2) p'(2)]) blast
    obtain sk where "x3dh_sk W (concatBufs [concatBufs [d1, d2, d3], d4]) = Inr sk" "length sk = 32"
      using x3dh_sk_total [OF laws(3)] by blast
    then show thesis
      by (intro that [of sk]) (simp_all add: x3dh_def x3dhRespond_def d1 d2 d3 d4 Some p')
  qed
qed

end
