(* ===== verification/Session.thy ===== *)
theory Session
  imports KeyStore Crypto
begin

text \<open>
  packages/core/src/encryption/session.ts: the class SignalSessionManager. Its state is the key
  store it was constructed with (\<open>'st\<close>) and the random source (\<open>'r\<close>); a method is an effect on the
  pair. The session object a method works on is a value of its own (\<open>('r) on_session\<close> effects mutate
  it); \<open>withSession\<close> is the moment those mutations reach the store, which depends on the store
  (\<open>sessionMutated\<close>).

  A payload is cast to its TypeScript type without a check. The model checks: a field that is
  missing or of another type is a TypeErr.
\<close>

section \<open>Wire formats\<close>

record RatchetHeader =
  h_rk :: jstr
  h_n :: int
  h_pn :: int

record WireMessage =
  w_h :: RatchetHeader
  w_ct :: jstr
  w_iv :: jstr

record PreKeyWireMessage = WireMessage +
  w_ik :: jstr
  w_ek :: jstr
  w_spkId :: int
  w_opkId :: "int option"

definition opt_int :: "int option \<Rightarrow> json" where
  "opt_int x = (case x of None \<Rightarrow> JNull | Some i \<Rightarrow> JInt i)"

definition header_json :: "RatchetHeader \<Rightarrow> json" where
  "header_json h = JObj [(js ''rk'', JStr (h_rk h)), (js ''n'', JInt (h_n h)), (js ''pn'', JInt (h_pn h))]"

definition wire_json :: "WireMessage \<Rightarrow> json" where
  "wire_json w = JObj [(js ''h'', header_json (w_h w)), (js ''ct'', JStr (w_ct w)), (js ''iv'', JStr (w_iv w))]"

definition prekey_wire_json :: "PreKeyWireMessage \<Rightarrow> json" where
  "prekey_wire_json w = JObj [(js ''ik'', JStr (w_ik w)), (js ''ek'', JStr (w_ek w)),
     (js ''spkId'', JInt (w_spkId w)), (js ''opkId'', opt_int (w_opkId w)),
     (js ''h'', header_json (w_h w)), (js ''ct'', JStr (w_ct w)), (js ''iv'', JStr (w_iv w))]"

definition str_field :: "json \<Rightarrow> string \<Rightarrow> error + jstr" where
  "str_field v k = (case json_get v (js k) of Some (JStr s) \<Rightarrow> Inr s | _ \<Rightarrow> Inl TypeErr)"

definition int_field :: "json \<Rightarrow> string \<Rightarrow> error + int" where
  "int_field v k = (case json_get v (js k) of Some (JInt i) \<Rightarrow> Inr i | _ \<Rightarrow> Inl TypeErr)"

definition opt_int_field :: "json \<Rightarrow> string \<Rightarrow> error + int option" where
  "opt_int_field v k = (case json_get v (js k) of Some (JInt i) \<Rightarrow> Inr (Some i) | Some JNull \<Rightarrow> Inr None | _ \<Rightarrow> Inl TypeErr)"

definition to_header :: "json \<Rightarrow> error + RatchetHeader" where
  "to_header v = (case json_get v (js ''h'') of None \<Rightarrow> Inl TypeErr | Some h \<Rightarrow>
     bindR (str_field h ''rk'') (\<lambda>rk. bindR (int_field h ''n'') (\<lambda>n. bindR (int_field h ''pn'') (\<lambda>pn.
     Inr \<lparr>h_rk = rk, h_n = n, h_pn = pn\<rparr>))))"

definition to_wire :: "json \<Rightarrow> error + WireMessage" where
  "to_wire v = bindR (to_header v) (\<lambda>h. bindR (str_field v ''ct'') (\<lambda>ct. bindR (str_field v ''iv'') (\<lambda>iv.
     Inr \<lparr>w_h = h, w_ct = ct, w_iv = iv\<rparr>)))"

definition to_prekey_wire :: "json \<Rightarrow> error + PreKeyWireMessage" where
  "to_prekey_wire v = bindR (to_wire v) (\<lambda>w.
     bindR (str_field v ''ik'') (\<lambda>ik. bindR (str_field v ''ek'') (\<lambda>ek.
     bindR (int_field v ''spkId'') (\<lambda>spkId. bindR (opt_int_field v ''opkId'') (\<lambda>opkId.
     Inr \<lparr>w_h = w_h w, w_ct = w_ct w, w_iv = w_iv w, w_ik = ik, w_ek = ek, w_spkId = spkId, w_opkId = opkId\<rparr>)))))"

section \<open>Effects of the manager\<close>

type_synonym ('r, 'a) on_session = "(RatchetSession \<times> 'r, error, 'a) eff"

definition getS :: "('r, RatchetSession) on_session" where
  "getS = (\<lambda>(s, r). (Inr s, (s, r)))"

definition modS :: "(RatchetSession \<Rightarrow> RatchetSession) \<Rightarrow> ('r, unit) on_session" where
  "modS f = (\<lambda>(s, r). (Inr (), (f s, r)))"

definition onS :: "(RatchetSession, error, 'a) eff \<Rightarrow> ('r, 'a) on_session" where
  "onS m = (\<lambda>(s, r). let (x, s') = m s in (x, (s', r)))"

definition onR :: "('r, error, 'a) eff \<Rightarrow> ('s \<times> 'r, error, 'a) eff" where
  "onR m = (\<lambda>(s, r). let (x, r') = m r in (x, (s, r')))"

definition onStore :: "('st, error, 'a) eff \<Rightarrow> ('st \<times> 'r, error, 'a) eff" where
  "onStore m = (\<lambda>(st, r). let (x, st') = m st in (x, (st', r)))"

definition withSession :: "'st key_store \<Rightarrow> jstr \<Rightarrow> RatchetSession \<Rightarrow> ('r, 'a) on_session \<Rightarrow>
    ('st \<times> 'r, error, 'a \<times> RatchetSession) eff" where
  "withSession ks peerId s m = (\<lambda>(st, r). let (x, (s', r')) = m (s, r) in
     (map_sum (\<lambda>e. e) (\<lambda>a. (a, s')) x, (sessionMutated ks peerId s' st, r')))"

section \<open>Skipped message keys\<close>

definition MAX_SKIP :: int where
  "MAX_SKIP = 500"

definition skippedKey :: "jstr \<Rightarrow> int \<Rightarrow> jstr" where
  "skippedKey ratchetKey n = ratchetKey @ 58 # js_int n"

text \<open>The loop of skipMessageKeys. Both nullable fields are set: the method returns at once otherwise.\<close>

function skip_loop :: "('r, 'k) webcrypto \<Rightarrow> int \<Rightarrow> (RatchetSession, error, unit) eff" where
  "skip_loop W target s = (if recvCount s < target then
     (case (recvChainKey s, theirRatchetPublic s) of
        (Some ck, Some their) \<Rightarrow>
          (case kdfChainKey W ck of
             Inl e \<Rightarrow> (Inl e, s)
           | Inr (messageKey, nextChainKey) \<Rightarrow> skip_loop W target (s\<lparr>
               skipped := (skipped s)(skippedKey their (recvCount s) \<mapsto> bufToHex messageKey),
               recvChainKey := Some nextChainKey,
               recvCount := recvCount s + 1\<rparr>))
      | _ \<Rightarrow> (Inl TypeErr, s))
     else (Inr (), s))"
  by pat_completeness auto
termination
  by (relation "measure (\<lambda>(W, target, s). nat (target - recvCount s))") auto

declare skip_loop.simps [simp del]

definition skipMessageKeys :: "('r, 'k) webcrypto \<Rightarrow> int \<Rightarrow> (RatchetSession, error, unit) eff" where
  "skipMessageKeys W target s =
     (if \<not> truthy (recvChainKey s) \<or> \<not> truthy (theirRatchetPublic s) then (Inr (), s)
      else if target > recvCount s + MAX_SKIP then (Inl TooManySkipped, s)
      else skip_loop W target s)"

section \<open>Receiving: ratchet step and message key\<close>

text \<open>The branch of \<open>decrypt\<close> for a new ratchet key of the peer.\<close>

definition dhRatchet :: "('r, 'k) webcrypto \<Rightarrow> jstr \<Rightarrow> int \<Rightarrow> ('r, unit) on_session" where
  "dhRatchet W theirRatchetKey prevCount =
     bindE (onS (skipMessageKeys W prevCount)) (\<lambda>_.
     bindE getS (\<lambda>s.
     bindE (liftR (dh W (ourRatchetPrivate s) theirRatchetKey)) (\<lambda>dhOut1.
     bindE (liftR (kdfRootKey W (rootKey s) dhOut1)) (\<lambda>(rk1, ckr).
     bindE (modS (\<lambda>s. s\<lparr>recvChainKey := Some ckr, rootKey := rk1, recvCount := 0\<rparr>)) (\<lambda>_.
     bindE (onR (generateDHKeyPair W)) (\<lambda>newKP.
     bindE (liftR (dh W (privateKeyJwk newKP) theirRatchetKey)) (\<lambda>dhOut2.
     bindE (liftR (kdfRootKey W rk1 dhOut2)) (\<lambda>(rk2, cks).
     modS (\<lambda>s. s\<lparr>sendChainKey := Some cks, rootKey := rk2, prevSendCount := sendCount s, sendCount := 0,
       ourRatchetPublic := publicKeyRaw newKP, ourRatchetPrivate := privateKeyJwk newKP,
       theirRatchetPublic := Some theirRatchetKey\<rparr>)))))))))"

definition takeMessageKey :: "('r, 'k) webcrypto \<Rightarrow> jstr \<Rightarrow> int \<Rightarrow> (RatchetSession, error, bytes) eff" where
  "takeMessageKey W theirRatchetKey msgNum s = (let key = skippedKey theirRatchetKey msgNum in
     case skipped s key of
       Some hex \<Rightarrow> (Inr (hexToBuf hex), s\<lparr>skipped := (skipped s)(key := None)\<rparr>)
     | None \<Rightarrow> bindE (skipMessageKeys W msgNum) (\<lambda>_ s.
         if \<not> truthy (recvChainKey s) then (Inl NoReceivingChainKey, s)
         else case kdfChainKey W (the (recvChainKey s)) of
             Inl e \<Rightarrow> (Inl e, s)
           | Inr (messageKey, nextChainKey) \<Rightarrow>
               (Inr messageKey, s\<lparr>recvChainKey := Some nextChainKey, recvCount := msgNum + 1\<rparr>)) s)"

definition receive :: "('r, 'k) webcrypto \<Rightarrow> RatchetHeader \<Rightarrow> ('r, bytes) on_session" where
  "receive W h = bindE getS (\<lambda>s.
     bindE (if theirRatchetPublic s \<noteq> Some (h_rk h) then dhRatchet W (h_rk h) (h_pn h) else retE ()) (\<lambda>_.
     onS (takeMessageKey W (h_rk h) (h_n h))))"

section \<open>Sessions from pre-keys\<close>

definition initSessionFromBundle :: "('r, 'k) webcrypto \<Rightarrow> 'st key_store \<Rightarrow> jstr \<Rightarrow> PreKeyBundle \<Rightarrow>
    ('st \<times> 'r, error, unit) eff" where
  "initSessionFromBundle W ks peerId bundle =
     (let spk = b_signedPreKey bundle in
      if \<not> verifyPreKey W (b_identityKey bundle) (bspk_publicKey spk) (bspk_signature spk)
      then throwE (InvalidSignedPreKey peerId)
      else
        bindE (onStore (getIdentityKeyPair ks)) (\<lambda>idKP.
        case idKP of None \<Rightarrow> throwE NoLocalIdentityKey | Some idKP \<Rightarrow>
        bindE (onR (generateDHKeyPair W)) (\<lambda>ek.
        bindE (liftR (x3dh W (ik_privateKey idKP) (privateKeyJwk ek) (b_identityKey bundle)
                       (bspk_publicKey spk) (map_option bopk_publicKey (b_oneTimePreKey bundle)))) (\<lambda>SK.
        bindE (onR (generateDHKeyPair W)) (\<lambda>ratchetKP.
        bindE (liftR (dh W (privateKeyJwk ratchetKP) (bspk_publicKey spk))) (\<lambda>dhOut.
        bindE (liftR (kdfRootKey W (bufToHex SK) dhOut)) (\<lambda>(newRootKey, chainKey).
        onStore (storeSession ks peerId
          \<lparr>rootKey = newRootKey, sendChainKey = Some chainKey, recvChainKey = None,
           sendCount = 0, recvCount = 0, prevSendCount = 0,
           ourRatchetPublic = publicKeyRaw ratchetKP, ourRatchetPrivate = privateKeyJwk ratchetKP,
           theirRatchetPublic = Some (bspk_publicKey spk), skipped = Map.empty, isInitiator = True,
           pendingPreKeyMsg = Some \<lparr>pend_identityKey = ik_publicKey idKP, pend_ephemeralKey = publicKeyRaw ek,
             pend_spkId = bspk_id spk, pend_opkId = map_option bopk_id (b_oneTimePreKey bundle)\<rparr>\<rparr>))))))))"

definition consumePreKey :: "'st key_store \<Rightarrow> int option \<Rightarrow> ('st \<times> 'r, error, jstr option) eff" where
  "consumePreKey ks opkId = (case opkId of None \<Rightarrow> retE None | Some i \<Rightarrow>
     bindE (onStore (loadPreKey ks i)) (\<lambda>opk. case opk of None \<Rightarrow> retE None | Some k \<Rightarrow>
     bindE (onStore (removePreKey ks i)) (\<lambda>_. retE (Some (pk_privateKey k)))))"

definition initSessionFromPreKey :: "('r, 'k) webcrypto \<Rightarrow> 'st key_store \<Rightarrow> jstr \<Rightarrow> PreKeyWireMessage \<Rightarrow>
    ('st \<times> 'r, error, RatchetSession) eff" where
  "initSessionFromPreKey W ks peerId msg =
     bindE (onStore (getIdentityKeyPair ks)) (\<lambda>idKP.
     case idKP of None \<Rightarrow> throwE NoLocalIdentityKey | Some idKP \<Rightarrow>
     bindE (onStore (loadSignedPreKey ks (w_spkId msg))) (\<lambda>spk.
     case spk of None \<Rightarrow> throwE (SignedPreKeyNotFound (w_spkId msg)) | Some spk \<Rightarrow>
     bindE (consumePreKey ks (w_opkId msg)) (\<lambda>opkPrivate.
     bindE (liftR (x3dhRespond W (ik_privateKey idKP) (pk_privateKey spk) opkPrivate (w_ik msg) (w_ek msg))) (\<lambda>SK.
     bindE (liftR (dh W (pk_privateKey spk) (h_rk (w_h msg)))) (\<lambda>dhOut1.
     bindE (liftR (kdfRootKey W (bufToHex SK) dhOut1)) (\<lambda>(rk1, ckr).
     bindE (onR (generateDHKeyPair W)) (\<lambda>bobRatchetKP.
     bindE (liftR (dh W (privateKeyJwk bobRatchetKP) (h_rk (w_h msg)))) (\<lambda>dhOut2.
     bindE (liftR (kdfRootKey W rk1 dhOut2)) (\<lambda>(rk2, cks).
     let session = \<lparr>rootKey = rk2, sendChainKey = Some cks, recvChainKey = Some ckr,
       sendCount = 0, recvCount = 0, prevSendCount = 0,
       ourRatchetPublic = publicKeyRaw bobRatchetKP, ourRatchetPrivate = privateKeyJwk bobRatchetKP,
       theirRatchetPublic = Some (h_rk (w_h msg)), skipped = Map.empty, isInitiator = False,
       pendingPreKeyMsg = None\<rparr> in
     bindE (onStore (storeSession ks peerId session)) (\<lambda>_. retE session))))))))))"

section \<open>Encrypt and decrypt\<close>

text \<open>
  The part of \<open>encrypt\<close> that works on the session: it returns the type and the wire payload. The
  sending chain key is replaced before the encryption, the counter and the pending pre-key message
  after it.
\<close>

definition sealMessage :: "('r, 'k) webcrypto \<Rightarrow> jstr \<Rightarrow> ('r, int \<times> json) on_session" where
  "sealMessage W plaintext =
     bindE getS (\<lambda>s.
     if \<not> truthy (sendChainKey s) then throwE NoSendingChainKey else
     bindE (liftR (kdfChainKey W (the (sendChainKey s)))) (\<lambda>(messageKey, nextChainKey).
     bindE (modS (\<lambda>s. s\<lparr>sendChainKey := Some nextChainKey\<rparr>)) (\<lambda>_.
     bindE (onR (aesGcmEncrypt W messageKey (text_encode plaintext))) (\<lambda>box.
     let header = \<lparr>h_rk = ourRatchetPublic s, h_n = sendCount s, h_pn = prevSendCount s\<rparr> in
     case (if isInitiator s \<and> sendCount s = 0 then pendingPreKeyMsg s else None) of
       Some pkInfo \<Rightarrow>
         bindE (modS (\<lambda>s. s\<lparr>pendingPreKeyMsg := None, sendCount := sendCount s + 1\<rparr>)) (\<lambda>_.
         retE (1, prekey_wire_json \<lparr>w_h = header, w_ct = gcm_ciphertext box, w_iv = gcm_iv box,
           w_ik = pend_identityKey pkInfo, w_ek = pend_ephemeralKey pkInfo,
           w_spkId = pend_spkId pkInfo, w_opkId = pend_opkId pkInfo\<rparr>))
     | None \<Rightarrow>
         bindE (modS (\<lambda>s. s\<lparr>sendCount := sendCount s + 1\<rparr>)) (\<lambda>_.
         retE (2, wire_json \<lparr>w_h = header, w_ct = gcm_ciphertext box, w_iv = gcm_iv box\<rparr>))))))"

definition encrypt :: "('r, 'k) webcrypto \<Rightarrow> 'st key_store \<Rightarrow> jstr \<Rightarrow> jstr \<Rightarrow>
    ('st \<times> 'r, error, EncryptedEnvelope) eff" where
  "encrypt W ks peerId plaintext =
     bindE (onStore (loadSession ks peerId)) (\<lambda>session.
     case session of None \<Rightarrow> throwE (NoSession peerId) | Some session \<Rightarrow>
     bindE (onStore (getLocalRegistrationId ks)) (\<lambda>regId.
     bindE (withSession ks peerId session (sealMessage W plaintext)) (\<lambda>((ty, wirePayload), session').
     bindE (onStore (storeSession ks peerId session')) (\<lambda>_.
     bindE (liftR (btoa (json_stringify wirePayload))) (\<lambda>ciphertext.
     retE \<lparr>env_type = ty, env_ciphertext = ciphertext,
       env_registrationId = (case regId of None \<Rightarrow> 0 | Some i \<Rightarrow> i)\<rparr>)))))"

definition decrypt :: "('r, 'k) webcrypto \<Rightarrow> 'st key_store \<Rightarrow> jstr \<Rightarrow> EncryptedEnvelope \<Rightarrow>
    ('st \<times> 'r, error, jstr) eff" where
  "decrypt W ks peerId envelope =
     bindE (liftR (bindR (atob (env_ciphertext envelope)) json_parse)) (\<lambda>parsed.
     bindE (if env_type envelope = 1
            then bindE (liftR (to_prekey_wire parsed)) (initSessionFromPreKey W ks peerId)
            else bindE (onStore (loadSession ks peerId)) (\<lambda>session.
              case session of None \<Rightarrow> throwE (NoSession peerId) | Some s \<Rightarrow> retE s)) (\<lambda>session.
     bindE (liftR (to_wire parsed)) (\<lambda>msg.
     bindE (withSession ks peerId session (receive W (w_h msg))) (\<lambda>(messageKey, session').
     bindE (onStore (storeSession ks peerId session')) (\<lambda>_.
     bindE (liftR (aesGcmDecrypt W messageKey (w_ct msg) (w_iv msg))) (\<lambda>pt.
     retE (text_decode pt)))))))"

section \<open>The manager does not depend on the store\<close>

text \<open>
  Over any key store that keeps the contract, each method returns what it returns over the
  reference store and leaves corresponding contents.
\<close>

definition ok_world :: "('st \<Rightarrow> bool) \<Rightarrow> 'st \<times> 'r \<Rightarrow> bool" where
  "ok_world ok = (\<lambda>(st, r). ok st)"

definition view_world :: "('st \<Rightarrow> 'c) \<Rightarrow> 'st \<times> 'r \<Rightarrow> 'c \<times> 'r" where
  "view_world view = (\<lambda>(st, r). (view st, r))"

lemma world_simps [simp]:
  "ok_world ok (st, r) = ok st" "view_world view (st, r) = (view st, r)"
  by (simp_all add: ok_world_def view_world_def)

lemma refinesE_onStore:
  "refinesE ok view m m' \<Longrightarrow> refinesE (ok_world ok) (view_world view) (onStore m) (onStore m')"
  by (auto simp: refinesE_def onStore_def split: prod.splits)

lemma refinesE_onR: "refinesE (ok_world ok) (view_world view) (onR m) (onR m)"
  by (auto simp: refinesE_def onR_def split: prod.splits)

lemma refinesE_cases:
  "(x = None \<Longrightarrow> refinesE ok view m m') \<Longrightarrow> (\<And>a. x = Some a \<Longrightarrow> refinesE ok view (f a) (f' a)) \<Longrightarrow>
    refinesE ok view (case x of None \<Rightarrow> m | Some a \<Rightarrow> f a) (case x of None \<Rightarrow> m' | Some a \<Rightarrow> f' a)"
  "(b \<Longrightarrow> refinesE ok view m m') \<Longrightarrow> (\<not> b \<Longrightarrow> refinesE ok view n n') \<Longrightarrow>
    refinesE ok view (if b then m else n) (if b then m' else n')"
  "(\<And>a c. p = (a, c) \<Longrightarrow> refinesE ok view (g a c) (g' a c)) \<Longrightarrow>
    refinesE ok view (case p of (a, c) \<Rightarrow> g a c) (case p of (a, c) \<Rightarrow> g' a c)"
  "(\<And>a c. q = (a, c) \<Longrightarrow> refinesE ok view (h a c z) (h' a c z)) \<Longrightarrow>
    refinesE ok view ((case q of (a, c) \<Rightarrow> h a c) z) ((case q of (a, c) \<Rightarrow> h' a c) z)"
  by (simp_all split: option.split prod.split)

context key_store_contract
begin

lemma withSession_refines:
  "refinesE (ok_world ok) (view_world view) (withSession ks p s m) (withSession (spec_store shared) p s m)"
  using sessionMutated by (auto simp: refinesE_def withSession_def split: prod.splits)

lemmas manager_refines = refinesE_cases refinesE_bindE refinesE_pure refinesE_onR withSession_refines
  refines [THEN refinesE_onStore]

lemma initSessionFromBundle_refines:
  "refinesE (ok_world ok) (view_world view)
     (initSessionFromBundle W ks p b) (initSessionFromBundle W (spec_store shared) p b)"
  unfolding initSessionFromBundle_def Let_def by (intro manager_refines)

lemma initSessionFromPreKey_refines:
  "refinesE (ok_world ok) (view_world view)
     (initSessionFromPreKey W ks p b) (initSessionFromPreKey W (spec_store shared) p b)"
  unfolding initSessionFromPreKey_def consumePreKey_def Let_def by (intro manager_refines)

lemma encrypt_refines:
  "refinesE (ok_world ok) (view_world view) (encrypt W ks p t) (encrypt W (spec_store shared) p t)"
  unfolding encrypt_def by (intro manager_refines)

lemma decrypt_refines:
  "refinesE (ok_world ok) (view_world view) (decrypt W ks p e) (decrypt W (spec_store shared) p e)"
  unfolding decrypt_def by (intro manager_refines initSessionFromPreKey_refines)

end

end
