(* ===== verification/Ratchet.thy ===== *)
theory Ratchet
  imports Session
begin

text \<open>
  The symmetric and the DH ratchet of session.ts on their own, on the session object: the chain of
  keys a chain key generates, what \<open>skipMessageKeys\<close> stores, and the relation between a receiving
  chain and the message numbers still to come (\<open>awaiting\<close>), which every reception keeps.
\<close>

section \<open>Chains\<close>

fun chain_key :: "('r, 'k) webcrypto \<Rightarrow> jstr \<Rightarrow> nat \<Rightarrow> jstr" where
  "chain_key W ck 0 = ck"
| "chain_key W ck (Suc n) = snd (projr (kdfChainKey W (chain_key W ck n)))"

declare chain_key.simps(2) [simp del]

definition message_key :: "('r, 'k) webcrypto \<Rightarrow> jstr \<Rightarrow> nat \<Rightarrow> bytes" where
  "message_key W ck n = fst (projr (kdfChainKey W (chain_key W ck n)))"

lemma chain_step:
  assumes "hmac_law W" and "key32 ck"
  shows "key32 (chain_key W ck n)"
    and "kdfChainKey W (chain_key W ck n) = Inr (message_key W ck n, chain_key W ck (Suc n))"
    and "length (message_key W ck n) = 32"
proof -
  have step: "\<exists>mk nk. kdfChainKey W c = Inr (mk, nk) \<and> length mk = 32 \<and> key32 nk" if "key32 c" for c
    using kdfChainKey_total [OF assms(1) that] by metis
  show all: "key32 (chain_key W ck n)" for n
    using assms(2) step by (induction n) (force simp: chain_key.simps)+
  obtain mk nk where "kdfChainKey W (chain_key W ck n) = Inr (mk, nk)" "length mk = 32"
    using step [OF all] by blast
  then show "kdfChainKey W (chain_key W ck n) = Inr (message_key W ck n, chain_key W ck (Suc n))"
    "length (message_key W ck n) = 32"
    by (simp_all add: message_key_def chain_key.simps)
qed

lemma truthy_chain_key:
  assumes "hmac_law W" and "key32 ck"
  shows "chain_key W ck n \<noteq> []"
  using key32_not_Nil(1) [OF chain_step(1) [OF assms]] .

section \<open>Names of skipped keys\<close>

lemma colon_not_in_js_int: "58 \<notin> set (js_int n)"
  using js_int_chars [of 58 n] by (auto simp: is_digit_def)

lemma append_last_inject:
  assumes "x \<notin> set u" and "x \<notin> set v"
  shows "a @ x # u = b @ x # v \<longleftrightarrow> a = b \<and> u = v"
  using assms by (auto simp: append_eq_append_conv2 Cons_eq_append_conv append_eq_Cons_conv)

lemma skippedKey_inject [simp]: "skippedKey a m = skippedKey b n \<longleftrightarrow> a = b \<and> m = n"
  by (simp add: skippedKey_def append_last_inject colon_not_in_js_int)

section \<open>Skipping\<close>

text \<open>The entries the loop stores: numbers \<open>c\<close> to \<open>c + k - 1\<close> of a chain whose key at \<open>c\<close> is \<open>ck\<close>.\<close>

fun saved :: "('r, 'k) webcrypto \<Rightarrow> jstr \<Rightarrow> jstr \<Rightarrow> int \<Rightarrow> nat \<Rightarrow> (jstr \<rightharpoonup> jstr) \<Rightarrow> (jstr \<rightharpoonup> jstr)" where
  "saved W their ck c 0 m = m"
| "saved W their ck c (Suc k) m =
     (saved W their ck c k m)(skippedKey their (c + int k) \<mapsto> bufToHex (message_key W ck k))"

lemma saved_lookup [simp]:
  "saved W their ck c k m (skippedKey rk n) =
     (if rk = their \<and> c \<le> n \<and> n < c + int k then Some (bufToHex (message_key W ck (nat (n - c))))
      else m (skippedKey rk n))"
  by (induction k) (auto simp: not_less)

lemma saved_other: "(\<And>n. name \<noteq> skippedKey their n) \<Longrightarrow> saved W their ck c k m name = m name"
  by (induction k) auto

lemma chain_key_shift: "chain_key W (chain_key W ck i) j = chain_key W ck (i + j)"
  by (induction j) (simp_all add: chain_key.simps)

lemma message_key_shift: "message_key W (chain_key W ck i) j = message_key W ck (i + j)"
  by (simp add: message_key_def chain_key_shift)

lemma saved_shift:
  "saved W their (chain_key W ck 1) (c + 1) k (m(skippedKey their c \<mapsto> bufToHex (message_key W ck 0)))
     = saved W their ck c (Suc k) m"
proof (induction k)
  case 0
  show ?case by simp
next
  case (Suc k)
  then show ?case
    by (simp add: message_key_shift [of W ck 1, simplified] fun_upd_def ac_simps)
qed

lemma skip_loop_eq:
  assumes "hmac_law W" and "key32 ck" and "recvChainKey s = Some ck" and "theirRatchetPublic s = Some their"
  shows "skip_loop W target s = (Inr (), s\<lparr>
     skipped := saved W their ck (recvCount s) (nat (target - recvCount s)) (skipped s),
     recvChainKey := Some (chain_key W ck (nat (target - recvCount s))),
     recvCount := max (recvCount s) target\<rparr>)"
  using assms(2-4)
proof (induction "nat (target - recvCount s)" arbitrary: s ck)
  case 0
  then show ?case by (subst skip_loop.simps) (simp add: max_def)
next
  case (Suc k)
  let ?s = "s\<lparr>skipped := (skipped s)(skippedKey their (recvCount s) \<mapsto> bufToHex (message_key W ck 0)),
     recvChainKey := Some (chain_key W ck 1), recvCount := recvCount s + 1\<rparr>"
  have step: "kdfChainKey W ck = Inr (message_key W ck 0, chain_key W ck 1)"
    using chain_step(2) [OF assms(1) Suc.prems(1), of 0] by simp
  have n: "nat (target - recvCount s) = Suc k" "nat (target - (recvCount s + 1)) = k" "recvCount s < target"
    using Suc.hyps(2) by linarith+
  have "skip_loop W target s = skip_loop W target ?s"
    using Suc.prems n by (subst skip_loop.simps) (simp add: step)
  also have "\<dots> = (Inr (), ?s\<lparr>skipped := saved W their (chain_key W ck 1) (recvCount s + 1) k (skipped ?s),
     recvChainKey := Some (chain_key W (chain_key W ck 1) k), recvCount := max (recvCount s + 1) target\<rparr>)"
    using Suc.hyps(1) [of ?s "chain_key W ck 1"] n Suc.prems chain_step(1) [OF assms(1) Suc.prems(1), of 1] by simp
  finally show ?case
    using n saved_shift [of W their ck "recvCount s" k "skipped s"] chain_key_shift [of W ck 1 k]
    by (simp add: max_def del: saved.simps)
qed

text \<open>The three outcomes of skipMessageKeys.\<close>

lemma skipMessageKeys_cases:
  "recvChainKey s = None \<Longrightarrow> skipMessageKeys W target s = (Inr (), s)"
  "theirRatchetPublic s = None \<Longrightarrow> skipMessageKeys W target s = (Inr (), s)"
  "truthy (recvChainKey s) \<Longrightarrow> truthy (theirRatchetPublic s) \<Longrightarrow> recvCount s + MAX_SKIP < target \<Longrightarrow>
    skipMessageKeys W target s = (Inl TooManySkipped, s)"
  by (simp_all add: skipMessageKeys_def)

lemma skipMessageKeys_eq:
  assumes "hmac_law W" and "key32 ck" and "recvChainKey s = Some ck" and "theirRatchetPublic s = Some their"
    and "their \<noteq> []" and "target \<le> recvCount s + MAX_SKIP"
  shows "skipMessageKeys W target s = (Inr (), s\<lparr>
     skipped := saved W their ck (recvCount s) (nat (target - recvCount s)) (skipped s),
     recvChainKey := Some (chain_key W ck (nat (target - recvCount s))),
     recvCount := max (recvCount s) target\<rparr>)"
  using skip_loop_eq [OF assms(1-4)] assms(3-6) key32_not_Nil(1) [OF assms(2)]
  by (simp add: skipMessageKeys_def)

section \<open>A receiving chain and the messages it awaits\<close>

text \<open>
  \<open>awaiting W their ck todo s\<close>: the session receives under the ratchet key \<open>their\<close> from a chain that
  starts at \<open>ck\<close>; exactly the message numbers of \<open>todo\<close> are still to come, those below the counter
  with their keys kept in \<open>skipped\<close>.
\<close>

definition awaiting :: "('r, 'k) webcrypto \<Rightarrow> jstr \<Rightarrow> jstr \<Rightarrow> int set \<Rightarrow> RatchetSession \<Rightarrow> bool" where
  "awaiting W their ck todo s \<longleftrightarrow>
     theirRatchetPublic s = Some their \<and> their \<noteq> [] \<and> key32 ck \<and> 0 \<le> recvCount s \<and>
     recvChainKey s = Some (chain_key W ck (nat (recvCount s))) \<and>
     {recvCount s..} \<subseteq> todo \<and>
     (\<forall>n. skipped s (skippedKey their n) = (if n \<in> todo \<and> 0 \<le> n \<and> n < recvCount s
        then Some (bufToHex (message_key W ck (nat n))) else None))"

lemma awaiting_skip:
  assumes "hmac_law W" and "awaiting W their ck todo s" and "target \<le> recvCount s + MAX_SKIP"
  obtains s' where "skipMessageKeys W target s = (Inr (), s')" "awaiting W their ck todo s'"
    "recvCount s' = max (recvCount s) target"
    "s' = s\<lparr>skipped := skipped s', recvChainKey := recvChainKey s', recvCount := recvCount s'\<rparr>"
    "\<And>rk n. rk \<noteq> their \<Longrightarrow> skipped s' (skippedKey rk n) = skipped s (skippedKey rk n)"
proof -
  let ?c = "recvCount s" and ?k = "nat (target - recvCount s)"
  let ?ck = "chain_key W ck (nat ?c)"
  have a: "theirRatchetPublic s = Some their" "their \<noteq> []" "key32 ck" "0 \<le> ?c" "recvChainKey s = Some ?ck"
    using assms(2) by (simp_all add: awaiting_def)
  have len: "length (message_key W ck n) = 32" for n by (rule chain_step(3) [OF assms(1) a(3)])
  let ?s = "s\<lparr>skipped := saved W their ?ck ?c ?k (skipped s), recvChainKey := Some (chain_key W ?ck ?k),
     recvCount := max ?c target\<rparr>"
  have run: "skipMessageKeys W target s = (Inr (), ?s)"
    by (rule skipMessageKeys_eq [OF assms(1) chain_step(1) [OF assms(1) a(3)] a(5,1,2) assms(3)])
  have "nat ?c + ?k = nat (max ?c target)" using a(4) by (simp add: max_def nat_diff_distrib)
  moreover have "nat ?c + nat (n - ?c) = nat n" if "?c \<le> n" for n using a(4) that by simp
  ultimately have "awaiting W their ck todo ?s"
    using assms(2) unfolding awaiting_def
    by (auto simp: chain_key_shift message_key_shift max_def)
  then show thesis by (rule that [of ?s, OF run]) simp_all
qed

lemma takeMessageKey_awaiting:
  assumes "hmac_law W" and "awaiting W their ck todo s" and "n \<in> todo" and "0 \<le> n"
    and "n \<le> recvCount s + MAX_SKIP"
  obtains s' where "takeMessageKey W their n s = (Inr (message_key W ck (nat n)), s')"
    "awaiting W their ck (todo - {n}) s'" "recvCount s' = max (recvCount s) (n + 1)"
    "s' = s\<lparr>skipped := skipped s', recvChainKey := recvChainKey s', recvCount := recvCount s'\<rparr>"
    "\<And>rk n. rk \<noteq> their \<Longrightarrow> skipped s' (skippedKey rk n) = skipped s (skippedKey rk n)"
proof (cases "n < recvCount s")
  case True
  let ?s = "s\<lparr>skipped := (skipped s)(skippedKey their n := None)\<rparr>"
  have "skipped s (skippedKey their n) = Some (bufToHex (message_key W ck (nat n)))"
    using assms(2-4) True by (auto simp: awaiting_def)
  then have "takeMessageKey W their n s = (Inr (message_key W ck (nat n)), ?s)"
    by (simp add: takeMessageKey_def)
  moreover have "awaiting W their ck (todo - {n}) ?s"
    using assms(2) True by (auto simp: awaiting_def)
  ultimately show thesis using True by (intro that [of ?s]) simp_all
next
  case False
  obtain t where t: "skipMessageKeys W n s = (Inr (), t)" "awaiting W their ck todo t"
    "recvCount t = max (recvCount s) n"
    "t = s\<lparr>skipped := skipped t, recvChainKey := recvChainKey t, recvCount := recvCount t\<rparr>"
    and other: "\<And>rk n. rk \<noteq> their \<Longrightarrow> skipped t (skippedKey rk n) = skipped s (skippedKey rk n)"
    by (rule awaiting_skip [OF assms(1,2,5)]) blast
  have n: "recvCount t = n" using t(3) False by simp
  have key: "recvChainKey t = Some (chain_key W ck (nat n))" "key32 ck"
    using t(2) n by (simp_all add: awaiting_def)
  have idx: "Suc (nat n) = nat (n + 1)" using assms(4) by simp
  let ?s = "t\<lparr>recvChainKey := Some (chain_key W ck (Suc (nat n))), recvCount := n + 1\<rparr>"
  have "takeMessageKey W their n s = (Inr (message_key W ck (nat n)), ?s)"
    using assms(2) False key chain_step(2) [OF assms(1) key(2)] truthy_chain_key [OF assms(1) key(2)] t(1)
    by (simp add: takeMessageKey_def awaiting_def bindE_def)
  moreover have "awaiting W their ck (todo - {n}) ?s"
    using t(2) n assms(4) by (auto simp: awaiting_def idx)
  moreover have "?s = s\<lparr>skipped := skipped ?s, recvChainKey := recvChainKey ?s, recvCount := recvCount ?s\<rparr>"
    by (subst t(4)) simp
  ultimately show thesis using False n other by (intro that [of ?s]) simp_all
qed

end
