(* ===== verification/Messages.thy ===== *)
theory Messages
  imports Ratchet
begin

text \<open>
  What one call of \<open>encrypt\<close> or \<open>decrypt\<close> does, in terms of the chains of theory Ratchet: the wire
  payloads survive btoa, JSON and back; sealing a message advances the sending chain and yields a
  box the message key of its number opens; the methods over the reference store are the session
  operations between a load and a store.
\<close>

section \<open>Wire payloads\<close>

lemma to_header_json [simp]:
  "to_header (wire_json w) = Inr (w_h w)" "to_header (prekey_wire_json pw) = Inr (w_h pw)"
  by (simp_all add: to_header_def wire_json_def prekey_wire_json_def header_json_def str_field_def int_field_def json_get_def)

lemma to_wire_json [simp]:
  "to_wire (wire_json w) = Inr w"
  "to_wire (prekey_wire_json pw) = Inr (WireMessage.truncate pw)"
  by (simp_all add: to_wire_def) (simp_all add: wire_json_def prekey_wire_json_def str_field_def json_get_def
    WireMessage.truncate_def)

lemma to_prekey_wire_json [simp]: "to_prekey_wire (prekey_wire_json pw) = Inr pw"
  by (simp add: to_prekey_wire_def) (simp add: prekey_wire_json_def str_field_def int_field_def opt_int_field_def
    opt_int_def json_get_def WireMessage.truncate_def split: option.split)

definition latin1_wire :: "'a WireMessage_scheme \<Rightarrow> bool" where
  "latin1_wire w \<longleftrightarrow> latin1 (h_rk (w_h w)) \<and> latin1 (w_ct w) \<and> latin1 (w_iv w)"

lemma wire_json_wf:
  "json_wf (wire_json w)" "json_wf (prekey_wire_json pw)"
  "latin1_wire w \<Longrightarrow> json_latin1 (wire_json w)"
  "latin1_wire pw \<Longrightarrow> latin1 (w_ik pw) \<Longrightarrow> latin1 (w_ek pw) \<Longrightarrow> json_latin1 (prekey_wire_json pw)"
  by (auto simp: wire_json_def prekey_wire_json_def header_json_def opt_int_def latin1_wire_def split: option.split)

text \<open>The payload an envelope carries.\<close>

definition payload_of :: "EncryptedEnvelope \<Rightarrow> error + json" where
  "payload_of e = bindR (atob (env_ciphertext e)) json_parse"

section \<open>Sending\<close>

definition sending :: "('r, 'k) webcrypto \<Rightarrow> jstr \<Rightarrow> RatchetSession \<Rightarrow> bool" where
  "sending W ck s \<longleftrightarrow> key32 ck \<and> 0 \<le> sendCount s \<and>
     sendChainKey s = Some (chain_key W ck (nat (sendCount s)))"

text \<open>\<open>sealed W rk ck w t\<close>: \<open>w\<close> names the ratchet key \<open>rk\<close>, and the key of its number in the chain of
  \<open>ck\<close> opens it to the text \<open>t\<close>.\<close>

definition sealed :: "('r, 'k) webcrypto \<Rightarrow> jstr \<Rightarrow> jstr \<Rightarrow> WireMessage \<Rightarrow> jstr \<Rightarrow> bool" where
  "sealed W rk ck w t \<longleftrightarrow> h_rk (w_h w) = rk \<and> 0 \<le> h_n (w_h w) \<and>
     aesGcmDecrypt W (message_key W ck (nat (h_n (w_h w)))) (w_ct w) (w_iv w) = Inr (text_encode t)"

definition prekey_wire :: "PendingPreKeyMsg \<Rightarrow> WireMessage \<Rightarrow> PreKeyWireMessage" where
  "prekey_wire pk w = \<lparr>w_h = w_h w, w_ct = w_ct w, w_iv = w_iv w, w_ik = pend_identityKey pk,
     w_ek = pend_ephemeralKey pk, w_spkId = pend_spkId pk, w_opkId = pend_opkId pk\<rparr>"

lemma truncate_prekey_wire [simp]: "WireMessage.truncate (prekey_wire pk w) = w"
  by (simp add: prekey_wire_def WireMessage.truncate_def)

lemma aesGcm_latin1:
  assumes "aesGcmEncrypt W key pt r = (Inr box, r')"
  shows "latin1 (gcm_ciphertext box)" "latin1 (gcm_iv box)"
proof -
  obtain iv r1 where "randomBytes W 12 r = (iv, r1)" by fastforce
  with assms show "latin1 (gcm_ciphertext box)" "latin1 (gcm_iv box)"
    by (auto simp: aesGcmEncrypt_def bindE_eq_Inr)
qed

lemma sealMessage_sending:
  assumes laws: "hmac_law W" "gcm_law W" and s: "sending W ck s"
  obtains w where
    "h_rk (w_h w) = ourRatchetPublic s" "h_n (w_h w) = sendCount s" "h_pn (w_h w) = prevSendCount s"
    "sealed W (ourRatchetPublic s) ck w t" "latin1 (w_ct w)" "latin1 (w_iv w)"
    "sealMessage W t (s, r) =
       (case (if isInitiator s \<and> sendCount s = 0 then pendingPreKeyMsg s else None) of
          Some pk \<Rightarrow> (Inr (1, prekey_wire_json (prekey_wire pk w)),
            (s\<lparr>sendChainKey := Some (chain_key W ck (Suc (nat (sendCount s)))), sendCount := sendCount s + 1,
               pendingPreKeyMsg := None\<rparr>, snd (randomBytes W 12 r)))
        | None \<Rightarrow> (Inr (2, wire_json w),
            (s\<lparr>sendChainKey := Some (chain_key W ck (Suc (nat (sendCount s)))), sendCount := sendCount s + 1\<rparr>, snd (randomBytes W 12 r))))"
proof -
  have k: "key32 ck" and n: "0 \<le> sendCount s" and c: "sendChainKey s = Some (chain_key W ck (nat (sendCount s)))"
    using s by (simp_all add: sending_def)
  obtain box where box: "aesGcmEncrypt W (message_key W ck (nat (sendCount s))) (text_encode t) r = (Inr box, snd (randomBytes W 12 r))"
    "aesGcmDecrypt W (message_key W ck (nat (sendCount s))) (gcm_ciphertext box) (gcm_iv box) = Inr (text_encode t)"
    by (rule aesGcm_roundtrip [OF laws(2) chain_step(3) [OF laws(1) k]])
  have "latin1 (gcm_ciphertext box)" "latin1 (gcm_iv box)"
    using aesGcm_latin1 [OF box(1)] by simp_all
  moreover let ?w = "\<lparr>w_h = \<lparr>h_rk = ourRatchetPublic s, h_n = sendCount s, h_pn = prevSendCount s\<rparr>,
      w_ct = gcm_ciphertext box, w_iv = gcm_iv box\<rparr>"
  have "sealed W (ourRatchetPublic s) ck ?w t" using box(2) n by (simp add: sealed_def)
  moreover have "sealMessage W t (s, r) =
       (case (if isInitiator s \<and> sendCount s = 0 then pendingPreKeyMsg s else None) of
          Some pk \<Rightarrow> (Inr (1, prekey_wire_json (prekey_wire pk ?w)),
            (s\<lparr>sendChainKey := Some (chain_key W ck (Suc (nat (sendCount s)))), sendCount := sendCount s + 1,
               pendingPreKeyMsg := None\<rparr>, snd (randomBytes W 12 r)))
        | None \<Rightarrow> (Inr (2, wire_json ?w),
            (s\<lparr>sendChainKey := Some (chain_key W ck (Suc (nat (sendCount s)))), sendCount := sendCount s + 1\<rparr>, snd (randomBytes W 12 r))))"
    using c box(1) chain_step(2) [OF laws(1) k] truthy_chain_key [OF laws(1) k]
    by (simp add: sealMessage_def getS_def modS_def onR_def bindE_def prekey_wire_def split: option.split)
  ultimately show thesis by (intro that [of ?w]) simp_all
qed

section \<open>The methods over the reference store\<close>

abbreviation put_session :: "jstr \<Rightarrow> RatchetSession \<Rightarrow> key_contents \<Rightarrow> key_contents" where
  "put_session p s c \<equiv> c\<lparr>kc_sessions := (kc_sessions c)(p \<mapsto> s)\<rparr>"

lemma spec_store_simps:
  "onStore (getIdentityKeyPair (spec_store a)) (c, r) = (Inr (kc_identity c), (c, r))"
  "onStore (getLocalRegistrationId (spec_store a)) (c, r) = (Inr (kc_regId c), (c, r))"
  "onStore (loadPreKey (spec_store a) i) (c, r) = (Inr (kc_preKeys c i), (c, r))"
  "onStore (removePreKey (spec_store a) i) (c, r) = (Inr (), (c\<lparr>kc_preKeys := (kc_preKeys c)(i := None)\<rparr>, r))"
  "onStore (loadSignedPreKey (spec_store a) i) (c, r) = (Inr (kc_signedPreKeys c i), (c, r))"
  "onStore (loadSession (spec_store a) p) (c, r) = (Inr (kc_sessions c p), (c, r))"
  "onStore (storeSession (spec_store a) p s) (c, r) = (Inr (), (put_session p s c, r))"
  "sessionMutated (spec_store a) p s c = (if a then put_session p s c else c)"
  by (simp_all add: onStore_def spec_store_def readM_def writeM_def)

lemma encrypt_eq:
  assumes "kc_sessions c p = Some s" and "sealMessage W t (s, r) = (Inr (ty, v), (s', r'))"
    and "json_wf v" and "json_latin1 v"
  obtains e where "encrypt W (spec_store a) p t (c, r) = (Inr e, (put_session p s' c, r'))"
    "env_type e = ty" "payload_of e = Inr v"
proof -
  obtain b where "btoa (json_stringify v) = Inr b" "bindR (atob b) json_parse = Inr v"
    by (rule btoa_json [OF assms(3,4)])
  with assms(1,2) show thesis
    by (intro that [of "\<lparr>env_type = ty, env_ciphertext = b,
        env_registrationId = (case kc_regId c of None \<Rightarrow> 0 | Some i \<Rightarrow> i)\<rparr>"])
      (simp_all add: encrypt_def bindE_def withSession_def spec_store_simps payload_of_def)
qed

lemma decrypt_eq:
  assumes "env_type e \<noteq> 1" and "payload_of e = Inr v" and "to_wire v = Inr w" and "kc_sessions c p = Some s"
    and "receive W (w_h w) (s, r) = (Inr mk, (s', r'))"
  shows "decrypt W (spec_store a) p e (c, r) =
    (map_sum (\<lambda>e. e) text_decode (aesGcmDecrypt W mk (w_ct w) (w_iv w)), (put_session p s' c, r'))"
  using assms
  by (simp add: decrypt_def bindE_def withSession_def spec_store_simps payload_of_def split: sum.split)

lemma decrypt_prekey_eq:
  assumes "env_type e = 1" and "payload_of e = Inr v" and "to_prekey_wire v = Inr pw" and "to_wire v = Inr w"
    and "initSessionFromPreKey W (spec_store a) p pw (c, r) = (Inr s, (c1, r1))"
    and "receive W (w_h w) (s, r1) = (Inr mk, (s', r'))"
  shows "decrypt W (spec_store a) p e (c, r) =
    (map_sum (\<lambda>e. e) text_decode (aesGcmDecrypt W mk (w_ct w) (w_iv w)), (put_session p s' c1, r'))"
  using assms
  by (simp add: decrypt_def bindE_def withSession_def spec_store_simps payload_of_def split: sum.split)

end
