(* ===== verification/Handshake.thy ===== *)
theory Handshake
  imports Messages
begin

text \<open>
  X3DH and the ratchet's start: an initiator who verified a bundle and the responder who published
  it derive the same root key and the same first chain. \<open>linked\<close> is the relation between two
  sessions the double ratchet maintains; the handshake establishes it and each ratchet step of the
  side that is behind swaps the roles.
\<close>

section \<open>The double ratchet's invariant\<close>

text \<open>
  \<open>X\<close> has ratcheted last: its ratchet key is one \<open>Y\<close> has not seen. \<open>ckx\<close> and \<open>cky\<close> are the chain
  keys the two current sending chains started from.
\<close>

definition linked :: "('r, 'k) webcrypto \<Rightarrow> jstr \<Rightarrow> jstr \<Rightarrow> RatchetSession \<Rightarrow> RatchetSession \<Rightarrow> bool" where
  "linked W ckx cky X Y \<longleftrightarrow>
     dh_keypair W (ourRatchetPublic X) (ourRatchetPrivate X) \<and>
     dh_keypair W (ourRatchetPublic Y) (ourRatchetPrivate Y) \<and>
     theirRatchetPublic X = Some (ourRatchetPublic Y) \<and>
     theirRatchetPublic Y \<noteq> Some (ourRatchetPublic X) \<and>
     (\<forall>n. skipped Y (skippedKey (ourRatchetPublic X) n) = None) \<and>
     (\<exists>d. dh W (ourRatchetPrivate Y) (ourRatchetPublic X) = Inr d \<and>
          kdfRootKey W (rootKey Y) d = Inr (rootKey X, ckx)) \<and>
     sending W ckx X \<and> sending W cky Y \<and> pendingPreKeyMsg X = None \<and> pendingPreKeyMsg Y = None"

definition fresh_for :: "jstr \<Rightarrow> RatchetSession \<Rightarrow> bool" where
  "fresh_for k s \<longleftrightarrow> theirRatchetPublic s \<noteq> Some k \<and> (\<forall>n. skipped s (skippedKey k n) = None)"

text \<open>The key pair the random source yields next.\<close>

definition next_public :: "('r, 'k) webcrypto \<Rightarrow> 'r \<Rightarrow> jstr" where
  "next_public W r = bufToBase64 (rawOf W r)"

definition next_private :: "('r, 'k) webcrypto \<Rightarrow> 'r \<Rightarrow> jstr" where
  "next_private W r = json_stringify (jwkOf W r)"

lemma next_keypair: "dh_keypair W (next_public W r) (next_private W r)"
  by (simp add: next_public_def next_private_def generated_dh_keypair)

lemma onR_generate: "onR (generateDHKeyPair W) (s, r) =
    (Inr \<lparr>publicKeyRaw = next_public W r, privateKeyJwk = next_private W r\<rparr>, (s, snd (generateKey W r)))"
  by (simp add: onR_def generateDHKeyPair_eq next_public_def next_private_def)

section \<open>Bundles\<close>

text \<open>
  The bundle names keys of \<open>c\<close>, each made by generateDHKeyPair, and its signature verifies.
\<close>

definition publishes :: "('r, 'k) webcrypto \<Rightarrow> key_contents \<Rightarrow> PreKeyBundle \<Rightarrow> bool" where
  "publishes W c b \<longleftrightarrow> (\<exists>ik spk.
     kc_identity c = Some ik \<and> b_identityKey b = ik_publicKey ik \<and>
     dh_keypair W (ik_publicKey ik) (ik_privateKey ik) \<and>
     kc_signedPreKeys c (bspk_id (b_signedPreKey b)) = Some spk \<and>
     bspk_publicKey (b_signedPreKey b) = pk_publicKey spk \<and>
     dh_keypair W (pk_publicKey spk) (pk_privateKey spk) \<and>
     verifyPreKey W (b_identityKey b) (bspk_publicKey (b_signedPreKey b)) (bspk_signature (b_signedPreKey b)) \<and>
     (\<forall>p. b_oneTimePreKey b = Some p \<longrightarrow> (\<exists>opk. kc_preKeys c (bopk_id p) = Some opk \<and>
        bopk_publicKey p = pk_publicKey opk \<and> dh_keypair W (pk_publicKey opk) (pk_privateKey opk))))"

definition has_identity :: "('r, 'k) webcrypto \<Rightarrow> key_contents \<Rightarrow> bool" where
  "has_identity W c \<longleftrightarrow> (\<exists>ik. kc_identity c = Some ik \<and> dh_keypair W (ik_publicKey ik) (ik_privateKey ik))"

definition consumed :: "PreKeyBundle \<Rightarrow> key_contents \<Rightarrow> key_contents" where
  "consumed b c = (case b_oneTimePreKey b of None \<Rightarrow> c
     | Some p \<Rightarrow> c\<lparr>kc_preKeys := (kc_preKeys c)(bopk_id p := None)\<rparr>)"

text \<open>What the initiator's first message tells of its session.\<close>

definition greeting :: "RatchetSession \<Rightarrow> PreKeyWireMessage \<Rightarrow> bool" where
  "greeting s pw \<longleftrightarrow> h_rk (w_h pw) = ourRatchetPublic s \<and>
     pendingPreKeyMsg s = Some \<lparr>pend_identityKey = w_ik pw, pend_ephemeralKey = w_ek pw,
       pend_spkId = w_spkId pw, pend_opkId = w_opkId pw\<rparr>"

lemma greeting_prekey_wire:
  "pendingPreKeyMsg s = Some pk \<Longrightarrow> h_rk (w_h w) = ourRatchetPublic s \<Longrightarrow> greeting s (prekey_wire pk w)"
  by (simp add: greeting_def prekey_wire_def)

lemma consumePreKey_published:
  fixes W :: "('r, 'k) webcrypto"
  assumes "publishes W c b"
  obtains opk where "\<forall>a (r :: 'r). consumePreKey (spec_store a) (map_option bopk_id (b_oneTimePreKey b)) (c, r) =
      (Inr opk, (consumed b c, r))"
    "rel_option (\<lambda>pub priv. dh_keypair W pub priv) (map_option bopk_publicKey (b_oneTimePreKey b)) opk"
proof (cases "b_oneTimePreKey b")
  case None
  then show thesis by (intro that [of None]) (simp_all add: consumePreKey_def consumed_def)
next
  case (Some p)
  with assms obtain k where "kc_preKeys c (bopk_id p) = Some k" "bopk_publicKey p = pk_publicKey k"
    "dh_keypair W (pk_publicKey k) (pk_privateKey k)" by (auto simp: publishes_def)
  with Some show thesis
    by (intro that [of "Some (pk_privateKey k)"])
      (simp_all add: consumePreKey_def consumed_def bindE_def spec_store_simps)
qed

text \<open>
  Where the keys of a new session come from: its root key from a call of kdfRootKey, its ratchet pair from
  the random source, for the initiator the second pair it draws; no key is kept for later.
\<close>

definition rooted :: "('r, 'k) webcrypto \<Rightarrow> RatchetSession \<Rightarrow> bool" where
  "rooted W s \<longleftrightarrow> (\<exists>root d ck. kdfRootKey W root d = Inr (rootKey s, ck))"

definition drawn_at :: "('r, 'k) webcrypto \<Rightarrow> 'r \<Rightarrow> RatchetSession \<Rightarrow> bool" where
  "drawn_at W r s \<longleftrightarrow> ourRatchetPublic s = next_public W r \<and> ourRatchetPrivate s = next_private W r \<and>
     prevSendCount s = 0 \<and> rooted W s \<and> (\<forall>k n. skipped s (skippedKey k n) = None)"

section \<open>The handshake\<close>

text \<open>
  Both sides of the handshake. The session the initiator stores sends from the chain \<open>ck\<close>; whenever
  the responder is greeted by it, the responder's session awaits that chain and is linked to the
  initiator's (once that has sent its first message and dropped the pending parameters).
\<close>

lemma handshake:
  fixes W :: "('r, 'k) webcrypto"
  assumes laws: "jwk_law W" "ecdh_law W" "hkdf_law W"
    and alice: "has_identity W cA" and bob: "publishes W cB b"
  obtains s ck where
    "initSessionFromBundle W (spec_store a) p b (cA, r) =
       (Inr (), (put_session p s cA, snd (generateKey W (snd (generateKey W r)))))"
    "sending W ck s" "sendCount s = 0" "prevSendCount s = 0" "recvChainKey s = None" "isInitiator s"
    "dh_keypair W (ourRatchetPublic s) (ourRatchetPrivate s)"
    "theirRatchetPublic s = Some (bspk_publicKey (b_signedPreKey b))"
    "skipped s = Map.empty" "drawn_at W (snd (generateKey W r)) s"
    "\<exists>pk. pendingPreKeyMsg s = Some pk \<and> latin1 (pend_identityKey pk) \<and> latin1 (pend_ephemeralKey pk)"
    "\<forall>pw q rb a'. greeting s pw \<longrightarrow> next_public W rb \<noteq> bspk_publicKey (b_signedPreKey b) \<longrightarrow>
       (\<exists>t cks. initSessionFromPreKey W (spec_store a') q pw (cB, rb) =
           (Inr t, (put_session q t (consumed b cB), snd (generateKey W rb))) \<and>
         awaiting W (ourRatchetPublic s) ck {0..} t \<and> recvCount t = 0 \<and> sendCount t = 0 \<and>
         drawn_at W rb t \<and>
         (\<forall>n. 0 \<le> n \<longrightarrow> linked W cks ck t (s\<lparr>sendChainKey := Some (chain_key W ck (nat n)), sendCount := n,
            pendingPreKeyMsg := None\<rparr>)))"
proof -
  obtain idA where idA: "kc_identity cA = Some idA" "dh_keypair W (ik_publicKey idA) (ik_privateKey idA)"
    using alice by (auto simp: has_identity_def)
  obtain idB spk where idB: "kc_identity cB = Some idB" "b_identityKey b = ik_publicKey idB"
      "dh_keypair W (ik_publicKey idB) (ik_privateKey idB)"
    and spk: "kc_signedPreKeys cB (bspk_id (b_signedPreKey b)) = Some spk"
      "bspk_publicKey (b_signedPreKey b) = pk_publicKey spk" "dh_keypair W (pk_publicKey spk) (pk_privateKey spk)"
    and valid: "verifyPreKey W (b_identityKey b) (bspk_publicKey (b_signedPreKey b)) (bspk_signature (b_signedPreKey b))"
    using bob unfolding publishes_def by blast
  define r1 where "r1 = snd (generateKey W r)"
  define ek where "ek = next_public W r"
  define a0 where "a0 = next_public W r1"
  have kp: "dh_keypair W ek (next_private W r)" "dh_keypair W a0 (next_private W r1)"
    unfolding ek_def a0_def by (rule next_keypair)+
  obtain opk where opk: "\<forall>a' (rb :: 'r). consumePreKey (spec_store a') (map_option bopk_id (b_oneTimePreKey b)) (cB, rb) =
      (Inr opk, (consumed b cB, rb))"
    "rel_option (\<lambda>pub priv. dh_keypair W pub priv) (map_option bopk_publicKey (b_oneTimePreKey b)) opk"
    by (rule consumePreKey_published [OF bob])
  obtain sk where sk: "x3dh W (ik_privateKey idA) (next_private W r) (ik_publicKey idB) (pk_publicKey spk)
        (map_option bopk_publicKey (b_oneTimePreKey b)) = Inr sk"
    "x3dhRespond W (ik_privateKey idB) (pk_privateKey spk) opk (ik_publicKey idA) ek = Inr sk"
    by (rule x3dh_shared [OF laws idA(2) kp(1) idB(3) spk(3) opk(2)])
  obtain d where d: "dh W (next_private W r1) (pk_publicKey spk) = Inr d" "dh W (pk_privateKey spk) a0 = Inr d"
    by (rule dh_comm [OF laws(1,2) kp(2) spk(3)])
  obtain rk ck where rk: "kdfRootKey W (bufToHex sk) d = Inr (rk, ck)" "key32 rk" "key32 ck"
    by (rule kdfRootKey_total [OF laws(3)])
  let ?pk = "\<lparr>pend_identityKey = ik_publicKey idA, pend_ephemeralKey = ek,
     pend_spkId = bspk_id (b_signedPreKey b), pend_opkId = map_option bopk_id (b_oneTimePreKey b)\<rparr>"
  let ?s = "\<lparr>rootKey = rk, sendChainKey = Some ck, recvChainKey = None, sendCount = 0, recvCount = 0,
     prevSendCount = 0, ourRatchetPublic = a0, ourRatchetPrivate = next_private W r1,
     theirRatchetPublic = Some (pk_publicKey spk), skipped = Map.empty, isInitiator = True,
     pendingPreKeyMsg = Some ?pk\<rparr>"
  have init: "initSessionFromBundle W (spec_store a) p b (cA, r) = (Inr (), (put_session p ?s cA, snd (generateKey W (snd (generateKey W r)))))"
    using valid idA idB(2) spk(2) sk(1) d(1) rk(1)
    by (simp add: initSessionFromBundle_def Let_def bindE_def spec_store_simps onR_generate
      r1_def ek_def a0_def)
  have respond: "\<exists>t cks. initSessionFromPreKey W (spec_store a') q pw (cB, rb) =
           (Inr t, (put_session q t (consumed b cB), snd (generateKey W rb))) \<and>
         awaiting W (ourRatchetPublic ?s) ck {0..} t \<and> recvCount t = 0 \<and> sendCount t = 0 \<and>
         drawn_at W rb t \<and>
         (\<forall>n. 0 \<le> n \<longrightarrow> linked W cks ck t (?s\<lparr>sendChainKey := Some (chain_key W ck (nat n)), sendCount := n,
            pendingPreKeyMsg := None\<rparr>))"
    if greet: "greeting ?s pw" and fresh: "next_public W rb \<noteq> bspk_publicKey (b_signedPreKey b)" for pw q rb a'
  proof -
    have pw: "h_rk (w_h pw) = a0" "w_ik pw = ik_publicKey idA" "w_ek pw = ek"
      "w_spkId pw = bspk_id (b_signedPreKey b)" "w_opkId pw = map_option bopk_id (b_oneTimePreKey b)"
      using greet by (simp_all add: greeting_def)
    obtain d2 where d2: "dh W (next_private W rb) a0 = Inr d2" "dh W (next_private W r1) (next_public W rb) = Inr d2"
      by (rule dh_comm [OF laws(1,2) next_keypair kp(2)])
    obtain rk2 cks where rk2: "kdfRootKey W rk d2 = Inr (rk2, cks)" "key32 cks"
      by (rule kdfRootKey_total [OF laws(3)])
    let ?t = "\<lparr>rootKey = rk2, sendChainKey = Some cks, recvChainKey = Some ck, sendCount = 0, recvCount = 0,
       prevSendCount = 0, ourRatchetPublic = next_public W rb, ourRatchetPrivate = next_private W rb,
       theirRatchetPublic = Some a0, skipped = Map.empty, isInitiator = False, pendingPreKeyMsg = None\<rparr>"
    have "initSessionFromPreKey W (spec_store a') q pw (cB, rb) =
        (Inr ?t, (put_session q ?t (consumed b cB), snd (generateKey W rb)))"
      using idB(1) spk(1) sk(2) d(2) rk(1) d2(1) rk2(1) opk(1)
      by (simp add: initSessionFromPreKey_def Let_def bindE_def spec_store_simps onR_generate pw)
    moreover have "awaiting W a0 ck {0..} ?t"
      using dh_keypair_public(1) [OF laws(2) kp(2)] rk(3) by (simp add: awaiting_def)
    moreover have "linked W cks ck ?t (?s\<lparr>sendChainKey := Some (chain_key W ck (nat n)), sendCount := n,
            pendingPreKeyMsg := None\<rparr>)" if "0 \<le> n" for n
      using that fresh spk(2) kp(2) next_keypair d2(2) rk2 rk(3) by (simp add: linked_def sending_def)
    moreover have "drawn_at W rb ?t" using rk2(1) by (auto simp: drawn_at_def rooted_def)
    ultimately show ?thesis by (intro exI [of _ ?t] exI [of _ cks]) simp
  qed
  have ends: "latin1 (ik_publicKey idA)" "latin1 ek"
    using dh_keypair_public(2) [OF laws(2)] idA(2) kp(1) by blast+
  have drawn: "drawn_at W (snd (generateKey W r)) ?s" using rk(1) by (auto simp: drawn_at_def rooted_def a0_def r1_def)
  show thesis
    by (rule that [OF init])
      ((use rk(3) kp(2) spk(2) ends drawn in \<open>simp add: sending_def; fail\<close>) | (intro allI impI, erule (1) respond))+
qed

end
