(* ===== verification/Conversation.thy ===== *)
theory Conversation
  imports Handshake
begin

text \<open>
  Two managers that talk to each other. \<open>chat_step\<close> interleaves their calls of \<open>encrypt\<close> and
  \<open>decrypt\<close> in any order over a transport that keeps the order of each direction; \<open>chat_inv\<close> is its
  invariant: one side has ratcheted last, the messages on their way are the ones the other's chains
  await.
\<close>

section \<open>Receiving, seen from the invariant\<close>

definition key_laws :: "('r, 'k) webcrypto \<Rightarrow> bool" where
  "key_laws W \<longleftrightarrow> jwk_law W \<and> ecdh_law W \<and> hkdf_law W \<and> hmac_law W \<and> gcm_law W"

lemma key_lawsD:
  assumes "key_laws W"
  shows "jwk_law W" "ecdh_law W" "hkdf_law W" "hmac_law W" "gcm_law W"
  using assms by (simp_all add: key_laws_def)

lemma subtle_key_laws: "subtle_laws W \<Longrightarrow> key_laws W"
  by (simp add: subtle_laws_def key_laws_def)

text \<open>The session that is behind sees the new ratchet key: afterwards it is the one ahead.\<close>

lemma dhRatchet_linked:
  fixes W :: "('r, 'k) webcrypto"
  assumes laws: "key_laws W" and link: "linked W ckx cky X Y" and fresh: "fresh_for (next_public W r) X"
    and old: "recvChainKey Y = None \<or> (\<exists>xo cko todo. awaiting W xo cko todo Y \<and> pn \<le> recvCount Y + MAX_SKIP)"
  obtains Y' ckn where
    "dhRatchet W (ourRatchetPublic X) pn (Y, r) = (Inr (), (Y', snd (generateKey W r)))"
    "linked W ckn ckx Y' X" "awaiting W (ourRatchetPublic X) ckx {0..} Y'" "recvCount Y' = 0" "sendCount Y' = 0"
    "prevSendCount Y' = sendCount Y" "ourRatchetPublic Y' = next_public W r"
proof -
  note laws = key_lawsD [OF laws]
  let ?k = "ourRatchetPublic X"
  obtain Y1 where Y1: "skipMessageKeys W pn Y = (Inr (), Y1)"
    "Y1 = Y\<lparr>skipped := skipped Y1, recvChainKey := recvChainKey Y1, recvCount := recvCount Y1\<rparr>"
    "\<forall>n. skipped Y1 (skippedKey ?k n) = None"
  proof (cases "recvChainKey Y = None")
    case True
    with link that [of Y] show thesis by (simp add: skipMessageKeys_cases linked_def)
  next
    case False
    with old obtain xo cko todo where a: "awaiting W xo cko todo Y" "pn \<le> recvCount Y + MAX_SKIP" by blast
    then have "?k \<noteq> xo" using link by (auto simp: awaiting_def linked_def)
    obtain Y1 where "skipMessageKeys W pn Y = (Inr (), Y1)"
      "Y1 = Y\<lparr>skipped := skipped Y1, recvChainKey := recvChainKey Y1, recvCount := recvCount Y1\<rparr>"
      "\<And>rk n. rk \<noteq> xo \<Longrightarrow> skipped Y1 (skippedKey rk n) = skipped Y (skippedKey rk n)"
      by (rule awaiting_skip [OF laws(4) a]) blast
    with \<open>?k \<noteq> xo\<close> link that [of Y1] show thesis by (simp add: linked_def)
  qed
  have same: "ourRatchetPrivate Y1 = ourRatchetPrivate Y" "rootKey Y1 = rootKey Y" "sendCount Y1 = sendCount Y"
    "ourRatchetPublic Y1 = ourRatchetPublic Y" "pendingPreKeyMsg Y1 = pendingPreKeyMsg Y"
    by (subst Y1(2), simp)+
  have kpX: "dh_keypair W ?k (ourRatchetPrivate X)" using link by (simp add: linked_def)
  obtain d1 where d1: "dh W (ourRatchetPrivate Y) ?k = Inr d1" "kdfRootKey W (rootKey Y) d1 = Inr (rootKey X, ckx)"
    using link by (auto simp: linked_def)
  obtain d2 where d2: "dh W (next_private W r) ?k = Inr d2" "dh W (ourRatchetPrivate X) (next_public W r) = Inr d2"
    by (rule dh_comm [OF laws(1,2) next_keypair kpX])
  obtain rk ckn where kdf: "kdfRootKey W (rootKey X) d2 = Inr (rk, ckn)" "key32 ckn"
    by (rule kdfRootKey_total [OF laws(3)])
  let ?Y = "Y1\<lparr>recvChainKey := Some ckx, rootKey := rk, recvCount := 0, sendChainKey := Some ckn,
     prevSendCount := sendCount Y, sendCount := 0, ourRatchetPublic := next_public W r,
     ourRatchetPrivate := next_private W r, theirRatchetPublic := Some ?k\<rparr>"
  have "dhRatchet W ?k pn (Y, r) = (Inr (), (?Y, snd (generateKey W r)))"
    using Y1(1) same d1 d2(1) kdf(1)
    by (simp add: dhRatchet_def onS_def getS_def modS_def bindE_def onR_generate)
  moreover have "linked W ckn ckx ?Y X"
    using link fresh kpX next_keypair d2(2) kdf same by (auto simp: linked_def sending_def fresh_for_def)
  moreover have "awaiting W ?k ckx {0..} ?Y"
    using Y1(3) link dh_keypair_public(1) [OF laws(2) kpX] by (simp add: awaiting_def linked_def sending_def)
  ultimately show thesis by (intro that [of ?Y ckn]) simp_all
qed

text \<open>Receiving a message under a ratchet key the session knows.\<close>

lemma receive_known:
  assumes laws: "key_laws W" and a: "awaiting W their ck todo s"
    and h: "h_rk h = their" "h_n h \<in> todo" "0 \<le> h_n h" "h_n h \<le> recvCount s + MAX_SKIP"
  obtains s' where "receive W h (s, r) = (Inr (message_key W ck (nat (h_n h))), (s', r))"
    "awaiting W their ck (todo - {h_n h}) s'" "recvCount s' = max (recvCount s) (h_n h + 1)"
    "s' = s\<lparr>skipped := skipped s', recvChainKey := recvChainKey s', recvCount := recvCount s'\<rparr>"
    "\<And>rk n. rk \<noteq> their \<Longrightarrow> skipped s' (skippedKey rk n) = skipped s (skippedKey rk n)"
proof -
  obtain s' where s': "takeMessageKey W their (h_n h) s = (Inr (message_key W ck (nat (h_n h))), s')"
    "awaiting W their ck (todo - {h_n h}) s'" "recvCount s' = max (recvCount s) (h_n h + 1)"
    "s' = s\<lparr>skipped := skipped s', recvChainKey := recvChainKey s', recvCount := recvCount s'\<rparr>"
    "\<And>rk n. rk \<noteq> their \<Longrightarrow> skipped s' (skippedKey rk n) = skipped s (skippedKey rk n)"
    by (rule takeMessageKey_awaiting [OF key_lawsD(4) [OF laws] a h(2-4)]) blast
  moreover have "receive W h (s, r) = (Inr (message_key W ck (nat (h_n h))), (s', r))"
    using a h(1) s'(1) by (simp add: receive_def getS_def onS_def bindE_def awaiting_def)
  ultimately show thesis by (intro that)
qed

lemma linked_receiving:
  assumes "linked W ckx cky X Y"
    and "s' = s\<lparr>skipped := skipped s', recvChainKey := recvChainKey s', recvCount := recvCount s'\<rparr>"
  shows "s = X \<Longrightarrow> linked W ckx cky s' Y"
    and "s = Y \<Longrightarrow> \<forall>n. skipped s' (skippedKey (ourRatchetPublic X) n) = None \<Longrightarrow> linked W ckx cky X s'"
  by (subst assms(2), use assms(1) in \<open>simp add: linked_def sending_def\<close>)+

lemma linked_sending:
  assumes "linked W ckx cky X Y"
  shows "linked W ckx cky (X\<lparr>sendChainKey := Some (chain_key W ckx (Suc (nat (sendCount X)))), sendCount := sendCount X + 1\<rparr>) Y"
    and "linked W ckx cky X (Y\<lparr>sendChainKey := Some (chain_key W cky (Suc (nat (sendCount Y)))), sendCount := sendCount Y + 1\<rparr>)"
proof -
  have "Suc (nat i) = nat (i + 1)" if "0 \<le> i" for i :: int using that by simp
  with assms show "linked W ckx cky (X\<lparr>sendChainKey := Some (chain_key W ckx (Suc (nat (sendCount X)))), sendCount := sendCount X + 1\<rparr>) Y"
    "linked W ckx cky X (Y\<lparr>sendChainKey := Some (chain_key W cky (Suc (nat (sendCount Y)))), sendCount := sendCount Y + 1\<rparr>)"
    by (simp_all add: linked_def sending_def)
qed

section \<open>Messages on their way\<close>

text \<open>Envelopes with the texts they were made from, and the numbers they carry.\<close>

definition carries :: "('r, 'k) webcrypto \<Rightarrow> jstr \<Rightarrow> jstr \<Rightarrow> int \<Rightarrow> int \<Rightarrow> EncryptedEnvelope \<times> jstr \<Rightarrow> bool" where
  "carries W rk ck pn n m \<longleftrightarrow> (\<exists>w. env_type (fst m) = 2 \<and> payload_of (fst m) = Inr (wire_json w) \<and>
     sealed W rk ck w (snd m) \<and> h_n (w_h w) = n \<and> h_pn (w_h w) = pn \<and> encodable (snd m))"

definition carried :: "('r, 'k) webcrypto \<Rightarrow> jstr \<Rightarrow> jstr \<Rightarrow> int \<Rightarrow> int list \<Rightarrow> (EncryptedEnvelope \<times> jstr) list \<Rightarrow> bool" where
  "carried W rk ck pn ns ms \<longleftrightarrow> list_all2 (carries W rk ck pn) ns ms"

lemma encrypt_carries:
  assumes laws: "key_laws W" and s: "sending W ck s" and kp: "dh_keypair W (ourRatchetPublic s) priv"
    and "pendingPreKeyMsg s = None" and c: "kc_sessions c p = Some s" and "encodable t"
  obtains e where "encrypt W (spec_store a) p t (c, r) = (Inr e, (put_session p
      (s\<lparr>sendChainKey := Some (chain_key W ck (Suc (nat (sendCount s)))), sendCount := sendCount s + 1\<rparr>) c, snd (randomBytes W 12 r)))"
    "carries W (ourRatchetPublic s) ck (prevSendCount s) (sendCount s) (e, t)"
proof -
  note laws = key_lawsD [OF laws]
  let ?s = "s\<lparr>sendChainKey := Some (chain_key W ck (Suc (nat (sendCount s)))), sendCount := sendCount s + 1\<rparr>"
  obtain w where w: "h_rk (w_h w) = ourRatchetPublic s" "h_n (w_h w) = sendCount s" "h_pn (w_h w) = prevSendCount s"
      "sealed W (ourRatchetPublic s) ck w t" "latin1 (w_ct w)" "latin1 (w_iv w)"
    and run: "sealMessage W t (s, r) =
       (case (if isInitiator s \<and> sendCount s = 0 then pendingPreKeyMsg s else None) of
          Some pk \<Rightarrow> (Inr (1, prekey_wire_json (prekey_wire pk w)), (?s\<lparr>pendingPreKeyMsg := None\<rparr>, snd (randomBytes W 12 r)))
        | None \<Rightarrow> (Inr (2, wire_json w), (?s, snd (randomBytes W 12 r))))"
    by (rule sealMessage_sending [OF laws(4,5) s])
  have seal: "sealMessage W t (s, r) = (Inr (2, wire_json w), (?s, snd (randomBytes W 12 r)))"
    using run assms(4) by simp
  have l: "json_latin1 (wire_json w)"
    using w dh_keypair_public(2) [OF laws(2) kp] by (intro wire_json_wf(3)) (simp add: latin1_wire_def)
  obtain e where "encrypt W (spec_store a) p t (c, r) = (Inr e, (put_session p ?s c, snd (randomBytes W 12 r)))"
    "env_type e = 2" "payload_of e = Inr (wire_json w)"
    by (rule encrypt_eq [OF c seal wire_json_wf(1) l])
  with w assms(6) show thesis by (intro that [of e]) (auto simp: carries_def)
qed

lemma decrypt_carried:
  assumes m: "carries W rk ck pn n (e, t)" and c: "kc_sessions c p = Some s"
    and rec: "receive W \<lparr>h_rk = rk, h_n = n, h_pn = pn\<rparr> (s, r) = (Inr (message_key W ck (nat n)), (s', r'))"
  shows "decrypt W (spec_store a) p e (c, r) = (Inr t, (put_session p s' c, r'))"
proof -
  obtain w where w: "env_type e = 2" "payload_of e = Inr (wire_json w)" "sealed W rk ck w t"
    "h_n (w_h w) = n" "h_pn (w_h w) = pn" "encodable t"
    using m by (auto simp: carries_def)
  have "w_h w = \<lparr>h_rk = rk, h_n = n, h_pn = pn\<rparr>"
    using w(3-5) by (cases "w_h w") (simp add: sealed_def)
  with rec have "receive W (w_h w) (s, r) = (Inr (message_key W ck (nat n)), (s', r'))" by simp
  from decrypt_eq [OF _ w(2) to_wire_json(1) c this, of a] w(1,3,4,6) show ?thesis
    by (simp add: sealed_def text_roundtrip)
qed

section \<open>Conversations\<close>

datatype party = Alice | Bob

fun other :: "party \<Rightarrow> party" where
  "other Alice = Bob"
| "other Bob = Alice"

lemma other_simps [simp]: "other (other w) = w" "other w \<noteq> w" "w \<noteq> other w"
  by (cases w; simp)+

lemma other_cases: "v = w \<or> v = other w"
  by (cases v; cases w; simp)

text \<open>
  The state of a conversation: the contents of both key stores, the random source and, for each
  party, the envelopes on their way to it, oldest first. The second components are the texts that
  were encrypted; no step reads them.
\<close>

record 'r chat =
  stores :: "party \<Rightarrow> key_contents"
  rand :: 'r
  inbox :: "party \<Rightarrow> (EncryptedEnvelope \<times> jstr) list"

text \<open>
  \<open>pid\<close> names the parties; a party keeps the session under the name of the other. The key pair the
  random source would yield next must not be one the other side has seen.
\<close>

definition fresh_key :: "('r, 'k) webcrypto \<Rightarrow> (party \<Rightarrow> jstr) \<Rightarrow> 'r chat \<Rightarrow> party \<Rightarrow> bool" where
  "fresh_key W pid S w \<longleftrightarrow> (case kc_sessions (stores S (other w)) (pid w) of
     None \<Rightarrow> False | Some s \<Rightarrow> fresh_for (next_public W (rand S)) s)"

inductive chat_step :: "('r, 'k) webcrypto \<Rightarrow> bool \<Rightarrow> (party \<Rightarrow> jstr) \<Rightarrow> 'r chat \<Rightarrow> 'r chat \<Rightarrow> bool"
  for W a pid where
  send: "encodable t \<Longrightarrow>
    encrypt W (spec_store a) (pid (other w)) t (stores S w, rand S) = (Inr e, (c, r)) \<Longrightarrow>
    chat_step W a pid S (S\<lparr>stores := (stores S)(w := c), rand := r,
      inbox := (inbox S)(other w := inbox S (other w) @ [(e, t)])\<rparr>)"
| deliver: "inbox S w = (e, t) # ms \<Longrightarrow> fresh_key W pid S w \<Longrightarrow>
    decrypt W (spec_store a) (pid (other w)) e (stores S w, rand S) = (res, (c, r)) \<Longrightarrow>
    chat_step W a pid S (S\<lparr>stores := (stores S)(w := c), rand := r, inbox := (inbox S)(w := ms)\<rparr>)"

inductive_cases chat_stepE: "chat_step W a pid S T"

inductive chat_reachable :: "('r, 'k) webcrypto \<Rightarrow> bool \<Rightarrow> (party \<Rightarrow> jstr) \<Rightarrow> 'r chat \<Rightarrow> 'r chat \<Rightarrow> bool"
  for W a pid S0 where
  start: "chat_reachable W a pid S0 S0"
| step: "chat_reachable W a pid S0 S \<Longrightarrow> chat_step W a pid S T \<Longrightarrow> chat_reachable W a pid S0 T"

text \<open>
  The messages on their way to the side that is behind: the rest of the chain it receives now, then
  those of the chain the other side has started since.
\<close>

definition owed :: "('r, 'k) webcrypto \<Rightarrow> jstr \<Rightarrow> RatchetSession \<Rightarrow> RatchetSession \<Rightarrow> (EncryptedEnvelope \<times> jstr) list \<Rightarrow> bool" where
  "owed W ckx X Y ms \<longleftrightarrow> (\<exists>old new. ms = old @ new \<and>
     carried W (ourRatchetPublic X) ckx (prevSendCount X) [0..sendCount X - 1] new \<and>
     (recvChainKey Y = None \<and> old = [] \<or>
      (\<exists>xo cko pno. awaiting W xo cko {recvCount Y..} Y \<and>
         carried W xo cko pno [recvCount Y..prevSendCount X - 1] old)))"

definition chat_inv :: "('r, 'k) webcrypto \<Rightarrow> (party \<Rightarrow> jstr) \<Rightarrow> 'r chat \<Rightarrow> bool" where
  "chat_inv W pid S \<longleftrightarrow> (\<exists>x ckx cky X Y.
     kc_sessions (stores S x) (pid (other x)) = Some X \<and>
     kc_sessions (stores S (other x)) (pid x) = Some Y \<and>
     linked W ckx cky X Y \<and>
     awaiting W (ourRatchetPublic Y) cky {recvCount X..} X \<and>
     recvCount X \<le> sendCount Y \<and>
     carried W (ourRatchetPublic Y) cky (prevSendCount Y) [recvCount X..sendCount Y - 1] (inbox S x) \<and>
     owed W ckx X Y (inbox S (other x)))"

lemma chat_invI:
  assumes "kc_sessions (stores S x) (pid (other x)) = Some X"
    and "kc_sessions (stores S (other x)) (pid x) = Some Y"
    and "linked W ckx cky X Y"
    and "awaiting W (ourRatchetPublic Y) cky {recvCount X..} X"
    and "recvCount X \<le> sendCount Y"
    and "carried W (ourRatchetPublic Y) cky (prevSendCount Y) [recvCount X..sendCount Y - 1] (inbox S x)"
    and "owed W ckx X Y (inbox S (other x))"
  shows "chat_inv W pid S"
  using assms unfolding chat_inv_def by blast

lemma upto_snoc: "i \<le> j \<Longrightarrow> [i..j] = [i..j - 1] @ [j]" for i j :: int
  by (rule upto_rec2)

lemma carried_snoc:
  "carried W rk ck pn [i..n - 1] ms \<Longrightarrow> carries W rk ck pn n m \<Longrightarrow> i \<le> n \<Longrightarrow> carried W rk ck pn [i..n] (ms @ [m])"
  by (simp add: carried_def upto_snoc list_all2_appendI)

lemma carried_Cons:
  assumes "carried W rk ck pn [i..n] (m # ms)"
  shows "i \<le> n" "carries W rk ck pn i m" "carried W rk ck pn [i + 1..n] ms"
proof -
  have "[i..n] \<noteq> []" using assms by (auto simp: carried_def)
  then show "i \<le> n" by auto
  with assms show "carries W rk ck pn i m" "carried W rk ck pn [i + 1..n] ms"
    by (simp_all add: carried_def upto_rec1)
qed

lemma carried_Nil: "carried W rk ck pn [i..n] [] \<Longrightarrow> n < i"
  by (simp add: carried_def)

section \<open>Each step keeps the invariant\<close>

lemma receive_ratchet:
  fixes W :: "('r, 'k) webcrypto"
  assumes laws: "key_laws W" and link: "linked W ckx cky X Y" and fresh: "fresh_for (next_public W r) X"
    and old: "recvChainKey Y = None \<or> (\<exists>xo cko todo. awaiting W xo cko todo Y \<and> h_pn h \<le> recvCount Y + MAX_SKIP)"
    and h: "h_rk h = ourRatchetPublic X" "0 \<le> h_n h" "h_n h \<le> MAX_SKIP"
  obtains Y' ckn where
    "receive W h (Y, r) = (Inr (message_key W ckx (nat (h_n h))), (Y', snd (generateKey W r)))"
    "linked W ckn ckx Y' X" "awaiting W (ourRatchetPublic X) ckx ({0..} - {h_n h}) Y'" "recvCount Y' = h_n h + 1"
    "sendCount Y' = 0" "prevSendCount Y' = sendCount Y"
proof -
  obtain Y1 ckn where Y1:
    "dhRatchet W (ourRatchetPublic X) (h_pn h) (Y, r) = (Inr (), (Y1, snd (generateKey W r)))"
    "linked W ckn ckx Y1 X" "awaiting W (ourRatchetPublic X) ckx {0..} Y1" "recvCount Y1 = 0" "sendCount Y1 = 0"
    "prevSendCount Y1 = sendCount Y" "ourRatchetPublic Y1 = next_public W r"
    by (rule dhRatchet_linked [OF laws link fresh old])
  obtain Y2 where Y2: "takeMessageKey W (ourRatchetPublic X) (h_n h) Y1 = (Inr (message_key W ckx (nat (h_n h))), Y2)"
    "awaiting W (ourRatchetPublic X) ckx ({0..} - {h_n h}) Y2" "recvCount Y2 = max (recvCount Y1) (h_n h + 1)"
    "Y2 = Y1\<lparr>skipped := skipped Y2, recvChainKey := recvChainKey Y2, recvCount := recvCount Y2\<rparr>"
    by (rule takeMessageKey_awaiting [OF key_lawsD(4) [OF laws] Y1(3), of "h_n h"])
      (use h(2,3) Y1(4) in simp_all)
  have "receive W h (Y, r) = (Inr (message_key W ckx (nat (h_n h))), (Y2, snd (generateKey W r)))"
    using link h(1) Y1(1) Y2(1) by (simp add: receive_def getS_def onS_def bindE_def linked_def)
  moreover have "linked W ckn ckx Y2 X" using linked_receiving(1) [OF Y1(2) Y2(4)] by simp
  moreover have "sendCount Y2 = sendCount Y1" "prevSendCount Y2 = prevSendCount Y1" by (subst Y2(4), simp)+
  ultimately show thesis using Y1(4-6) Y2(2,3) h(2) by (intro that) simp_all
qed

lemma chat_inv_send:
  fixes W :: "('r, 'k) webcrypto"
  assumes laws: "key_laws W" and inv: "chat_inv W pid S" and "encodable t"
  obtains e c r where "encrypt W (spec_store a) (pid (other w)) t (stores S w, rand S) = (Inr e, (c, r))"
    "chat_inv W pid (S\<lparr>stores := (stores S)(w := c), rand := r,
       inbox := (inbox S)(other w := inbox S (other w) @ [(e, t)])\<rparr>)"
proof -
  obtain x ckx cky X Y where X: "kc_sessions (stores S x) (pid (other x)) = Some X"
    and Y: "kc_sessions (stores S (other x)) (pid x) = Some Y" and link: "linked W ckx cky X Y"
    and aw: "awaiting W (ourRatchetPublic Y) cky {recvCount X..} X"
    and le: "recvCount X \<le> sendCount Y"
    and chx: "carried W (ourRatchetPublic Y) cky (prevSendCount Y) [recvCount X..sendCount Y - 1] (inbox S x)"
    and owed: "owed W ckx X Y (inbox S (other x))"
    using inv unfolding chat_inv_def by blast
  note l = link [unfolded linked_def]
  show thesis
  proof (cases "w = x")
    case True
    let ?X = "X\<lparr>sendChainKey := Some (chain_key W ckx (Suc (nat (sendCount X)))), sendCount := sendCount X + 1\<rparr>"
    obtain e where e: "encrypt W (spec_store a) (pid (other x)) t (stores S x, rand S) =
        (Inr e, (put_session (pid (other x)) ?X (stores S x), snd (randomBytes W 12 (rand S))))"
      "carries W (ourRatchetPublic X) ckx (prevSendCount X) (sendCount X) (e, t)"
      by (rule encrypt_carries [OF laws _ _ _ X \<open>encodable t\<close>]) (use l in blast)+
    have "owed W ckx ?X Y (inbox S (other x) @ [(e, t)])"
      using owed e(2) l unfolding owed_def sending_def by (fastforce intro: carried_snoc)
    moreover have "linked W ckx cky ?X Y" by (rule linked_sending(1) [OF link])
    moreover have "awaiting W (ourRatchetPublic Y) cky {recvCount X..} ?X" using aw by (simp add: awaiting_def)
    ultimately show thesis using True e(1) X Y le chx
      by (intro that [of e "put_session (pid (other x)) ?X (stores S x)" "snd (randomBytes W 12 (rand S))"]
          chat_invI [where x = x and X = ?X and Y = Y and ckx = ckx and cky = cky]) simp_all
  next
    case False
    then have w: "w = other x" using other_cases by blast
    let ?Y = "Y\<lparr>sendChainKey := Some (chain_key W cky (Suc (nat (sendCount Y)))), sendCount := sendCount Y + 1\<rparr>"
    obtain e where e: "encrypt W (spec_store a) (pid x) t (stores S (other x), rand S) =
        (Inr e, (put_session (pid x) ?Y (stores S (other x)), snd (randomBytes W 12 (rand S))))"
      "carries W (ourRatchetPublic Y) cky (prevSendCount Y) (sendCount Y) (e, t)"
      by (rule encrypt_carries [OF laws _ _ _ Y \<open>encodable t\<close>]) (use l in blast)+
    have "carried W (ourRatchetPublic Y) cky (prevSendCount Y) [recvCount X..sendCount Y] (inbox S x @ [(e, t)])"
      by (rule carried_snoc [OF chx e(2) le])
    moreover have "linked W ckx cky X ?Y" by (rule linked_sending(2) [OF link])
    moreover have "owed W ckx X ?Y (inbox S (other x))" using owed by (simp add: owed_def awaiting_def)
    ultimately show thesis using w e(1) X Y le aw
      by (intro that [of e "put_session (pid x) ?Y (stores S (other x))" "snd (randomBytes W 12 (rand S))"]
          chat_invI [where x = x and X = X and Y = ?Y and ckx = ckx and cky = cky]) simp_all
  qed
qed

lemma chat_inv_deliver_ahead:
  fixes W :: "('r, 'k) webcrypto"
  assumes laws: "key_laws W" and X: "kc_sessions (stores S x) (pid (other x)) = Some X"
    and Y: "kc_sessions (stores S (other x)) (pid x) = Some Y" and link: "linked W ckx cky X Y"
    and aw: "awaiting W (ourRatchetPublic Y) cky {recvCount X..} X"
    and ch: "carried W (ourRatchetPublic Y) cky (prevSendCount Y) [recvCount X..sendCount Y - 1] (inbox S x)"
    and owed: "owed W ckx X Y (inbox S (other x))"
    and m: "inbox S x = (e, t) # ms"
  obtains c r where "decrypt W (spec_store a) (pid (other x)) e (stores S x, rand S) = (Inr t, (c, r))"
    "chat_inv W pid (S\<lparr>stores := (stores S)(x := c), rand := r, inbox := (inbox S)(x := ms)\<rparr>)"
proof -
  note mm = carried_Cons [OF ch [unfolded m]]
  have n0: "0 \<le> recvCount X" using aw by (simp add: awaiting_def)
  obtain X' where rec: "receive W \<lparr>h_rk = ourRatchetPublic Y, h_n = recvCount X, h_pn = prevSendCount Y\<rparr> (X, rand S) =
      (Inr (message_key W cky (nat (recvCount X))), (X', rand S))"
    and X': "awaiting W (ourRatchetPublic Y) cky ({recvCount X..} - {recvCount X}) X'"
      "recvCount X' = recvCount X + 1"
      "X' = X\<lparr>skipped := skipped X', recvChainKey := recvChainKey X', recvCount := recvCount X'\<rparr>"
    by (rule receive_known [OF laws aw, of "\<lparr>h_rk = ourRatchetPublic Y, h_n = recvCount X, h_pn = prevSendCount Y\<rparr>" "rand S"])
      (use n0 in \<open>simp_all add: MAX_SKIP_def\<close>)
  have run: "decrypt W (spec_store a) (pid (other x)) e (stores S x, rand S) =
      (Inr t, (put_session (pid (other x)) X' (stores S x), rand S))"
    by (rule decrypt_carried [OF mm(2) X rec])
  have todo: "{recvCount X..} - {recvCount X} = {recvCount X'..}" using X'(2) by auto
  have "linked W ckx cky X' Y" using linked_receiving(1) [OF link X'(3)] by simp
  moreover have "owed W ckx X' Y (inbox S (other x))"
    using owed unfolding owed_def by (subst (1 2 3 4) X'(3)) simp
  ultimately have "chat_inv W pid (S\<lparr>stores := (stores S)(x := put_session (pid (other x)) X' (stores S x)),
      rand := rand S, inbox := (inbox S)(x := ms)\<rparr>)"
    using Y X' mm(1,3) todo
    by (intro chat_invI [where x = x and X = X' and Y = Y and ckx = ckx and cky = cky]) simp_all
  with run show thesis by (rule that)
qed

lemma chat_inv_deliver_behind:
  fixes W :: "('r, 'k) webcrypto"
  assumes laws: "key_laws W" and X: "kc_sessions (stores S x) (pid (other x)) = Some X"
    and Y: "kc_sessions (stores S (other x)) (pid x) = Some Y" and link: "linked W ckx cky X Y"
    and aw: "awaiting W (ourRatchetPublic Y) cky {recvCount X..} X"
    and le: "recvCount X \<le> sendCount Y"
    and ch: "carried W (ourRatchetPublic Y) cky (prevSendCount Y) [recvCount X..sendCount Y - 1] (inbox S x)"
    and owed: "owed W ckx X Y (inbox S (other x))"
    and m: "inbox S (other x) = (e, t) # ms"
    and fresh: "fresh_for (next_public W (rand S)) X"
  obtains c r where "decrypt W (spec_store a) (pid x) e (stores S (other x), rand S) = (Inr t, (c, r))"
    "chat_inv W pid (S\<lparr>stores := (stores S)(other x := c), rand := r, inbox := (inbox S)(other x := ms)\<rparr>)"
proof -
  let ?k = "ourRatchetPublic X"
  obtain old new where on: "(e, t) # ms = old @ new"
    and new: "carried W ?k ckx (prevSendCount X) [0..sendCount X - 1] new"
    and old: "recvChainKey Y = None \<and> old = [] \<or> (\<exists>xo cko pno. awaiting W xo cko {recvCount Y..} Y \<and>
        carried W xo cko pno [recvCount Y..prevSendCount X - 1] old)"
    using owed unfolding owed_def m by blast
  show thesis
  proof (cases old)
    case Nil
    with on new have new': "carried W ?k ckx (prevSendCount X) [0..sendCount X - 1] ((e, t) # ms)" by simp
    let ?h = "\<lparr>h_rk = ?k, h_n = 0, h_pn = prevSendCount X\<rparr>"
    have lim: "recvChainKey Y = None \<or> (\<exists>xo cko todo. awaiting W xo cko todo Y \<and> h_pn ?h \<le> recvCount Y + MAX_SKIP)"
      using old Nil carried_Nil by (fastforce simp: MAX_SKIP_def)
    obtain Y' ckn where rec: "receive W ?h (Y, rand S) =
        (Inr (message_key W ckx (nat 0)), (Y', snd (generateKey W (rand S))))"
      and Y': "linked W ckn ckx Y' X" "awaiting W ?k ckx ({0..} - {0}) Y'" "recvCount Y' = 1"
        "sendCount Y' = 0" "prevSendCount Y' = sendCount Y"
      by (rule receive_ratchet [OF laws link fresh lim]) (simp_all add: MAX_SKIP_def)
    have run: "decrypt W (spec_store a) (pid x) e (stores S (other x), rand S) =
        (Inr t, (put_session (pid x) Y' (stores S (other x)), snd (generateKey W (rand S))))"
      by (rule decrypt_carried [OF carried_Cons(2) [OF new'] Y rec])
    have todo: "{0..} - {0} = {1 :: int..}" by auto
    have "owed W ckn Y' X (inbox S x)"
      using aw ch Y'(4,5) unfolding owed_def by (intro exI [of _ "inbox S x"] exI [of _ "[]"]) (auto simp: carried_def)
    then have "chat_inv W pid (S\<lparr>stores := (stores S)(other x := put_session (pid x) Y' (stores S (other x))),
        rand := snd (generateKey W (rand S)), inbox := (inbox S)(other x := ms)\<rparr>)"
      using X Y' carried_Cons [OF new'] todo
      by (intro chat_invI [where x = "other x" and X = Y' and Y = X and ckx = ckn and cky = ckx]) simp_all
    with run show thesis by (rule that)
  next
    case (Cons m old')
    with on have on': "m = (e, t)" "ms = old' @ new" by auto
    obtain xo cko pno where aw': "awaiting W xo cko {recvCount Y..} Y"
      and old': "carried W xo cko pno [recvCount Y..prevSendCount X - 1] ((e, t) # old')"
      using old Cons on' by auto
    have n0: "0 \<le> recvCount Y" and xo: "xo \<noteq> ?k"
      using aw' link by (auto simp: awaiting_def linked_def)
    obtain Y' where rec: "receive W \<lparr>h_rk = xo, h_n = recvCount Y, h_pn = pno\<rparr> (Y, rand S) =
        (Inr (message_key W cko (nat (recvCount Y))), (Y', rand S))"
      and Y': "awaiting W xo cko ({recvCount Y..} - {recvCount Y}) Y'" "recvCount Y' = recvCount Y + 1"
        "Y' = Y\<lparr>skipped := skipped Y', recvChainKey := recvChainKey Y', recvCount := recvCount Y'\<rparr>"
      and skip: "\<forall>n. skipped Y' (skippedKey ?k n) = skipped Y (skippedKey ?k n)"
      by (rule receive_known [OF laws aw', of "\<lparr>h_rk = xo, h_n = recvCount Y, h_pn = pno\<rparr>" "rand S"])
        (use n0 xo in \<open>auto simp: MAX_SKIP_def\<close>)
    have run: "decrypt W (spec_store a) (pid x) e (stores S (other x), rand S) =
        (Inr t, (put_session (pid x) Y' (stores S (other x)), rand S))"
      by (rule decrypt_carried [OF carried_Cons(2) [OF old'] Y rec])
    have todo: "{recvCount Y..} - {recvCount Y} = {recvCount Y'..}" using Y'(2) by auto
    have "linked W ckx cky X Y'"
      using linked_receiving(2) [OF link Y'(3)] skip link by (simp add: linked_def)
    moreover have "owed W ckx X Y' ms"
      using new on'(2) Y'(1,2) todo carried_Cons(3) [OF old'] unfolding owed_def by auto
    moreover have "ourRatchetPublic Y' = ourRatchetPublic Y" "sendCount Y' = sendCount Y"
      "prevSendCount Y' = prevSendCount Y" by (subst Y'(3), simp)+
    ultimately have "chat_inv W pid (S\<lparr>stores := (stores S)(other x := put_session (pid x) Y' (stores S (other x))),
        rand := rand S, inbox := (inbox S)(other x := ms)\<rparr>)"
      using X aw le ch
      by (intro chat_invI [where x = x and X = X and Y = Y' and ckx = ckx and cky = cky]) simp_all
    with run show thesis by (rule that)
  qed
qed

text \<open>Whoever is the receiver, the head of its inbox decrypts to the text that was encrypted.\<close>

lemma chat_inv_deliver:
  fixes W :: "('r, 'k) webcrypto"
  assumes laws: "key_laws W" and inv: "chat_inv W pid S"
    and m: "inbox S w = (e, t) # ms" and fresh: "fresh_key W pid S w"
  obtains c r where "decrypt W (spec_store a) (pid (other w)) e (stores S w, rand S) = (Inr t, (c, r))"
    "chat_inv W pid (S\<lparr>stores := (stores S)(w := c), rand := r, inbox := (inbox S)(w := ms)\<rparr>)"
proof -
  obtain x ckx cky X Y where X: "kc_sessions (stores S x) (pid (other x)) = Some X"
    and Y: "kc_sessions (stores S (other x)) (pid x) = Some Y" and link: "linked W ckx cky X Y"
    and aw: "awaiting W (ourRatchetPublic Y) cky {recvCount X..} X"
    and le: "recvCount X \<le> sendCount Y"
    and chx: "carried W (ourRatchetPublic Y) cky (prevSendCount Y) [recvCount X..sendCount Y - 1] (inbox S x)"
    and owed: "owed W ckx X Y (inbox S (other x))"
    using inv unfolding chat_inv_def by blast
  consider "w = x" | "w = other x" using other_cases by blast
  then show thesis
  proof cases
    case 1
    from m 1 have m': "inbox S x = (e, t) # ms" by simp
    show thesis
      by (rule chat_inv_deliver_ahead [OF laws X Y link aw chx owed m']) (use that 1 in simp)
  next
    case 2
    with fresh X have "fresh_for (next_public W (rand S)) X" by (simp add: fresh_key_def)
    from m 2 have m': "inbox S (other x) = (e, t) # ms" by simp
    show thesis
      by (rule chat_inv_deliver_behind [OF laws X Y link aw le chx owed m' \<open>fresh_for _ _\<close>]) (use that 2 in simp)
  qed
qed

lemma chat_inv_step:
  assumes "key_laws W" and "chat_inv W pid S" and "chat_step W a pid S T"
  shows "chat_inv W pid T"
  using assms(3)
proof (cases rule: chat_step.cases)
  case (send t w e c r)
  then show ?thesis using chat_inv_send [OF assms(1,2) send(2), of a w] by auto
next
  case (deliver w e t ms res c r)
  then show ?thesis using chat_inv_deliver [OF assms(1,2) deliver(2,3), of a] by auto
qed

lemma chat_inv_reachable:
  assumes "key_laws W" and "chat_inv W pid S0" and "chat_reachable W a pid S0 S"
  shows "chat_inv W pid S"
  using assms(3) by induction (use assms(1,2) chat_inv_step in blast)+

section \<open>A conversation begins\<close>

text \<open>The initiator's first message carries the parameters of the handshake.\<close>

lemma encrypt_first:
  assumes laws: "key_laws W" and s: "sending W ck s" "sendCount s = 0" "isInitiator s" "pendingPreKeyMsg s = Some pk"
    and kp: "dh_keypair W (ourRatchetPublic s) priv" and ends: "latin1 (pend_identityKey pk)" "latin1 (pend_ephemeralKey pk)"
    and c: "kc_sessions c p = Some s"
  obtains e w where "encrypt W (spec_store a) p t (c, r) = (Inr e, (put_session p
      (s\<lparr>sendChainKey := Some (chain_key W ck 1), sendCount := 1, pendingPreKeyMsg := None\<rparr>) c, snd (randomBytes W 12 r)))"
    "env_type e = 1" "payload_of e = Inr (prekey_wire_json (prekey_wire pk w))"
    "sealed W (ourRatchetPublic s) ck w t" "w_h w = \<lparr>h_rk = ourRatchetPublic s, h_n = 0, h_pn = prevSendCount s\<rparr>"
proof -
  note laws = key_lawsD [OF laws]
  let ?s = "s\<lparr>sendChainKey := Some (chain_key W ck (Suc (nat (sendCount s)))), sendCount := sendCount s + 1\<rparr>"
  let ?r = "snd (randomBytes W 12 r)"
  obtain w where w: "h_rk (w_h w) = ourRatchetPublic s" "h_n (w_h w) = sendCount s" "h_pn (w_h w) = prevSendCount s"
      "sealed W (ourRatchetPublic s) ck w t" "latin1 (w_ct w)" "latin1 (w_iv w)"
    and run: "sealMessage W t (s, r) =
       (case (if isInitiator s \<and> sendCount s = 0 then pendingPreKeyMsg s else None) of
          Some pk \<Rightarrow> (Inr (1, prekey_wire_json (prekey_wire pk w)), (?s\<lparr>pendingPreKeyMsg := None\<rparr>, ?r))
        | None \<Rightarrow> (Inr (2, wire_json w), (?s, ?r)))"
    by (rule sealMessage_sending [OF laws(4,5) s(1)])
  have seal: "sealMessage W t (s, r) = (Inr (1, prekey_wire_json (prekey_wire pk w)), (?s\<lparr>pendingPreKeyMsg := None\<rparr>, ?r))"
    using run s by simp
  have l: "json_latin1 (prekey_wire_json (prekey_wire pk w))"
    using w ends dh_keypair_public(2) [OF laws(2) kp]
    by (intro wire_json_wf(4)) (simp_all add: latin1_wire_def prekey_wire_def)
  obtain e where "encrypt W (spec_store a) p t (c, r) = (Inr e, (put_session p (?s\<lparr>pendingPreKeyMsg := None\<rparr>) c, ?r))"
    "env_type e = 1" "payload_of e = Inr (prekey_wire_json (prekey_wire pk w))"
    by (rule encrypt_eq [OF c seal wire_json_wf(2) l])
  moreover have "w_h w = \<lparr>h_rk = ourRatchetPublic s, h_n = 0, h_pn = prevSendCount s\<rparr>"
    using w(1-3) s(2) by (cases "w_h w") simp
  ultimately show thesis using w(4) s(2) by (intro that [of e w]) simp_all
qed

text \<open>The initiator's side up to its first message, and the random source after it.\<close>

definition hello :: "('r, 'k) webcrypto \<Rightarrow> 'st key_store \<Rightarrow> jstr \<Rightarrow> PreKeyBundle \<Rightarrow> jstr \<Rightarrow>
    ('st \<times> 'r, error, EncryptedEnvelope) eff" where
  "hello W ks p b t = bindE (initSessionFromBundle W ks p b) (\<lambda>_. encrypt W ks p t)"

definition after_hello :: "('r, 'k) webcrypto \<Rightarrow> 'r \<Rightarrow> 'r" where
  "after_hello W r = snd (randomBytes W 12 (snd (generateKey W (snd (generateKey W r)))))"

lemma hello_facts:
  fixes W :: "('r, 'k) webcrypto"
  assumes laws: "key_laws W" and alice: "has_identity W cA" and bob: "publishes W cB b" and t: "encodable t"
  obtains e s ck where
    "hello W (spec_store a) p b t (cA, r) = (Inr e, (put_session p s cA, after_hello W r))"
    "sending W ck s" "sendCount s = 1" "prevSendCount s = 0" "pendingPreKeyMsg s = None" "recvChainKey s = None"
    "theirRatchetPublic s = Some (bspk_publicKey (b_signedPreKey b))" "skipped s = Map.empty"
    "drawn_at W (snd (generateKey W r)) s" "dh_keypair W (ourRatchetPublic s) (ourRatchetPrivate s)"
    "\<forall>q rb a'. next_public W rb \<noteq> bspk_publicKey (b_signedPreKey b) \<longrightarrow> (\<exists>u cks.
       decrypt W (spec_store a') q e (cB, rb) = (Inr t, (put_session q u (consumed b cB), snd (generateKey W rb))) \<and>
       awaiting W (ourRatchetPublic s) ck {1..} u \<and> recvCount u = 1 \<and> linked W cks ck u s \<and> sendCount u = 0 \<and> drawn_at W rb u)"
proof -
  note l = key_lawsD [OF laws]
  let ?spk = "bspk_publicKey (b_signedPreKey b)"
  obtain s ck where init: "initSessionFromBundle W (spec_store a) p b (cA, r) =
       (Inr (), (put_session p s cA, snd (generateKey W (snd (generateKey W r)))))"
    and s: "sending W ck s" "sendCount s = 0" "prevSendCount s = 0" "recvChainKey s = None" "isInitiator s"
      "dh_keypair W (ourRatchetPublic s) (ourRatchetPrivate s)" "theirRatchetPublic s = Some ?spk"
      "skipped s = Map.empty" "drawn_at W (snd (generateKey W r)) s"
    and pend: "\<exists>pk. pendingPreKeyMsg s = Some pk \<and> latin1 (pend_identityKey pk) \<and> latin1 (pend_ephemeralKey pk)"
    and respond: "\<forall>pw q rb a'. greeting s pw \<longrightarrow> next_public W rb \<noteq> ?spk \<longrightarrow>
       (\<exists>t cks. initSessionFromPreKey W (spec_store a') q pw (cB, rb) =
           (Inr t, (put_session q t (consumed b cB), snd (generateKey W rb))) \<and>
         awaiting W (ourRatchetPublic s) ck {0..} t \<and> recvCount t = 0 \<and> sendCount t = 0 \<and>
         drawn_at W rb t \<and>
         (\<forall>n. 0 \<le> n \<longrightarrow> linked W cks ck t (s\<lparr>sendChainKey := Some (chain_key W ck (nat n)), sendCount := n,
            pendingPreKeyMsg := None\<rparr>)))"
    by (rule handshake [OF l(1-3) alice bob])
  obtain pk where pk: "pendingPreKeyMsg s = Some pk" "latin1 (pend_identityKey pk)" "latin1 (pend_ephemeralKey pk)"
    using pend by blast
  let ?s = "s\<lparr>sendChainKey := Some (chain_key W ck 1), sendCount := 1, pendingPreKeyMsg := None\<rparr>"
  obtain e w where enc: "encrypt W (spec_store a) p t (put_session p s cA, snd (generateKey W (snd (generateKey W r)))) =
      (Inr e, (put_session p ?s (put_session p s cA), after_hello W r))"
    and e: "env_type e = 1" "payload_of e = Inr (prekey_wire_json (prekey_wire pk w))"
      "sealed W (ourRatchetPublic s) ck w t" "w_h w = \<lparr>h_rk = ourRatchetPublic s, h_n = 0, h_pn = prevSendCount s\<rparr>"
    unfolding after_hello_def
    by (rule encrypt_first [OF laws s(1,2,5) pk(1) s(6) pk(2,3), where c = "put_session p s cA" and p = p]) simp_all
  have hello: "hello W (spec_store a) p b t (cA, r) = (Inr e, (put_session p ?s cA, after_hello W r))"
    using init enc by (simp add: hello_def bindE_def)
  have fin: "\<forall>q rb a'. next_public W rb \<noteq> ?spk \<longrightarrow> (\<exists>u cks. decrypt W (spec_store a') q e (cB, rb) =
        (Inr t, (put_session q u (consumed b cB), snd (generateKey W rb))) \<and>
       awaiting W (ourRatchetPublic s) ck {1..} u \<and> recvCount u = 1 \<and> linked W cks ck u ?s \<and> sendCount u = 0 \<and> drawn_at W rb u)"
  proof (intro allI impI)
    fix q rb a' assume fresh: "next_public W rb \<noteq> ?spk"
    obtain u cks where u: "initSessionFromPreKey W (spec_store a') q (prekey_wire pk w) (cB, rb) =
           (Inr u, (put_session q u (consumed b cB), snd (generateKey W rb)))"
      "awaiting W (ourRatchetPublic s) ck {0..} u" "recvCount u = 0" "sendCount u = 0" "drawn_at W rb u"
      "linked W cks ck u (s\<lparr>sendChainKey := Some (chain_key W ck (nat 1)), sendCount := 1, pendingPreKeyMsg := None\<rparr>)"
    proof -
      have rk: "h_rk (w_h w) = ourRatchetPublic s" using e(4) by simp
      obtain u cks where "initSessionFromPreKey W (spec_store a') q (prekey_wire pk w) (cB, rb) =
           (Inr u, put_session q u (consumed b cB), snd (generateKey W rb))"
        "awaiting W (ourRatchetPublic s) ck {0..} u" "recvCount u = 0" "sendCount u = 0" "drawn_at W rb u"
        "\<forall>n. 0 \<le> n \<longrightarrow> linked W cks ck u (s\<lparr>sendChainKey := Some (chain_key W ck (nat n)), sendCount := n,
            pendingPreKeyMsg := None\<rparr>)"
        using respond [rule_format, OF greeting_prekey_wire [OF pk(1) rk] fresh, of a' q] by blast
      moreover from this(6) have "linked W cks ck u (s\<lparr>sendChainKey := Some (chain_key W ck (nat 1)),
          sendCount := 1, pendingPreKeyMsg := None\<rparr>)" by (rule allE [of _ 1]) simp
      ultimately show thesis by (intro that [of u cks])
    qed
    obtain v where v: "receive W (w_h w) (u, snd (generateKey W rb)) =
        (Inr (message_key W ck 0), (v, snd (generateKey W rb)))"
      "awaiting W (ourRatchetPublic s) ck ({0..} - {0}) v" "recvCount v = 1"
      "v = u\<lparr>skipped := skipped v, recvChainKey := recvChainKey v, recvCount := recvCount v\<rparr>"
      "\<forall>k n. k \<noteq> ourRatchetPublic s \<longrightarrow> skipped v (skippedKey k n) = skipped u (skippedKey k n)"
      by (rule receive_known [OF laws u(2), of "w_h w"]) (use e(4) u(3) in \<open>auto simp: MAX_SKIP_def\<close>)
    have rec: "receive W (w_h (WireMessage.truncate (prekey_wire pk w))) (u, snd (generateKey W rb)) =
        (Inr (message_key W ck 0), (v, snd (generateKey W rb)))"
      using v(1) by simp
    have "decrypt W (spec_store a') q e (cB, rb) =
        (Inr t, (put_session q v (put_session q u (consumed b cB)), snd (generateKey W rb)))"
      using decrypt_prekey_eq [OF e(1,2) to_prekey_wire_json to_wire_json(2) u(1) rec] e(3,4) t
      by (simp add: sealed_def text_roundtrip)
    moreover have "{0..} - {0} = {1 :: int..}" by auto
    moreover have "linked W cks ck v ?s" using linked_receiving(1) [OF u(6) v(4)] by simp
    moreover have "sendCount v = 0" by (subst v(4)) (simp add: u(4))
    moreover have "skipped v (skippedKey k n) = None" for k n
      using v(2,3,5) u(5) by (cases "k = ourRatchetPublic s") (auto simp: awaiting_def drawn_at_def)
    then have "drawn_at W rb v"
      using u(5) unfolding drawn_at_def by (subst (1 2 3 4) v(4)) (simp add: rooted_def)
    ultimately show "\<exists>u cks. decrypt W (spec_store a') q e (cB, rb) =
        (Inr t, (put_session q u (consumed b cB), snd (generateKey W rb))) \<and>
       awaiting W (ourRatchetPublic s) ck {1..} u \<and> recvCount u = 1 \<and> linked W cks ck u ?s \<and> sendCount u = 0 \<and> drawn_at W rb u"
      using v(2,3) by (intro exI [of _ v] exI [of _ cks]) simp
  qed
  have "sending W ck ?s" using s(1) by (simp add: sending_def)
  moreover have "drawn_at W (snd (generateKey W r)) ?s" using s(9) by (simp add: drawn_at_def rooted_def)
  ultimately have "sending W ck ?s" "drawn_at W (snd (generateKey W r)) ?s" .
  with s(3,4,6-8) fin show thesis by (intro that [OF hello, of ck]) (simp_all add: RatchetSession.defs)
qed

lemma hello_decrypts:
  fixes W :: "('r, 'k) webcrypto"
  assumes laws: "key_laws W" and alice: "has_identity W cA" and bob: "publishes W cB b" and t: "encodable t"
  obtains e s ck where
    "hello W (spec_store a) p b t (cA, r) = (Inr e, (put_session p s cA, after_hello W r))"
    "sending W ck s" "sendCount s = 1" "prevSendCount s = 0" "pendingPreKeyMsg s = None" "recvChainKey s = None"
    "theirRatchetPublic s = Some (bspk_publicKey (b_signedPreKey b))" "skipped s = Map.empty"
    "dh_keypair W (ourRatchetPublic s) (ourRatchetPrivate s)"
    "\<forall>q rb a'. next_public W rb \<noteq> bspk_publicKey (b_signedPreKey b) \<longrightarrow> (\<exists>u cks.
       decrypt W (spec_store a') q e (cB, rb) = (Inr t, (put_session q u (consumed b cB), snd (generateKey W rb))) \<and>
       awaiting W (ourRatchetPublic s) ck {1..} u \<and> recvCount u = 1 \<and> linked W cks ck u s \<and> sendCount u = 0)"
  by (rule hello_facts [OF assms, of a p r]) (rule that, assumption+, blast)

text \<open>The state a conversation starts from: the first message has arrived, nothing is on its way.\<close>

definition begun :: "(party \<Rightarrow> key_contents) \<Rightarrow> 'r \<Rightarrow> 'r chat" where
  "begun st r = \<lparr>stores = st, rand = r, inbox = (\<lambda>_. [])\<rparr>"

lemma chat_inv_begun:
  fixes W :: "('r, 'k) webcrypto"
  assumes laws: "key_laws W" and alice: "has_identity W cA" and bob: "publishes W cB b" and t: "encodable t"
    and fresh: "next_public W (after_hello W r) \<noteq> bspk_publicKey (b_signedPreKey b)"
  obtains e cA' cB' r' where "hello W (spec_store a) (pid Bob) b t (cA, r) = (Inr e, (cA', after_hello W r))"
    "decrypt W (spec_store a) (pid Alice) e (cB, after_hello W r) = (Inr t, (cB', r'))"
    "chat_inv W pid (begun (case_party cA' cB') r')"
proof -
  obtain e s ck where hello: "hello W (spec_store a) (pid Bob) b t (cA, r) = (Inr e, (put_session (pid Bob) s cA, after_hello W r))"
    and s: "sending W ck s" "sendCount s = 1" "prevSendCount s = 0" "pendingPreKeyMsg s = None" "recvChainKey s = None"
      "theirRatchetPublic s = Some (bspk_publicKey (b_signedPreKey b))" "skipped s = Map.empty"
      "dh_keypair W (ourRatchetPublic s) (ourRatchetPrivate s)"
    and dec: "\<forall>q rb a'. next_public W rb \<noteq> bspk_publicKey (b_signedPreKey b) \<longrightarrow> (\<exists>u cks.
       decrypt W (spec_store a') q e (cB, rb) = (Inr t, (put_session q u (consumed b cB), snd (generateKey W rb))) \<and>
       awaiting W (ourRatchetPublic s) ck {1..} u \<and> recvCount u = 1 \<and> linked W cks ck u s \<and> sendCount u = 0)"
    by (rule hello_decrypts [OF laws alice bob t])
  obtain u cks where u: "decrypt W (spec_store a) (pid Alice) e (cB, after_hello W r) =
      (Inr t, (put_session (pid Alice) u (consumed b cB), snd (generateKey W (after_hello W r))))"
    "awaiting W (ourRatchetPublic s) ck {1..} u" "recvCount u = 1" "linked W cks ck u s" "sendCount u = 0"
    using dec fresh by blast
  have "chat_inv W pid (begun (case_party (put_session (pid Bob) s cA)
      (put_session (pid Alice) u (consumed b cB))) (snd (generateKey W (after_hello W r))))"
    using u s by (intro chat_invI [where x = Bob and X = u and Y = s and ckx = cks and cky = ck])
      (simp_all add: begun_def carried_def owed_def)
  with hello u(1) show thesis by (rule that)
qed

section \<open>One chain, any order\<close>

text \<open>Many calls in a row.\<close>

fun encrypt_all :: "('r, 'k) webcrypto \<Rightarrow> 'st key_store \<Rightarrow> jstr \<Rightarrow> jstr list \<Rightarrow>
    ('st \<times> 'r, error, EncryptedEnvelope list) eff" where
  "encrypt_all W ks p [] = retE []"
| "encrypt_all W ks p (t # ts) = bindE (encrypt W ks p t) (\<lambda>e. bindE (encrypt_all W ks p ts) (\<lambda>es. retE (e # es)))"

fun decrypt_all :: "('r, 'k) webcrypto \<Rightarrow> 'st key_store \<Rightarrow> jstr \<Rightarrow> EncryptedEnvelope list \<Rightarrow>
    ('st \<times> 'r, error, jstr list) eff" where
  "decrypt_all W ks p [] = retE []"
| "decrypt_all W ks p (e # es) = bindE (decrypt W ks p e) (\<lambda>t. bindE (decrypt_all W ks p es) (\<lambda>ts. retE (t # ts)))"

lemma encrypt_all_carried:
  assumes laws: "key_laws W" and "sending W ck s" and "dh_keypair W (ourRatchetPublic s) priv"
    and "pendingPreKeyMsg s = None" and "kc_sessions c p = Some s" and "\<forall>t \<in> set ts. encodable t"
  shows "\<exists>es c' r'. encrypt_all W (spec_store a) p ts (c, r) = (Inr es, (c', r')) \<and> length es = length ts \<and>
    list_all2 (carries W (ourRatchetPublic s) ck (prevSendCount s))
      (map (\<lambda>i. sendCount s + int i) [0..<length ts]) (zip es ts)"
  using assms(2-6)
proof (induction ts arbitrary: s c r)
  case (Cons t ts)
  let ?s = "s\<lparr>sendChainKey := Some (chain_key W ck (Suc (nat (sendCount s)))), sendCount := sendCount s + 1\<rparr>"
  obtain e where e: "encrypt W (spec_store a) p t (c, r) =
      (Inr e, (put_session p ?s c, snd (randomBytes W 12 r)))"
    "carries W (ourRatchetPublic s) ck (prevSendCount s) (sendCount s) (e, t)"
    by (rule encrypt_carries [OF laws Cons.prems(1-4)]) (use Cons.prems(5) in auto)
  have "Suc (nat (sendCount s)) = nat (sendCount s + 1)"
    using Cons.prems(1) by (simp add: sending_def Suc_nat_eq_nat_zadd1 add.commute)
  then have snd': "sending W ck ?s" using Cons.prems(1) by (simp add: sending_def)
  obtain es c' r' where es: "encrypt_all W (spec_store a) p ts (put_session p ?s c, snd (randomBytes W 12 r)) =
      (Inr es, (c', r'))" "length es = length ts"
    "list_all2 (carries W (ourRatchetPublic s) ck (prevSendCount s))
      (map (\<lambda>i. sendCount s + 1 + int i) [0..<length ts]) (zip es ts)"
    using Cons.IH [OF snd', of "put_session p ?s c" "snd (randomBytes W 12 r)"] Cons.prems(2-5) by force
  have "map (\<lambda>i. sendCount s + int i) [0..<length (t # ts)] =
      sendCount s # map (\<lambda>i. sendCount s + 1 + int i) [0..<length ts]"
    by (simp add: upt_conv_Cons map_Suc_upt [symmetric] o_def algebra_simps del: upt_Suc map_Suc_upt)
  with e es show ?case
    by (intro exI [of _ "e # es"] exI [of _ c'] exI [of _ r']) (simp add: bindE_def del: upt_Suc)
qed simp

lemma decrypt_all_any_order:
  assumes laws: "key_laws W" and "awaiting W rk ck todo s" and "kc_sessions c p = Some s"
    and "list_all2 (carries W rk ck pn) ns ms" and "distinct ns" and "set ns \<subseteq> todo"
    and "\<forall>n \<in> set ns. 0 \<le> n \<and> n \<le> recvCount s + MAX_SKIP"
  shows "fst (decrypt_all W (spec_store a) p (map fst ms) (c, r)) = Inr (map snd ms)"
  using assms(2-7)
proof (induction ns arbitrary: ms s c r todo)
  case (Cons n ns)
  obtain e t ms' where ms: "ms = (e, t) # ms'" "carries W rk ck pn n (e, t)" "list_all2 (carries W rk ck pn) ns ms'"
    using Cons.prems(3) by (cases ms) auto
  let ?h = "\<lparr>h_rk = rk, h_n = n, h_pn = pn\<rparr>"
  obtain s' where s': "receive W ?h (s, r) = (Inr (message_key W ck (nat n)), (s', r))"
    "awaiting W rk ck (todo - {n}) s'" "recvCount s' = max (recvCount s) (n + 1)"
    by (rule receive_known [OF laws Cons.prems(1), of ?h r]) (use Cons.prems(4-6) in simp_all)
  have run: "decrypt W (spec_store a) p e (c, r) = (Inr t, (put_session p s' c, r))"
    by (rule decrypt_carried [OF ms(2) Cons.prems(2) s'(1)])
  have "fst (decrypt_all W (spec_store a) p (map fst ms') (put_session p s' c, r)) = Inr (map snd ms')"
    using Cons.prems(4-6) s'(3) by (intro Cons.IH [OF s'(2) _ ms(3)]) auto
  with run ms(1) show ?case by (auto simp: bindE_def split: prod.splits sum.splits)
qed simp

context key_store_contract
begin

lemma hello_refines:
  "refinesE (ok_world ok) (view_world view) (hello W ks p b t) (hello W (spec_store shared) p b t)"
  unfolding hello_def by (intro refinesE_bindE initSessionFromBundle_refines encrypt_refines)

lemma encrypt_all_refines:
  "refinesE (ok_world ok) (view_world view) (encrypt_all W ks p ts) (encrypt_all W (spec_store shared) p ts)"
  by (induction ts) (simp_all only: encrypt_all.simps refinesE_pure refinesE_bindE encrypt_refines)

lemma decrypt_all_refines:
  "refinesE (ok_world ok) (view_world view) (decrypt_all W ks p es) (decrypt_all W (spec_store shared) p es)"
  by (induction es) (simp_all only: decrypt_all.simps refinesE_pure refinesE_bindE decrypt_refines)

end

lemma refinesE_fst: "refinesE (ok_world ok) (view_world view) m m' \<Longrightarrow> ok st \<Longrightarrow> fst (m (st, r)) = fst (m' (view st, r))"
  by (simp add: refinesE_def)

lemma refinesE_view:
  assumes "refinesE (ok_world ok) (view_world view) m m'" and "ok st"
  shows "view (fst (snd (m (st, r)))) = fst (snd (m' (view st, r)))"
proof -
  have "view_world view (snd (m (st, r))) = snd (m' (view st, r))"
    using assms by (simp add: refinesE_def)
  then show ?thesis by (metis fst_conv prod.collapse world_simps(2))
qed

end
