(* ===== verification/DemoCrypto.thy ===== *)
theory DemoCrypto
  imports Crypto
begin

text \<open>
  A concrete \<open>webcrypto\<close> for the witnesses: a key pair is a number repeated, the shared secret of two
  pairs is their sum, a ciphertext is the plaintext followed by the first sixteen bytes of the key,
  which decryption checks. It has none of the secrecy of SubtleCrypto and all of the algebra the
  theorems ask for (\<open>demo_laws\<close>). It is not a model of any code of the repository.
\<close>

definition demo_crypto :: "(nat, bytes) webcrypto" where
  "demo_crypto = \<lparr>
     generateKey = (\<lambda>r. ((replicate 65 (of_nat r), replicate 32 (of_nat r)), Suc r)),
     exportRaw = (\<lambda>k. k),
     exportJwk = (\<lambda>k. JObj [(js ''kty'', JStr (js ''EC'')), (js ''d'', JStr (map ucast k)),
       (js ''key_ops'', JArr [JStr (js ''deriveBits'')])]),
     importRaw = (\<lambda>a b. if (a = HMAC_SHA256 \<and> b = []) \<or> (a = AES_GCM \<and> length b \<noteq> 32) \<or> (a = ECDH_P256 \<and> length b \<noteq> 65)
       then Inl (DOMExc ''DataError'') else Inr b),
     importJwk = (\<lambda>a j. case json_get j (js ''d'') of Some (JStr d) \<Rightarrow> Inr (map ucast d)
       | _ \<Rightarrow> Inl (DOMExc ''DataError'')),
     deriveECDH = (\<lambda>p k n. Inr (map2 (+) (take 32 p) k)),
     deriveHKDF = (\<lambda>salt info k n. Inr (map (\<lambda>i. sum_list (salt @ info @ k) + of_nat i) [0..<n div 8])),
     signHMAC = (\<lambda>k d. map (\<lambda>b. b + sum_list d) (take 32 (k @ replicate 32 0))),
     signECDSA = (\<lambda>k d r. (k @ d, r)),
     verifyECDSA = (\<lambda>k sig d. sig = take 32 k @ d),
     encryptGCM = (\<lambda>iv k pt. Inr (pt @ take 16 k)),
     decryptGCM = (\<lambda>iv k ct. if drop (length ct - 16) ct = take 16 k then Inr (take (length ct - 16) ct)
       else Inl (DOMExc ''OperationError'')),
     digest512 = (\<lambda>d. map (\<lambda>i. sum_list d + of_nat i) [0..<64]),
     randomBytes = (\<lambda>n r. (replicate n (of_nat r), Suc r)),
     randomU16 = (\<lambda>r. (of_nat r, Suc r))\<rparr>"

lemma demo_rawOf [simp]: "rawOf demo_crypto r = replicate 65 (of_nat r)"
  by (simp add: rawOf_def demo_crypto_def)

lemma demo_jwkOf:
  "jwkOf demo_crypto r = JObj [(js ''kty'', JStr (js ''EC'')), (js ''d'', JStr (map ucast (replicate 32 (of_nat r :: u8))))]"
  by (simp add: jwkOf_def demo_crypto_def strip_key_ops_def)

lemma demo_import_jwk: "importJwk demo_crypto a (jwkOf demo_crypto r) = Inr (replicate 32 (of_nat r))"
  unfolding demo_jwkOf by (simp add: demo_crypto_def json_get_def ucast_u16_u8)

lemma demo_ecdh: "ecdh_law demo_crypto"
  unfolding ecdh_law_def demo_import_jwk demo_rawOf
  by (simp add: demo_crypto_def map2_map_map [symmetric] add.commute zip_replicate)

lemma demo_laws: "subtle_laws demo_crypto"
proof -
  have "jwk_law demo_crypto" by (simp add: jwk_law_def demo_jwkOf)
  moreover have "ecdsa_law demo_crypto"
    unfolding ecdsa_law_def demo_import_jwk demo_rawOf by (simp add: demo_crypto_def)
  moreover have "hkdf_law demo_crypto" by (simp add: hkdf_law_def demo_crypto_def)
  moreover have "hmac_law demo_crypto" by (auto simp: hmac_law_def demo_crypto_def)
  moreover have "gcm_law demo_crypto" by (simp add: gcm_law_def demo_crypto_def)
  moreover have "sha512_law demo_crypto" by (simp add: sha512_law_def demo_crypto_def)
  ultimately show ?thesis using demo_ecdh by (simp add: subtle_laws_def)
qed

end
