(* ===== verification/DemoSession.thy ===== *)
theory DemoSession
  imports Conversation DemoCrypto
begin

text \<open>
  Concrete key stores and a bundle over \<open>demo_crypto\<close>, for the witnesses: Alice owns the identity key
  drawn at 1, Bob the ones drawn at 2 (identity), 3 (signed pre-key 7) and 4 (one-time pre-key 9);
  the conversation's random source starts at 10.
\<close>

definition demo_pub :: "nat \<Rightarrow> jstr" where
  "demo_pub r = bufToBase64 (replicate 65 (of_nat r))"

definition demo_priv :: "nat \<Rightarrow> jstr" where
  "demo_priv r = json_stringify (jwkOf demo_crypto r)"

definition demo_contents :: key_contents where
  "demo_contents = \<lparr>kc_identity = None, kc_regId = None, kc_preKeys = Map.empty,
     kc_signedPreKeys = Map.empty, kc_sessions = Map.empty\<rparr>"

definition demo_alice :: key_contents where
  "demo_alice = demo_contents\<lparr>kc_identity := Some \<lparr>ik_publicKey = demo_pub 1, ik_privateKey = demo_priv 1\<rparr>\<rparr>"

definition demo_signature :: jstr where
  "demo_signature = bufToBase64 (replicate 32 2 @ replicate 65 3)"

definition demo_bob :: key_contents where
  "demo_bob = demo_contents\<lparr>
     kc_identity := Some \<lparr>ik_publicKey = demo_pub 2, ik_privateKey = demo_priv 2\<rparr>,
     kc_signedPreKeys := [7 \<mapsto> \<lparr>pk_id = 7, pk_publicKey = demo_pub 3, pk_privateKey = demo_priv 3,
        spk_signature = demo_signature\<rparr>],
     kc_preKeys := [9 \<mapsto> \<lparr>pk_id = 9, pk_publicKey = demo_pub 4, pk_privateKey = demo_priv 4\<rparr>]\<rparr>"

definition demo_bundle :: PreKeyBundle where
  "demo_bundle = \<lparr>b_registrationId = 1, b_deviceId = 1, b_identityKey = demo_pub 2,
     b_signedPreKey = \<lparr>bspk_id = 7, bspk_publicKey = demo_pub 3, bspk_signature = demo_signature\<rparr>,
     b_oneTimePreKey = Some \<lparr>bopk_id = 9, bopk_publicKey = demo_pub 4\<rparr>\<rparr>"

lemma demo_next [simp]: "next_public demo_crypto r = demo_pub r"
  by (simp add: next_public_def demo_pub_def)

lemma demo_pub_inject: "demo_pub m = demo_pub n \<longleftrightarrow> (of_nat m :: u8) = of_nat n"
  by (auto simp: demo_pub_def dest: arg_cong [where f = hd])

lemma demo_keypair: "dh_keypair demo_crypto (demo_pub r) (demo_priv r)"
  using generated_dh_keypair [of demo_crypto r] by (simp add: demo_pub_def demo_priv_def)

lemma demo_key_laws: "key_laws demo_crypto"
  by (rule subtle_key_laws [OF demo_laws])

lemma demo_verify: "verifyPreKey demo_crypto (demo_pub 2) (demo_pub 3) demo_signature"
  by (simp add: verifyPreKey_def importVerifyPublic_def demo_pub_def demo_signature_def)
    (simp add: demo_crypto_def)

lemma demo_alice_identity: "has_identity demo_crypto demo_alice"
  by (simp add: has_identity_def demo_alice_def demo_keypair)

lemma demo_publishes: "publishes demo_crypto demo_bob demo_bundle"
  using demo_verify by (simp add: publishes_def demo_bob_def demo_bundle_def demo_keypair)

lemma demo_random [simp]:
  "snd (randomBytes demo_crypto n r) = Suc r" "snd (generateKey demo_crypto r) = Suc r"
  by (simp_all add: demo_crypto_def)

lemma demo_after_hello: "after_hello demo_crypto 10 = 13"
  by (simp add: after_hello_def)

lemma demo_fresh: "next_public demo_crypto (after_hello demo_crypto 10) \<noteq> bspk_publicKey (b_signedPreKey demo_bundle)"
  by (simp add: demo_after_hello demo_bundle_def demo_pub_inject)

definition demo_pid :: "party \<Rightarrow> jstr" where
  "demo_pid w = (case w of Alice \<Rightarrow> js ''alice#0001'' | Bob \<Rightarrow> js ''bob#0002'')"

text \<open>The same contents on a disk.\<close>

definition disk_of :: "key_contents \<Rightarrow> idb" where
  "disk_of c = \<lparr>disk = Some \<lparr>identity_keys = (\<lambda>k. if k = ''ik'' then kc_identity c else None),
      registration_id = (\<lambda>k. if k = ''rid'' then kc_regId c else None),
      pre_keys = kc_preKeys c, signed_pre_keys = kc_signedPreKeys c, sessions = kc_sessions c\<rparr>,
    db_cached = False, open_error = None, request_error = None\<rparr>"

lemma disk_of [simp]: "idb_ok (disk_of c)" "idb_view (disk_of c) = c"
  by (simp_all add: idb_ok_def disk_of_def idb_view_def stores_of_def Let_def)

text \<open>A session in the middle of a conversation, Bob's with Alice or the other way round.\<close>

definition demo_ck :: jstr where
  "demo_ck = bufToHex (replicate 32 5)"

definition demo_session :: RatchetSession where
  "demo_session = \<lparr>rootKey = demo_ck, sendChainKey = Some demo_ck, recvChainKey = Some demo_ck,
     sendCount = 0, recvCount = 0, prevSendCount = 0, ourRatchetPublic = demo_pub 11,
     ourRatchetPrivate = demo_priv 11, theirRatchetPublic = Some (demo_pub 12), skipped = Map.empty,
     isInitiator = False, pendingPreKeyMsg = None\<rparr>"

definition demo_talking :: key_contents where
  "demo_talking = demo_bob\<lparr>kc_sessions := [js ''alice'' \<mapsto> demo_session]\<rparr>"

lemma demo_pub_not_Nil [simp]: "demo_pub r \<noteq> []"
  using dh_keypair_public(1) demo_keypair demo_laws by (auto simp: subtle_laws_def)

lemma demo_key32 [simp]: "key32 demo_ck"
  by (simp add: demo_ck_def)

lemma demo_awaiting: "awaiting demo_crypto (demo_pub 12) demo_ck {0..} demo_session"
  by (simp add: awaiting_def demo_session_def)

lemma demo_sending: "sending demo_crypto demo_ck demo_session"
  by (simp add: sending_def demo_session_def)

end
