(* ===== verification/SessionProperties.thy ===== *)
theory SessionProperties
  imports DemoSession "HOL-Library.Multiset"
begin

text \<open>
  What SignalSessionManager guarantees, and where it does not: delivery in order and out of order,
  the handshake, errors that leave the store alone, the bound on skipped keys, and the states that
  replayed, late and forged envelopes leave behind.
\<close>

section \<open>Delivery\<close>

text \<open>The double ratchet is correct over a transport that keeps the order of each direction: after
  the initiator's first message has arrived, any interleaving of calls of encrypt and decrypt by both
  sides (with all the DH ratchet steps it causes) delivers to each side exactly the text the other
  encrypted, and every call of encrypt succeeds.\<close>

theorem conversation_delivers:
  fixes W :: "('r, 'k) webcrypto"
  assumes "subtle_laws W" and "has_identity W cA" and "publishes W cB b" and "encodable t0"
    and "next_public W (after_hello W r) \<noteq> bspk_publicKey (b_signedPreKey b)"
    and "hello W (spec_store a) (pid Bob) b t0 (cA, r) = (Inr e0, (cA', r1))"
    and "decrypt W (spec_store a) (pid Alice) e0 (cB, r1) = (res, (cB', r2))"
    and "chat_reachable W a pid (begun (case_party cA' cB') r2) S"
  shows "res = Inr t0 \<and>
    (\<forall>w e t ms. inbox S w = (e, t) # ms \<longrightarrow> fresh_key W pid S w \<longrightarrow>
       fst (decrypt W (spec_store a) (pid (other w)) e (stores S w, rand S)) = Inr t) \<and>
    (\<forall>w t. encodable t \<longrightarrow>
       (\<exists>e. fst (encrypt W (spec_store a) (pid (other w)) t (stores S w, rand S)) = Inr e))"
proof -
  note laws = subtle_key_laws [OF assms(1)]
  obtain e cA1 cB1 r3 where run: "hello W (spec_store a) (pid Bob) b t0 (cA, r) = (Inr e, (cA1, after_hello W r))"
    "decrypt W (spec_store a) (pid Alice) e (cB, after_hello W r) = (Inr t0, (cB1, r3))"
    and inv: "chat_inv W pid (begun (case_party cA1 cB1) r3)"
    by (rule chat_inv_begun [OF laws assms(2-5)])
  have "e = e0 \<and> cA1 = cA' \<and> r1 = after_hello W r" using run(1) assms(6) by simp
  then have eq: "res = Inr t0" "cB1 = cB'" "r3 = r2" "cA1 = cA'" using run(2) assms(7) by auto
  have invS: "chat_inv W pid S"
    by (rule chat_inv_reachable [OF laws inv]) (use assms(8) eq in simp)
  have "fst (decrypt W (spec_store a) (pid (other w)) e (stores S w, rand S)) = Inr t"
    if "inbox S w = (e, t) # ms" "fresh_key W pid S w" for w e t ms
    by (rule chat_inv_deliver [OF laws invS that, of a]) simp
  moreover have "\<exists>e. fst (encrypt W (spec_store a) (pid (other w)) t (stores S w, rand S)) = Inr e"
    if "encodable t" for w t
    by (rule chat_inv_send [OF laws invS that, of a w]) auto
  ultimately show ?thesis using eq(1) by blast
qed

text \<open>A conversation over the demo keys, begun.\<close>

lemma demo_begun:
  obtains e0 s u ck where
    "hello demo_crypto (spec_store False) (demo_pid Bob) demo_bundle (js ''hi'') (demo_alice, 10) =
       (Inr e0, (put_session (demo_pid Bob) s demo_alice, 13))"
    "decrypt demo_crypto (spec_store False) (demo_pid Alice) e0 (demo_bob, 13) =
       (Inr (js ''hi''), (put_session (demo_pid Alice) u (consumed demo_bundle demo_bob), 14))"
    "sending demo_crypto ck s" "sendCount s = 1" "prevSendCount s = 0" "pendingPreKeyMsg s = None"
    "theirRatchetPublic s = Some (demo_pub 3)" "skipped s = Map.empty"
    "dh_keypair demo_crypto (ourRatchetPublic s) (ourRatchetPrivate s)" "recvCount u = 1"
proof -
  obtain e0 s ck where hello: "hello demo_crypto (spec_store False) (demo_pid Bob) demo_bundle (js ''hi'') (demo_alice, 10)
        = (Inr e0, (put_session (demo_pid Bob) s demo_alice, after_hello demo_crypto 10))"
    and s: "sending demo_crypto ck s" "sendCount s = 1" "prevSendCount s = 0" "pendingPreKeyMsg s = None"
      "recvChainKey s = None" "theirRatchetPublic s = Some (bspk_publicKey (b_signedPreKey demo_bundle))"
      "skipped s = Map.empty" "dh_keypair demo_crypto (ourRatchetPublic s) (ourRatchetPrivate s)"
    and dec: "\<forall>q rb a'. next_public demo_crypto rb \<noteq> bspk_publicKey (b_signedPreKey demo_bundle) \<longrightarrow> (\<exists>u cks.
       decrypt demo_crypto (spec_store a') q e0 (demo_bob, rb) =
         (Inr (js ''hi''), (put_session q u (consumed demo_bundle demo_bob), snd (generateKey demo_crypto rb))) \<and>
       awaiting demo_crypto (ourRatchetPublic s) ck {1..} u \<and> recvCount u = 1 \<and> linked demo_crypto cks ck u s \<and>
       sendCount u = 0)"
    by (rule hello_decrypts [OF demo_key_laws demo_alice_identity demo_publishes encodable_js])
  obtain u where "decrypt demo_crypto (spec_store False) (demo_pid Alice) e0 (demo_bob, 13) =
      (Inr (js ''hi''), (put_session (demo_pid Alice) u (consumed demo_bundle demo_bob), 14))" "recvCount u = 1"
    using dec [rule_format, OF demo_fresh, of False "demo_pid Alice"]
    by (auto simp: demo_after_hello)
  with hello s show thesis by (intro that [of e0 s u ck]) (simp_all add: demo_after_hello demo_bundle_def)
qed

text \<open>A second message is on its way to Bob.\<close>

lemma demo_second_message:
  obtains e0 cA cB r2 S e where
    "hello demo_crypto (spec_store False) (demo_pid Bob) demo_bundle (js ''hi'') (demo_alice, 10) = (Inr e0, (cA, 13))"
    "decrypt demo_crypto (spec_store False) (demo_pid Alice) e0 (demo_bob, 13) = (Inr (js ''hi''), (cB, r2))"
    "chat_reachable demo_crypto False demo_pid (begun (case_party cA cB) r2) S"
    "inbox S Bob = [(e, js ''you there?'')]" "fresh_key demo_crypto demo_pid S Bob"
proof -
  obtain e0 s u ck where d: "hello demo_crypto (spec_store False) (demo_pid Bob) demo_bundle (js ''hi'') (demo_alice, 10) =
       (Inr e0, (put_session (demo_pid Bob) s demo_alice, 13))"
    "decrypt demo_crypto (spec_store False) (demo_pid Alice) e0 (demo_bob, 13) =
       (Inr (js ''hi''), (put_session (demo_pid Alice) u (consumed demo_bundle demo_bob), 14))"
    and s: "sending demo_crypto ck s" "sendCount s = 1" "prevSendCount s = 0" "pendingPreKeyMsg s = None"
      "theirRatchetPublic s = Some (demo_pub 3)" "skipped s = Map.empty"
      "dh_keypair demo_crypto (ourRatchetPublic s) (ourRatchetPrivate s)"
    by (rule demo_begun)
  let ?cA = "put_session (demo_pid Bob) s demo_alice"
  let ?cB = "put_session (demo_pid Alice) u (consumed demo_bundle demo_bob)"
  let ?s = "s\<lparr>sendChainKey := Some (chain_key demo_crypto ck (Suc (nat (sendCount s)))), sendCount := sendCount s + 1\<rparr>"
  obtain e where e: "encrypt demo_crypto (spec_store False) (demo_pid Bob) (js ''you there?'') (?cA, 14) =
      (Inr e, (put_session (demo_pid Bob) ?s ?cA, snd (randomBytes demo_crypto 12 14)))"
    by (rule encrypt_carries [OF demo_key_laws s(1,7,4) _ encodable_js, where c = ?cA and p = "demo_pid Bob" and r = 14]) simp_all
  let ?start = "begun (case_party ?cA ?cB) (14 :: nat)"
  let ?S = "?start\<lparr>stores := (stores ?start)(Alice := put_session (demo_pid Bob) ?s ?cA), rand := (15 :: nat),
     inbox := (inbox ?start)(Bob := inbox ?start Bob @ [(e, js ''you there?'')])\<rparr>"
  have "encrypt demo_crypto (spec_store False) (demo_pid (other Alice)) (js ''you there?'') (stores ?start Alice, rand ?start) =
      (Inr e, (put_session (demo_pid Bob) ?s ?cA, 15))"
    using e by (simp add: begun_def)
  from chat_step.send [where pid = demo_pid, OF encodable_js this] have "chat_step demo_crypto False demo_pid ?start ?S" by simp
  then have "chat_reachable demo_crypto False demo_pid ?start ?S"
    by (rule chat_reachable.step [OF chat_reachable.start])
  moreover have "fresh_key demo_crypto demo_pid ?S Bob"
    using s(5,6) by (simp add: fresh_key_def begun_def fresh_for_def demo_pub_inject)
  ultimately show thesis using d
    by (intro that [of e0 ?cA ?cB 14 ?S e]) (simp_all add: begun_def)
qed

theorem conversation_delivers_witness:
  "\<exists>(S :: nat chat) e. inbox S Bob = [(e, js ''you there?'')] \<and>
     fst (decrypt demo_crypto (spec_store False) (demo_pid Alice) e (stores S Bob, rand S)) = Inr (js ''you there?'')"
proof -
  obtain e0 cA cB r2 S e where d:
    "hello demo_crypto (spec_store False) (demo_pid Bob) demo_bundle (js ''hi'') (demo_alice, 10) = (Inr e0, (cA, 13))"
    "decrypt demo_crypto (spec_store False) (demo_pid Alice) e0 (demo_bob, 13) = (Inr (js ''hi''), (cB, r2))"
    "chat_reachable demo_crypto False demo_pid (begun (case_party cA cB) r2) S"
    "inbox S Bob = [(e, js ''you there?'')]" "fresh_key demo_crypto demo_pid S Bob"
    by (rule demo_second_message)
  have "fst (decrypt demo_crypto (spec_store False) (demo_pid (other Bob)) e (stores S Bob, rand S)) = Inr (js ''you there?'')"
    using conversation_delivers [OF demo_laws demo_alice_identity demo_publishes encodable_js demo_fresh d(1-3)] d(4,5)
    by blast
  with d(4) show ?thesis by auto
qed

text \<open>The initiator's first calls: the handshake, a first message and more messages before any reply.\<close>

definition open_with :: "('r, 'k) webcrypto \<Rightarrow> 'st key_store \<Rightarrow> jstr \<Rightarrow> PreKeyBundle \<Rightarrow> jstr \<Rightarrow> jstr list \<Rightarrow>
    ('st \<times> 'r, error, EncryptedEnvelope \<times> EncryptedEnvelope list) eff" where
  "open_with W ks p b t ts = bindE (hello W ks p b t) (\<lambda>e. bindE (encrypt_all W ks p ts) (\<lambda>es. retE (e, es)))"

lemma open_with_spec:
  fixes W :: "('r, 'k) webcrypto"
  assumes "key_laws W" and "has_identity W cA" and "publishes W cB b" and "\<forall>x \<in> set (t # ts). encodable x"
    and "int (length ts) \<le> MAX_SKIP + 1" and "next_public W rb \<noteq> bspk_publicKey (b_signedPreKey b)"
  shows "\<exists>e es. fst (open_with W (spec_store a) p b t ts (cA, r)) = Inr (e, es) \<and> length es = length ts \<and>
    (\<forall>ms. mset ms = mset (zip es ts) \<longrightarrow>
       fst (decrypt_all W (spec_store a') q (e # map fst ms) (cB, rb)) = Inr (t # map snd ms))"
proof -
  have t: "encodable t" "\<forall>x \<in> set ts. encodable x" using assms(4) by simp_all
  obtain e s ck where hello: "hello W (spec_store a) p b t (cA, r) = (Inr e, (put_session p s cA, after_hello W r))"
    and s: "sending W ck s" "sendCount s = 1" "prevSendCount s = 0" "pendingPreKeyMsg s = None" "recvChainKey s = None"
      "theirRatchetPublic s = Some (bspk_publicKey (b_signedPreKey b))" "skipped s = Map.empty"
      "dh_keypair W (ourRatchetPublic s) (ourRatchetPrivate s)"
    and dec: "\<forall>q rb a'. next_public W rb \<noteq> bspk_publicKey (b_signedPreKey b) \<longrightarrow> (\<exists>u cks.
       decrypt W (spec_store a') q e (cB, rb) = (Inr t, (put_session q u (consumed b cB), snd (generateKey W rb))) \<and>
       awaiting W (ourRatchetPublic s) ck {1..} u \<and> recvCount u = 1 \<and> linked W cks ck u s \<and> sendCount u = 0)"
    by (rule hello_decrypts [OF assms(1-3) t(1)])
  obtain u where u: "decrypt W (spec_store a') q e (cB, rb) =
      (Inr t, (put_session q u (consumed b cB), snd (generateKey W rb)))"
    "awaiting W (ourRatchetPublic s) ck {1..} u" "recvCount u = 1"
    using dec assms(6) by blast
  let ?ns = "map (\<lambda>i. sendCount s + int i) [0..<length ts]"
  obtain es c' r' where es: "encrypt_all W (spec_store a) p ts (put_session p s cA, after_hello W r) = (Inr es, (c', r'))"
    "length es = length ts" "list_all2 (carries W (ourRatchetPublic s) ck (prevSendCount s)) ?ns (zip es ts)"
    using encrypt_all_carried [OF assms(1) s(1,8,4) _ t(2), of "put_session p s cA" p] by fastforce
  have "fst (decrypt_all W (spec_store a') q (e # map fst ms) (cB, rb)) = Inr (t # map snd ms)"
    if perm: "mset ms = mset (zip es ts)" for ms
  proof -
    let ?R = "carries W (ourRatchetPublic s) ck (prevSendCount s)"
    have "list_all2 ?R\<inverse>\<inverse> (zip es ts) ?ns" using es(3) by (simp only: list.rel_flip)
    from list_all2_reorder_left_invariance [OF this perm] obtain ns
      where "list_all2 ?R\<inverse>\<inverse> ms ns" and mset: "mset ns = mset ?ns" by blast
    then have ns: "list_all2 ?R ns ms" by (simp only: list.rel_flip)
    have "distinct ?ns" by (simp add: distinct_map inj_on_def)
    with mset have "distinct ns" using mset_eq_imp_distinct_iff by blast
    moreover have set: "set ns = (\<lambda>i. 1 + int i) ` {0..<length ts}"
      using mset_eq_setD [OF mset] s(2) by simp
    moreover have "\<forall>n \<in> set ns. 0 \<le> n \<and> n \<le> recvCount u + MAX_SKIP"
      using set u(3) assms(5) by auto
    ultimately have "fst (decrypt_all W (spec_store a') q (map fst ms)
        (put_session q u (consumed b cB), snd (generateKey W rb))) = Inr (map snd ms)"
      by (intro decrypt_all_any_order [OF assms(1) u(2) _ ns]) auto
    with u(1) show ?thesis by (auto simp: bindE_def split: prod.splits sum.splits)
  qed
  moreover have "fst (open_with W (spec_store a) p b t ts (cA, r)) = Inr (e, es)"
    using hello es(1) by (simp add: open_with_def bindE_def)
  ultimately show ?thesis using es(2) by blast
qed

text \<open>C3: On IndexedDB: an initiator that opens a session from a bundle and encrypts up to 502 messages
  before any reply never fails, and the publisher of the bundle who receives the first envelope first
  and the others in any order at all decrypts every one of them to its text.\<close>

theorem first_contact_any_order:
  fixes W :: "('r, 'k) webcrypto"
  assumes "subtle_laws W" and "idb_ok dA" and "has_identity W (idb_view dA)"
    and "idb_ok dB" and "publishes W (idb_view dB) b" and "\<forall>x \<in> set (t # ts). encodable x"
    and "int (length ts) \<le> MAX_SKIP + 1" and "next_public W rb \<noteq> bspk_publicKey (b_signedPreKey b)"
  shows "\<exists>e es. fst (open_with W IndexedDbKeyStore p b t ts (dA, r)) = Inr (e, es) \<and> length es = length ts \<and>
    (\<forall>ms. mset ms = mset (zip es ts) \<longrightarrow>
       fst (decrypt_all W IndexedDbKeyStore q (e # map fst ms) (dB, rb)) = Inr (t # map snd ms))"
proof -
  have "refinesE (ok_world idb_ok) (view_world idb_view) (open_with W IndexedDbKeyStore p b t ts)
      (open_with W (spec_store False) p b t ts)"
    unfolding open_with_def
    by (intro refinesE_bindE refinesE_pure indexed_db.hello_refines indexed_db.encrypt_all_refines)
  note idb = refinesE_fst [OF this assms(2)] refinesE_fst [OF indexed_db.decrypt_all_refines assms(4)]
  show ?thesis unfolding idb
    by (rule open_with_spec [OF subtle_key_laws [OF assms(1)] assms(3,5-8)])
qed

theorem first_contact_any_order_witness:
  "\<exists>e e1 e2. fst (open_with demo_crypto IndexedDbKeyStore (js ''bob'') demo_bundle (js ''hi'') [js ''a'', js ''b'']
       (disk_of demo_alice, 10)) = Inr (e, [e1, e2]) \<and>
     fst (decrypt_all demo_crypto IndexedDbKeyStore (js ''alice'') [e, e2, e1] (disk_of demo_bob, 13)) =
       Inr [js ''hi'', js ''b'', js ''a'']"
proof -
  have fresh: "next_public demo_crypto 13 \<noteq> bspk_publicKey (b_signedPreKey demo_bundle)"
    using demo_fresh by (simp add: demo_after_hello)
  obtain e es where "fst (open_with demo_crypto IndexedDbKeyStore (js ''bob'') demo_bundle (js ''hi'') [js ''a'', js ''b'']
       (disk_of demo_alice, 10)) = Inr (e, es)" "length es = length [js ''a'', js ''b'']"
    and dec: "\<forall>ms. mset ms = mset (zip es [js ''a'', js ''b'']) \<longrightarrow>
       fst (decrypt_all demo_crypto IndexedDbKeyStore (js ''alice'') (e # map fst ms) (disk_of demo_bob, 13)) =
         Inr (js ''hi'' # map snd ms)"
    using first_contact_any_order [OF demo_laws disk_of(1) _ disk_of(1) _ _ _ fresh, of demo_alice demo_bob "js ''hi''"
        "[js ''a'', js ''b'']" "js ''bob''" 10 "js ''alice''"]
    by (auto simp: demo_alice_identity demo_publishes encodable_js MAX_SKIP_def)
  moreover from this(2) obtain e1 e2 where "es = [e1, e2]" by (auto simp: length_Suc_conv)
  ultimately show ?thesis
    using dec [rule_format, of "[(e2, js ''b''), (e1, js ''a'')]"] by auto
qed

section \<open>Refusals\<close>



text \<open>Calls that cannot proceed change nothing: an envelope whose payload is not base64 of JSON, and
  encrypting to or decrypting a type-2 envelope from a peer without a session, throw and leave the
  contents of the IndexedDB store and the random source as they were.\<close>

theorem failed_calls_keep_store:
  assumes "idb_ok d" and "kc_sessions (idb_view d) p = None" and "env_type e \<noteq> 1"
  shows "(\<exists>x d'. decrypt W IndexedDbKeyStore p e (d, r) = (Inl x, (d', r)) \<and> idb_view d' = idb_view d \<and>
        (\<forall>v. payload_of e = Inr v \<longrightarrow> x = NoSession p)) \<and>
     (\<exists>d'. encrypt W IndexedDbKeyStore p t (d, r) = (Inl (NoSession p), (d', r)) \<and> idb_view d' = idb_view d)"
proof -
  let ?c = "idb_view d"
  have ok: "ok_world idb_ok (d, r)" using assms(1) by simp
  have "encrypt W (spec_store False) p t (?c, r) = (Inl (NoSession p), (?c, r))"
    using assms(2) by (simp add: encrypt_def bindE_def spec_store_simps)
  then have enc: "encrypt W (spec_store False) p t (view_world idb_view (d, r)) = (Inl (NoSession p), (?c, r))" by simp
  have a: "\<exists>d'. encrypt W IndexedDbKeyStore p t (d, r) = (Inl (NoSession p), (d', r)) \<and> idb_view d' = idb_view d"
    by (rule refinesE_D [OF indexed_db.encrypt_refines ok enc]) auto
  have "\<exists>x. decrypt W (spec_store False) p e (?c, r) = (Inl x, (?c, r)) \<and> (\<forall>v. payload_of e = Inr v \<longrightarrow> x = NoSession p)"
    using assms(2,3) by (cases "payload_of e") (simp_all add: decrypt_def bindE_def spec_store_simps payload_of_def)
  then obtain x where x: "decrypt W (spec_store False) p e (view_world idb_view (d, r)) = (Inl x, (?c, r))"
    "\<forall>v. payload_of e = Inr v \<longrightarrow> x = NoSession p" by auto
  have "\<exists>x d'. decrypt W IndexedDbKeyStore p e (d, r) = (Inl x, (d', r)) \<and> idb_view d' = idb_view d \<and>
      (\<forall>v. payload_of e = Inr v \<longrightarrow> x = NoSession p)"
    by (rule refinesE_D [OF indexed_db.decrypt_refines ok x(1)]) (use x(2) in auto)
  with a show ?thesis by blast
qed

theorem failed_calls_keep_store_witness:
  "fst (encrypt demo_crypto IndexedDbKeyStore (js ''bob'') (js ''hi'') (disk_of demo_alice, 10)) = Inl (NoSession (js ''bob'')) \<and>
   (\<exists>x. fst (decrypt demo_crypto IndexedDbKeyStore (js ''bob'')
      \<lparr>env_type = 2, env_ciphertext = js ''!'', env_registrationId = 0\<rparr> (disk_of demo_alice, 10)) = Inl x)"
proof -
  have "kc_sessions (idb_view (disk_of demo_alice)) (js ''bob'') = None"
    by (simp add: demo_alice_def demo_contents_def)
  from failed_calls_keep_store [OF disk_of(1) this, of "\<lparr>env_type = 2, env_ciphertext = js ''!'', env_registrationId = 0\<rparr>"
      demo_crypto 10 "js ''hi''"]
  show ?thesis by auto
qed

section \<open>Sending\<close>

text \<open>Consecutive calls of encrypt number their messages consecutively from the session's counter,
  name its ratchet key, and seal each under the key of its own number in the sending chain, so no
  (ratchet key, number) pair and no chain position is used twice.\<close>

theorem encrypt_numbers_messages:
  assumes "subtle_laws W" and "idb_ok d" and "kc_sessions (idb_view d) p = Some s" and "sending W ck s"
    and "dh_keypair W (ourRatchetPublic s) (ourRatchetPrivate s)" and "pendingPreKeyMsg s = None"
    and "\<forall>t \<in> set ts. encodable t"
  shows "\<exists>es. fst (encrypt_all W IndexedDbKeyStore p ts (d, r)) = Inr es \<and> length es = length ts \<and>
    (\<forall>i < length ts. \<exists>w. env_type (es ! i) = 2 \<and> payload_of (es ! i) = Inr (wire_json w) \<and>
       h_rk (w_h w) = ourRatchetPublic s \<and> h_n (w_h w) = sendCount s + int i \<and> h_pn (w_h w) = prevSendCount s \<and>
       aesGcmDecrypt W (message_key W ck (nat (sendCount s + int i))) (w_ct w) (w_iv w) = Inr (text_encode (ts ! i)))"
proof -
  obtain es c' r' where es: "encrypt_all W (spec_store False) p ts (idb_view d, r) = (Inr es, (c', r'))"
    "length es = length ts"
    "list_all2 (carries W (ourRatchetPublic s) ck (prevSendCount s))
      (map (\<lambda>i. sendCount s + int i) [0..<length ts]) (zip es ts)"
    using encrypt_all_carried [OF subtle_key_laws [OF assms(1)] assms(4-6,3,7)] by blast
  have "carries W (ourRatchetPublic s) ck (prevSendCount s) (sendCount s + int i) (es ! i, ts ! i)"
    if "i < length ts" for i
    using list_all2_nthD [OF es(3), of i] that es(2) by simp
  then have "\<forall>i < length ts. \<exists>w. env_type (es ! i) = 2 \<and> payload_of (es ! i) = Inr (wire_json w) \<and>
       h_rk (w_h w) = ourRatchetPublic s \<and> h_n (w_h w) = sendCount s + int i \<and> h_pn (w_h w) = prevSendCount s \<and>
       aesGcmDecrypt W (message_key W ck (nat (sendCount s + int i))) (w_ct w) (w_iv w) = Inr (text_encode (ts ! i))"
    unfolding carries_def sealed_def by (metis fst_conv snd_conv)
  moreover have "fst (encrypt_all W IndexedDbKeyStore p ts (d, r)) = Inr es"
    by (rule trans [OF refinesE_fst [OF indexed_db.encrypt_all_refines assms(2)]]) (simp add: es(1))
  ultimately show ?thesis using es(2) by blast
qed

theorem encrypt_numbers_messages_witness:
  "\<exists>es. fst (encrypt_all demo_crypto IndexedDbKeyStore (js ''alice'') [js ''a'', js ''b''] (disk_of demo_talking, 20)) = Inr es \<and>
     (\<exists>w. payload_of (es ! 1) = Inr (wire_json w) \<and> h_n (w_h w) = 1)"
proof -
  have s: "kc_sessions (idb_view (disk_of demo_talking)) (js ''alice'') = Some demo_session"
    by (simp add: demo_talking_def)
  have d: "dh_keypair demo_crypto (ourRatchetPublic demo_session) (ourRatchetPrivate demo_session)"
    "pendingPreKeyMsg demo_session = None" "sendCount demo_session = 0"
    by (simp_all add: demo_session_def demo_keypair)
  obtain es where "fst (encrypt_all demo_crypto IndexedDbKeyStore (js ''alice'') [js ''a'', js ''b''] (disk_of demo_talking, 20)) = Inr es"
    and es: "\<forall>i < length [js ''a'', js ''b'']. \<exists>w. env_type (es ! i) = 2 \<and> payload_of (es ! i) = Inr (wire_json w) \<and>
       h_rk (w_h w) = ourRatchetPublic demo_session \<and> h_n (w_h w) = sendCount demo_session + int i \<and>
       h_pn (w_h w) = prevSendCount demo_session \<and>
       aesGcmDecrypt demo_crypto (message_key demo_crypto demo_ck (nat (sendCount demo_session + int i))) (w_ct w) (w_iv w) =
         Inr (text_encode ([js ''a'', js ''b''] ! i))"
    using encrypt_numbers_messages [OF demo_laws disk_of(1) s demo_sending d(1,2), of "[js ''a'', js ''b'']" 20]
    by (auto simp: encodable_js)
  moreover from es [rule_format, of 1] have "\<exists>w. payload_of (es ! 1) = Inr (wire_json w) \<and> h_n (w_h w) = 1"
    using d(3) by auto
  ultimately show ?thesis by blast
qed

section \<open>One-time pre-keys\<close>





definition demo_prekey_wire :: PreKeyWireMessage where
  "demo_prekey_wire = \<lparr>w_h = \<lparr>h_rk = demo_pub 11, h_n = 0, h_pn = 0\<rparr>, w_ct = js ''AAAA'', w_iv = js ''AAAA'',
     w_ik = demo_pub 1, w_ek = demo_pub 10, w_spkId = 7, w_opkId = Some 9\<rparr>"

lemma demo_envelope:
  obtains e where "env_type e = ty" "payload_of e = Inr (prekey_wire_json demo_prekey_wire)"
proof -
  have "latin1 (demo_pub r)" for r
    using dh_keypair_public(2) demo_keypair demo_laws by (auto simp: subtle_laws_def)
  then have "json_latin1 (prekey_wire_json demo_prekey_wire)"
    by (intro wire_json_wf(4)) (simp_all add: latin1_wire_def demo_prekey_wire_def)
  then obtain t where "bindR (atob t) json_parse = Inr (prekey_wire_json demo_prekey_wire)"
    using btoa_json [OF wire_json_wf(2)] by blast
  then show thesis
    by (intro that [of "\<lparr>env_type = ty, env_ciphertext = t, env_registrationId = 0\<rparr>"]) (simp_all add: payload_of_def)
qed


section \<open>Skipped keys\<close>

text \<open>C7: skipMessageKeys either refuses a target more than 500 ahead and leaves the session as it is, or
  moves the receiving chain up to the target and stores exactly the key of every number passed over,
  under its name, at most 500 of them, changing no other entry.\<close>

theorem skipMessageKeys_spec:
  assumes "hmac_law W" and "key32 ck" and "recvChainKey s = Some ck" and "theirRatchetPublic s = Some their"
    and "their \<noteq> []"
  shows "if recvCount s + 500 < target then skipMessageKeys W target s = (Inl TooManySkipped, s)
    else \<exists>s'. skipMessageKeys W target s = (Inr (), s') \<and>
      recvCount s' = max (recvCount s) target \<and>
      recvChainKey s' = Some (chain_key W ck (nat (target - recvCount s))) \<and>
      (\<forall>n. skipped s' (skippedKey their n) = (if recvCount s \<le> n \<and> n < target
         then Some (bufToHex (message_key W ck (nat (n - recvCount s)))) else skipped s (skippedKey their n))) \<and>
      card {k. skipped s' k \<noteq> skipped s k} \<le> 500 \<and>
      s' = s\<lparr>skipped := skipped s', recvChainKey := recvChainKey s', recvCount := recvCount s'\<rparr>"
proof (cases "recvCount s + 500 < target")
  case True
  with assms show ?thesis
    by (simp add: skipMessageKeys_cases(3) MAX_SKIP_def key32_not_Nil(1))
next
  case False
  let ?c = "recvCount s" let ?k = "nat (target - ?c)"
  let ?s = "s\<lparr>skipped := saved W their ck ?c ?k (skipped s), recvChainKey := Some (chain_key W ck ?k),
     recvCount := max ?c target\<rparr>"
  have "{k. skipped ?s k \<noteq> skipped s k} \<subseteq> skippedKey their ` {?c..<?c + int ?k}"
  proof
    fix k assume "k \<in> {k. skipped ?s k \<noteq> skipped s k}"
    then have "\<exists>n. k = skippedKey their n" using saved_other [of k their W ck ?c ?k "skipped s"] by auto
    with \<open>k \<in> _\<close> show "k \<in> skippedKey their ` {?c..<?c + int ?k}" by (auto split: if_splits)
  qed
  then have "card {k. skipped ?s k \<noteq> skipped s k} \<le> card (skippedKey their ` {?c..<?c + int ?k})"
    by (intro card_mono) auto
  also have "\<dots> \<le> ?k" using card_image_le [of "{?c..<?c + int ?k}" "skippedKey their"]
    by (simp del: int_nat_eq)
  also have "?k \<le> 500" using False by simp
  finally have "card {k. skipped ?s k \<noteq> skipped s k} \<le> 500" .
  moreover have "skipMessageKeys W target s = (Inr (), ?s)"
    using False by (intro skipMessageKeys_eq [OF assms]) (simp add: MAX_SKIP_def)
  ultimately show ?thesis using False by (intro if_not_P [THEN iffD2] exI [of _ ?s]) auto
qed

theorem skipMessageKeys_spec_witness:
  "skipMessageKeys demo_crypto 501 demo_session = (Inl TooManySkipped, demo_session) \<and>
   (\<exists>s'. skipMessageKeys demo_crypto 3 demo_session = (Inr (), s') \<and>
      skipped s' (skippedKey (demo_pub 12) 2) = Some (bufToHex (message_key demo_crypto demo_ck 2)))"
proof -
  have s: "hmac_law demo_crypto" "recvChainKey demo_session = Some demo_ck"
    "theirRatchetPublic demo_session = Some (demo_pub 12)" "recvCount demo_session = 0"
    using demo_laws by (simp_all add: subtle_laws_def demo_session_def)
  note spec = skipMessageKeys_spec [OF s(1) demo_key32 s(2,3) demo_pub_not_Nil]
  from spec [of 501] have "skipMessageKeys demo_crypto 501 demo_session = (Inl TooManySkipped, demo_session)"
    by (simp add: s(4))
  moreover from spec [of 3] have "\<exists>s'. skipMessageKeys demo_crypto 3 demo_session = (Inr (), s') \<and>
      (\<forall>n. skipped s' (skippedKey (demo_pub 12) n) = (if 0 \<le> n \<and> n < 3
         then Some (bufToHex (message_key demo_crypto demo_ck (nat n))) else skipped demo_session (skippedKey (demo_pub 12) n)))"
    by (auto simp: s(4))
  ultimately show ?thesis by fastforce
qed

text \<open>Many receptions in a row.\<close>

fun receive_all :: "('r, 'k) webcrypto \<Rightarrow> RatchetHeader list \<Rightarrow> ('r, unit) on_session" where
  "receive_all W [] = retE ()"
| "receive_all W (h # hs) = bindE (receive W h) (\<lambda>_. receive_all W hs)"

lemma receive_all_gaps:
  assumes "key_laws W" and "awaiting W their ck todo s" and "recvCount s = 501 * int j" and "{recvCount s..} \<subseteq> todo"
  shows "\<exists>s'. receive_all W (map (\<lambda>i. \<lparr>h_rk = their, h_n = 501 * int i + 500, h_pn = 0\<rparr>) [j..<j + k]) (s, r) = (Inr (), (s', r)) \<and>
     awaiting W their ck (todo - (\<lambda>i. 501 * int i + 500) ` {j..<j + k}) s' \<and> recvCount s' = 501 * int (j + k)"
  using assms(2-4)
proof (induction k arbitrary: s todo j)
  case (Suc k)
  let ?h = "\<lparr>h_rk = their, h_n = 501 * int j + 500, h_pn = 0\<rparr>"
  obtain s' where s': "receive W ?h (s, r) = (Inr (message_key W ck (nat (h_n ?h))), (s', r))"
    "awaiting W their ck (todo - {h_n ?h}) s'" "recvCount s' = max (recvCount s) (h_n ?h + 1)"
    by (rule receive_known [OF assms(1) Suc.prems(1), of ?h r]) (use Suc.prems(2,3) in \<open>auto simp: MAX_SKIP_def\<close>)
  have c: "recvCount s' = 501 * int (Suc j)" using s'(3) Suc.prems(2) by simp
  have "{recvCount s'..} \<subseteq> todo - {h_n ?h}" using s'(3) Suc.prems(2,3) by auto
  from Suc.IH [OF s'(2) c this] obtain t where
    "receive_all W (map (\<lambda>i. \<lparr>h_rk = their, h_n = 501 * int i + 500, h_pn = 0\<rparr>) [Suc j..<Suc j + k]) (s', r) = (Inr (), (t, r))"
    "awaiting W their ck (todo - {h_n ?h} - (\<lambda>i. 501 * int i + 500) ` {Suc j..<Suc j + k}) t" "recvCount t = 501 * int (Suc j + k)"
    by blast
  moreover have "[j..<j + Suc k] = j # [Suc j..<Suc j + k]" by (simp add: upt_conv_Cons del: upt_Suc)
  moreover have "todo - {h_n ?h} - (\<lambda>i. 501 * int i + 500) ` {Suc j..<Suc j + k} =
      todo - (\<lambda>i. 501 * int i + 500) ` {j..<j + Suc k}"
    by (auto simp: atLeastLessThanSuc_atLeastAtMost image_iff)
  ultimately show ?case using s'(1) by (intro exI [of _ t]) (simp add: bindE_def del: upt_Suc)
qed simp

text \<open>The limit of 500 is per call and not on the keys kept: a peer that leaves a gap of 500 before each
  message is never refused, and after k messages the session holds 500 k skipped keys.\<close>

theorem skipped_keys_unbounded:
  assumes "subtle_laws W" and "awaiting W their ck {0..} s" and "recvCount s = 0"
  shows "\<exists>s'. receive_all W (map (\<lambda>i. \<lparr>h_rk = their, h_n = 501 * int i + 500, h_pn = 0\<rparr>) [0..<k]) (s, r) = (Inr (), (s', r)) \<and>
     (\<forall>i < k. \<forall>j < 500. skipped s' (skippedKey their (501 * int i + int j)) \<noteq> None)"
proof -
  obtain s' where s': "receive_all W (map (\<lambda>i. \<lparr>h_rk = their, h_n = 501 * int i + 500, h_pn = 0\<rparr>) [0..<k]) (s, r) = (Inr (), (s', r))"
    "awaiting W their ck ({0..} - (\<lambda>i. 501 * int i + 500) ` {0..<k}) s'" "recvCount s' = 501 * int k"
    using receive_all_gaps [OF subtle_key_laws [OF assms(1)] assms(2), of 0 k r] assms(3) by auto
  have "skipped s' (skippedKey their (501 * int i + int j)) \<noteq> None" if "i < k" "j < 500" for i j
  proof -
    have "501 * int i + int j \<noteq> 501 * int m + 500" for m
      using that(2) by (cases "m < i") linarith+
    moreover have "501 * int i + int j < 501 * int k"
      using that(2) Suc_leI [OF that(1)] by linarith
    ultimately show ?thesis using s'(2,3) by (auto simp: awaiting_def)
  qed
  with s'(1) show ?thesis by blast
qed

theorem skipped_keys_unbounded_witness:
  "\<exists>s'. receive_all demo_crypto [\<lparr>h_rk = demo_pub 12, h_n = 500, h_pn = 0\<rparr>, \<lparr>h_rk = demo_pub 12, h_n = 1001, h_pn = 0\<rparr>]
      (demo_session, 20) = (Inr (), (s', 20)) \<and>
    skipped s' (skippedKey (demo_pub 12) 0) \<noteq> None \<and> skipped s' (skippedKey (demo_pub 12) 1000) \<noteq> None"
proof -
  have "recvCount demo_session = 0" by (simp add: demo_session_def)
  from skipped_keys_unbounded [OF demo_laws demo_awaiting this, of 2 20] obtain s' where
    "receive_all demo_crypto (map (\<lambda>i. \<lparr>h_rk = demo_pub 12, h_n = 501 * int i + 500, h_pn = 0\<rparr>) [0..<2]) (demo_session, 20) = (Inr (), (s', 20))"
    and keys: "\<forall>i < 2. \<forall>j < 500. skipped s' (skippedKey (demo_pub 12) (501 * int i + int j)) \<noteq> None"
    by blast
  moreover have "skipped s' (skippedKey (demo_pub 12) 0) \<noteq> None" using keys [rule_format, of 0 0] by simp
  moreover have "skipped s' (skippedKey (demo_pub 12) 1000) \<noteq> None" using keys [rule_format, of 1 499] by simp
  ultimately show ?thesis by (auto simp: upt_rec)
qed

section \<open>Envelopes that do damage\<close>

text \<open>C33: A replayed envelope is not recognised: for a message number below the counter whose key has been
  used, the receiving chain is advanced and the counter is set back to that number plus one. The
  genuine next message then gets the key of another position of the chain.\<close>

theorem replay_desynchronises:
  assumes "subtle_laws W" and "awaiting W their ck todo s" and "0 \<le> n" and "n < recvCount s" and "n \<notin> todo"
    and "recvCount s \<le> n + 501"
  shows "\<exists>s' s''. receive W \<lparr>h_rk = their, h_n = n, h_pn = pn\<rparr> (s, r) =
      (Inr (message_key W ck (nat (recvCount s))), (s', r)) \<and> recvCount s' = n + 1 \<and>
    receive W \<lparr>h_rk = their, h_n = recvCount s, h_pn = pn\<rparr> (s', r) =
      (Inr (message_key W ck (nat (2 * recvCount s - n))), (s'', r))"
proof -
  note laws = key_lawsD [OF subtle_key_laws [OF assms(1)]]
  let ?c = "recvCount s"
  have a: "theirRatchetPublic s = Some their" "their \<noteq> []" "key32 ck" "0 \<le> ?c"
    "recvChainKey s = Some (chain_key W ck (nat ?c))"
    "skipped s (skippedKey their n) = None" "\<forall>m \<ge> ?c. skipped s (skippedKey their m) = None"
    using assms(2,5) by (auto simp: awaiting_def)
  have step: "kdfChainKey W (chain_key W ck m) = Inr (message_key W ck m, chain_key W ck (Suc m))"
    "chain_key W ck m \<noteq> []" for m
    using chain_step(2) [OF laws(4) a(3)] truthy_chain_key [OF laws(4) a(3)] by blast+
  let ?s = "s\<lparr>recvChainKey := Some (chain_key W ck (Suc (nat ?c))), recvCount := n + 1\<rparr>"
  have skip: "skipMessageKeys W n s = (Inr (), s)"
    using a assms(4) step(2) by (simp add: skipMessageKeys_def MAX_SKIP_def skip_loop.simps)
  have one: "receive W \<lparr>h_rk = their, h_n = n, h_pn = pn\<rparr> (s, r) = (Inr (message_key W ck (nat ?c)), (?s, r))"
    using a step skip by (simp add: receive_def getS_def onS_def bindE_def takeMessageKey_def Let_def)
  let ?k = "nat (?c - (n + 1))"
  let ?t = "?s\<lparr>skipped := saved W their (chain_key W ck (Suc (nat ?c))) (n + 1) ?k (skipped s),
     recvChainKey := Some (chain_key W ck (Suc (nat ?c) + ?k)), recvCount := ?c\<rparr>"
  have "skipMessageKeys W ?c ?s = (Inr (), ?t)"
    using skipMessageKeys_eq [OF laws(4) chain_step(1) [OF laws(4) a(3)], of ?s "Suc (nat ?c)" their ?c] a assms(4,6)
    by (simp add: MAX_SKIP_def chain_key_shift max_def)
  moreover have idx: "Suc (nat ?c) + ?k = nat (2 * ?c - n)" using assms(3,4) by simp
  ultimately have two: "receive W \<lparr>h_rk = their, h_n = ?c, h_pn = pn\<rparr> (?s, r) =
      (Inr (message_key W ck (nat (2 * ?c - n))), (?t\<lparr>recvChainKey := Some (chain_key W ck (Suc (nat (2 * ?c - n)))),
        recvCount := ?c + 1\<rparr>, r))"
    using a step by (simp add: receive_def getS_def onS_def bindE_def takeMessageKey_def Let_def del: saved.simps)
  show ?thesis
    by (intro exI [of _ ?s] exI conjI) (rule one, simp, rule two)
qed

theorem replay_desynchronises_witness:
  "\<exists>s s'. recvCount s = 1 \<and> receive demo_crypto \<lparr>h_rk = demo_pub 12, h_n = 0, h_pn = 0\<rparr> (demo_session, 20) =
      (Inr (message_key demo_crypto demo_ck 0), (s, 20)) \<and>
     receive demo_crypto \<lparr>h_rk = demo_pub 12, h_n = 0, h_pn = 0\<rparr> (s, 20) =
      (Inr (message_key demo_crypto demo_ck 1), (s', 20)) \<and>
     fst (receive demo_crypto \<lparr>h_rk = demo_pub 12, h_n = 1, h_pn = 0\<rparr> (s', 20)) =
      Inr (message_key demo_crypto demo_ck 2)"
proof -
  let ?h = "\<lparr>h_rk = demo_pub 12, h_n = 0, h_pn = 0\<rparr>"
  obtain s where s: "receive demo_crypto ?h (demo_session, 20) = (Inr (message_key demo_crypto demo_ck (nat (h_n ?h))), (s, 20))"
    "awaiting demo_crypto (demo_pub 12) demo_ck ({0..} - {h_n ?h}) s" "recvCount s = max (recvCount demo_session) (h_n ?h + 1)"
    by (rule receive_known [OF demo_key_laws demo_awaiting, of ?h 20]) (simp_all add: MAX_SKIP_def demo_session_def)
  have "recvCount s = 1" using s(3) by (simp add: demo_session_def)
  with replay_desynchronises [OF demo_laws s(2), of 0 0 20] s(1) show ?thesis by force
qed

text \<open>C34: A message of an earlier ratchet chain that arrives late takes the session back: although its key
  was kept and is found, a DH ratchet step to the old key of the peer is made first, which replaces
  the root key, both chains and the session's own ratchet key.\<close>

theorem late_message_reverts_ratchet:
  assumes "subtle_laws W" and "awaiting W their ck todo s" and "dh_keypair W (ourRatchetPublic s) (ourRatchetPrivate s)"
    and "dh_keypair W old priv" and "old \<noteq> their" and "skipped s (skippedKey old n) = Some (bufToHex key)"
    and "pn \<le> recvCount s + 500"
  shows "\<exists>s'. receive W \<lparr>h_rk = old, h_n = n, h_pn = pn\<rparr> (s, r) = (Inr key, (s', snd (generateKey W r))) \<and>
     theirRatchetPublic s' = Some old \<and> recvCount s' = 0 \<and> sendCount s' = 0 \<and> prevSendCount s' = sendCount s \<and>
     ourRatchetPublic s' = next_public W r \<and>
     (\<exists>d. dh W (ourRatchetPrivate s) old = Inr d \<and>
        (\<exists>rk ckr. kdfRootKey W (rootKey s) d = Inr (rk, ckr) \<and> recvChainKey s' = Some ckr))"
proof -
  note laws = key_lawsD [OF subtle_key_laws [OF assms(1)]]
  obtain s1 where s1: "skipMessageKeys W pn s = (Inr (), s1)"
    "s1 = s\<lparr>skipped := skipped s1, recvChainKey := recvChainKey s1, recvCount := recvCount s1\<rparr>"
    "\<forall>m. skipped s1 (skippedKey old m) = skipped s (skippedKey old m)"
    by (rule awaiting_skip [OF laws(4) assms(2), of pn]) (use assms(5,7) in \<open>auto simp: MAX_SKIP_def\<close>)
  have same: "ourRatchetPrivate s1 = ourRatchetPrivate s" "rootKey s1 = rootKey s" "sendCount s1 = sendCount s"
    by (subst s1(2), simp)+
  obtain d where d: "dh W (ourRatchetPrivate s) old = Inr d" by (rule dh_comm [OF laws(1,2) assms(3,4)])
  obtain rk ckr where rk: "kdfRootKey W (rootKey s) d = Inr (rk, ckr)" by (rule kdfRootKey_total [OF laws(3)])
  obtain d2 where d2: "dh W (next_private W r) old = Inr d2" by (rule dh_comm [OF laws(1,2) next_keypair assms(4)])
  obtain rk2 cks where rk2: "kdfRootKey W rk d2 = Inr (rk2, cks)" by (rule kdfRootKey_total [OF laws(3)])
  let ?s = "s1\<lparr>recvChainKey := Some ckr, rootKey := rk2, recvCount := 0, sendChainKey := Some cks,
     prevSendCount := sendCount s, sendCount := 0, ourRatchetPublic := next_public W r,
     ourRatchetPrivate := next_private W r, theirRatchetPublic := Some old,
     skipped := (skipped s1)(skippedKey old n := None)\<rparr>"
  have "receive W \<lparr>h_rk = old, h_n = n, h_pn = pn\<rparr> (s, r) = (Inr key, (?s, snd (generateKey W r)))"
    using assms(2,5,6) s1(1,3) same d rk d2 rk2
    by (simp add: receive_def dhRatchet_def getS_def modS_def onS_def bindE_def onR_generate takeMessageKey_def awaiting_def)
  with d rk show ?thesis by (intro exI [of _ ?s]) simp
qed

theorem late_message_reverts_ratchet_witness:
  "\<exists>s'. receive demo_crypto \<lparr>h_rk = demo_pub 13, h_n = 4, h_pn = 0\<rparr>
       (demo_session\<lparr>skipped := [skippedKey (demo_pub 13) 4 \<mapsto> bufToHex [1]]\<rparr>, 20) = (Inr [1], (s', 21)) \<and>
     theirRatchetPublic s' = Some (demo_pub 13) \<and> ourRatchetPublic s' = demo_pub 20"
proof -
  let ?s = "demo_session\<lparr>skipped := [skippedKey (demo_pub 13) 4 \<mapsto> bufToHex [1]]\<rparr>"
  have "demo_pub 13 \<noteq> demo_pub 12" by (simp add: demo_pub_inject)
  moreover have "awaiting demo_crypto (demo_pub 12) demo_ck {0..} ?s"
    using \<open>demo_pub 13 \<noteq> demo_pub 12\<close> by (simp add: awaiting_def demo_session_def)
  moreover have "dh_keypair demo_crypto (ourRatchetPublic ?s) (ourRatchetPrivate ?s)" "0 \<le> recvCount ?s + 500"
    "skipped ?s (skippedKey (demo_pub 13) 4) = Some (bufToHex [1])"
    by (simp_all add: demo_session_def demo_keypair)
  ultimately show ?thesis
    using late_message_reverts_ratchet [OF demo_laws _ _ demo_keypair, of "demo_pub 12" demo_ck "{0..}" ?s 13 4 "[1]" 0 20]
    by auto
qed

lemma decrypt_view:
  assumes "idb_ok d" and "decrypt W (spec_store False) p e (idb_view d, r) = (x, (c, r'))"
  obtains d' where "decrypt W IndexedDbKeyStore p e (d, r) = (x, (d', r'))" "idb_view d' = c"
proof -
  have "ok_world idb_ok (d, r)" using assms(1) by simp
  then show thesis
    using refinesE_D [OF indexed_db.decrypt_refines, of "(d, r)" W p e x "(c, r')"] assms(2) that by fastforce
qed

text \<open>C31: The ratchet step is stored before the message is authenticated: a type-2 envelope that anyone
  made up, with a fresh public key as ratchet key and a ciphertext that does not decrypt, makes
  decrypt throw and still replaces the stored session's chains and ratchet keys.\<close>

theorem forged_message_replaces_session:
  assumes "subtle_laws W" and "idb_ok d" and "kc_sessions (idb_view d) p = Some s"
    and "awaiting W their ck todo s" and "dh_keypair W (ourRatchetPublic s) (ourRatchetPrivate s)"
    and "dh_keypair W rk priv" and "rk \<noteq> their" and "\<forall>n. skipped s (skippedKey rk n) = None"
    and "env_type e = 2" and "payload_of e = Inr (wire_json \<lparr>w_h = \<lparr>h_rk = rk, h_n = 0, h_pn = 0\<rparr>, w_ct = ct, w_iv = iv\<rparr>)"
    and "\<forall>key. \<exists>x. aesGcmDecrypt W key ct iv = Inl x"
  shows "\<exists>x d' s'. decrypt W IndexedDbKeyStore p e (d, r) = (Inl x, (d', snd (generateKey W r))) \<and>
     kc_sessions (idb_view d') p = Some s' \<and> theirRatchetPublic s' = Some rk \<and>
     ourRatchetPublic s' = next_public W r \<and> sendCount s' = 0 \<and> recvCount s' = 1"
proof -
  note laws = key_lawsD [OF subtle_key_laws [OF assms(1)]]
  obtain s1 where s1: "skipMessageKeys W 0 s = (Inr (), s1)"
    "s1 = s\<lparr>skipped := skipped s1, recvChainKey := recvChainKey s1, recvCount := recvCount s1\<rparr>"
    "\<forall>m. skipped s1 (skippedKey rk m) = None"
    by (rule awaiting_skip [OF laws(4) assms(4), of 0])
      (use assms(4,7,8) in \<open>auto simp: MAX_SKIP_def awaiting_def\<close>)
  have same: "ourRatchetPrivate s1 = ourRatchetPrivate s" "rootKey s1 = rootKey s" by (subst s1(2), simp)+
  obtain d1 where d1: "dh W (ourRatchetPrivate s) rk = Inr d1" by (rule dh_comm [OF laws(1,2) assms(5,6)])
  obtain rt ckr where rt: "kdfRootKey W (rootKey s) d1 = Inr (rt, ckr)" "key32 ckr"
    by (rule kdfRootKey_total [OF laws(3)])
  obtain d2 where d2: "dh W (next_private W r) rk = Inr d2" by (rule dh_comm [OF laws(1,2) next_keypair assms(6)])
  obtain rt2 cks where rt2: "kdfRootKey W rt d2 = Inr (rt2, cks)" by (rule kdfRootKey_total [OF laws(3)])
  let ?s = "s1\<lparr>recvChainKey := Some ckr, recvCount := 0, sendChainKey := Some cks, rootKey := rt2,
     prevSendCount := sendCount s1, sendCount := 0, ourRatchetPublic := next_public W r,
     ourRatchetPrivate := next_private W r, theirRatchetPublic := Some rk\<rparr>"
  have aw: "awaiting W rk ckr {0..} ?s"
    using s1(3) rt(2) dh_keypair_public(1) [OF laws(2) assms(6)] by (simp add: awaiting_def)
  obtain s2 where s2: "takeMessageKey W rk 0 ?s = (Inr (message_key W ckr (nat 0)), s2)"
    "recvCount s2 = max (recvCount ?s) (0 + 1)"
    "s2 = ?s\<lparr>skipped := skipped s2, recvChainKey := recvChainKey s2, recvCount := recvCount s2\<rparr>"
    by (rule takeMessageKey_awaiting [OF laws(4) aw, of 0]) (simp_all add: MAX_SKIP_def)
  have fields: "theirRatchetPublic s2 = Some rk" "ourRatchetPublic s2 = next_public W r" "sendCount s2 = 0"
    by (subst s2(3), simp)+
  have rec: "receive W \<lparr>h_rk = rk, h_n = 0, h_pn = 0\<rparr> (s, r) = (Inr (message_key W ckr 0), (s2, snd (generateKey W r)))"
    using assms(4,7) s1(1) same d1 rt(1) d2 rt2 s2(1)
    by (simp add: receive_def dhRatchet_def getS_def modS_def onS_def bindE_def onR_generate awaiting_def)
  obtain x where x: "aesGcmDecrypt W (message_key W ckr 0) ct iv = Inl x" using assms(11) by blast
  have rec': "receive W (w_h \<lparr>w_h = \<lparr>h_rk = rk, h_n = 0, h_pn = 0\<rparr>, w_ct = ct, w_iv = iv\<rparr>) (s, r) =
      (Inr (message_key W ckr 0), (s2, snd (generateKey W r)))" using rec by simp
  have dec: "decrypt W (spec_store False) p e (idb_view d, r) =
      (Inl x, (put_session p s2 (idb_view d), snd (generateKey W r)))"
    using decrypt_eq [where a = False, OF _ assms(10) to_wire_json(1) assms(3) rec'] assms(9) x by simp
  show ?thesis
    by (rule decrypt_view [OF assms(2) dec]) (use fields s2(2) in auto)
qed

lemma demo_wire_envelope:
  obtains e where "env_type e = 2"
    "payload_of e = Inr (wire_json \<lparr>w_h = \<lparr>h_rk = demo_pub r, h_n = 0, h_pn = 0\<rparr>, w_ct = js ''!'', w_iv = js ''!''\<rparr>)"
proof -
  let ?w = "\<lparr>w_h = \<lparr>h_rk = demo_pub r, h_n = 0, h_pn = 0\<rparr>, w_ct = js ''!'', w_iv = js ''!''\<rparr>"
  have "latin1 (demo_pub r)"
    using dh_keypair_public(2) demo_keypair demo_laws by (auto simp: subtle_laws_def)
  then have "json_latin1 (wire_json ?w)" by (intro wire_json_wf(3)) (simp add: latin1_wire_def)
  then obtain t where "bindR (atob t) json_parse = Inr (wire_json ?w)"
    using btoa_json [OF wire_json_wf(1)] by blast
  then show thesis
    by (intro that [of "\<lparr>env_type = 2, env_ciphertext = t, env_registrationId = 0\<rparr>"]) (simp_all add: payload_of_def)
qed

theorem forged_message_replaces_session_witness:
  "\<exists>e x d' s'. decrypt demo_crypto IndexedDbKeyStore (js ''alice'') e (disk_of demo_talking, 20) = (Inl x, (d', 21)) \<and>
     kc_sessions (idb_view d') (js ''alice'') = Some s' \<and> theirRatchetPublic s' = Some (demo_pub 99) \<and>
     ourRatchetPublic s' = demo_pub 20"
proof -
  obtain e where e: "env_type e = 2"
    "payload_of e = Inr (wire_json \<lparr>w_h = \<lparr>h_rk = demo_pub 99, h_n = 0, h_pn = 0\<rparr>, w_ct = js ''!'', w_iv = js ''!''\<rparr>)"
    by (rule demo_wire_envelope)
  have s: "kc_sessions (idb_view (disk_of demo_talking)) (js ''alice'') = Some demo_session"
    by (simp add: demo_talking_def)
  have "dh_keypair demo_crypto (ourRatchetPublic demo_session) (ourRatchetPrivate demo_session)"
    "\<forall>n. skipped demo_session (skippedKey (demo_pub 99) n) = None"
    by (simp_all add: demo_session_def demo_keypair)
  moreover have "demo_pub 99 \<noteq> demo_pub 12" by (simp add: demo_pub_inject)
  moreover have "atob (js ''!'') = Inl (DOMExc ''InvalidCharacterError'')" by code_simp
  then have "\<forall>key. \<exists>x. aesGcmDecrypt demo_crypto key (js ''!'') (js ''!'') = Inl x"
    by (auto simp: aesGcmDecrypt_def base64ToBuf_def bindR_eq_Inl bindR_def split: sum.split)
  ultimately show ?thesis
    using forged_message_replaces_session [OF demo_laws disk_of(1) s demo_awaiting _ demo_keypair _ _ e, of 20] by auto
qed

text \<open>C32: A type-1 envelope replaces whatever session there is with the peer, and one whose one-time
  pre-key is gone, a replayed one for instance, is accepted: the session is derived without that key
  and stored before the message is authenticated.\<close>

theorem prekey_message_resets_session:
  assumes "subtle_laws W" and "idb_ok d" and "kc_sessions (idb_view d) p = Some s"
    and "env_type e = 1" and "payload_of e = Inr (prekey_wire_json pw)"
    and "kc_identity (idb_view d) = Some ik" and "dh_keypair W (ik_publicKey ik) (ik_privateKey ik)"
    and "kc_signedPreKeys (idb_view d) (w_spkId pw) = Some spk" and "dh_keypair W (pk_publicKey spk) (pk_privateKey spk)"
    and "w_opkId pw = Some i" and "kc_preKeys (idb_view d) i = None"
    and "dh_keypair W (w_ik pw) a" and "dh_keypair W (w_ek pw) b" and "dh_keypair W (h_rk (w_h pw)) c"
    and "h_n (w_h pw) = 0"
  shows "\<exists>d' s'. snd (decrypt W IndexedDbKeyStore p e (d, r)) = (d', snd (generateKey W r)) \<and>
     kc_sessions (idb_view d') p = Some s' \<and> theirRatchetPublic s' = Some (h_rk (w_h pw)) \<and>
     ourRatchetPublic s' = next_public W r \<and> \<not> isInitiator s' \<and> sendCount s' = 0 \<and> recvCount s' = 1 \<and>
     (\<exists>sk. x3dhRespond W (ik_privateKey ik) (pk_privateKey spk) None (w_ik pw) (w_ek pw) = Inr sk)"
proof -
  note laws = key_lawsD [OF subtle_key_laws [OF assms(1)]]
  let ?c = "idb_view d" and ?rk = "h_rk (w_h pw)"
  obtain sk where sk: "x3dhRespond W (ik_privateKey ik) (pk_privateKey spk) None (w_ik pw) (w_ek pw) = Inr sk"
    by (rule x3dh_shared [OF laws(1-3) assms(12,13,7,9), of None None]) simp_all
  obtain d1 where d1: "dh W (pk_privateKey spk) ?rk = Inr d1" by (rule dh_comm [OF laws(1,2) assms(9,14)])
  obtain r1 ckr where r1: "kdfRootKey W (bufToHex sk) d1 = Inr (r1, ckr)" "key32 ckr"
    by (rule kdfRootKey_total [OF laws(3)])
  obtain d2 where d2: "dh W (next_private W r) ?rk = Inr d2" by (rule dh_comm [OF laws(1,2) next_keypair assms(14)])
  obtain r2 cks where r2: "kdfRootKey W r1 d2 = Inr (r2, cks)" by (rule kdfRootKey_total [OF laws(3)])
  let ?s = "\<lparr>rootKey = r2, sendChainKey = Some cks, recvChainKey = Some ckr, sendCount = 0, recvCount = 0,
     prevSendCount = 0, ourRatchetPublic = next_public W r, ourRatchetPrivate = next_private W r,
     theirRatchetPublic = Some ?rk, skipped = Map.empty, isInitiator = False, pendingPreKeyMsg = None\<rparr>"
  have init: "initSessionFromPreKey W (spec_store False) p pw (?c, r) = (Inr ?s, (put_session p ?s ?c, snd (generateKey W r)))"
    using assms(6,8,10,11) sk d1 r1(1) d2 r2
    by (simp add: initSessionFromPreKey_def consumePreKey_def Let_def bindE_def spec_store_simps onR_generate)
  have aw: "awaiting W ?rk ckr {0..} ?s"
    using r1(2) dh_keypair_public(1) [OF laws(2) assms(14)] by (simp add: awaiting_def)
  let ?h = "\<lparr>h_rk = ?rk, h_n = 0, h_pn = h_pn (w_h pw)\<rparr>"
  obtain s2 where s2: "receive W ?h (?s, snd (generateKey W r)) =
      (Inr (message_key W ckr (nat (h_n ?h))), (s2, snd (generateKey W r)))"
    "recvCount s2 = max (recvCount ?s) (h_n ?h + 1)"
    "s2 = ?s\<lparr>skipped := skipped s2, recvChainKey := recvChainKey s2, recvCount := recvCount s2\<rparr>"
    by (rule receive_known [OF subtle_key_laws [OF assms(1)] aw, of ?h]) (simp_all add: MAX_SKIP_def)
  have "w_h (WireMessage.truncate pw) = ?h"
    using assms(15) by (cases "w_h pw") (simp add: WireMessage.truncate_def)
  with s2(1) have rec: "receive W (w_h (WireMessage.truncate pw)) (?s, snd (generateKey W r)) =
      (Inr (message_key W ckr 0), (s2, snd (generateKey W r)))" by simp
  obtain x where dec: "decrypt W (spec_store False) p e (?c, r) =
      (x, (put_session p s2 (put_session p ?s ?c), snd (generateKey W r)))"
    using decrypt_prekey_eq [OF assms(4,5) to_prekey_wire_json to_wire_json(2) init rec] by auto
  have fields: "theirRatchetPublic s2 = Some ?rk" "ourRatchetPublic s2 = next_public W r" "sendCount s2 = 0"
    "\<not> isInitiator s2" by (subst s2(3), simp)+
  show ?thesis
    by (rule decrypt_view [OF assms(2) dec]) (use fields s2(2) sk in auto)
qed

theorem prekey_message_resets_session_witness:
  "\<exists>e d' s'. snd (decrypt demo_crypto IndexedDbKeyStore (js ''alice'') e
       (disk_of (demo_talking\<lparr>kc_preKeys := Map.empty\<rparr>), 20)) = (d', 21) \<and>
     kc_sessions (idb_view d') (js ''alice'') = Some s' \<and> ourRatchetPublic s' = demo_pub 20"
proof -
  obtain e where e: "env_type e = 1" "payload_of e = Inr (prekey_wire_json demo_prekey_wire)"
    by (rule demo_envelope)
  let ?c = "demo_talking\<lparr>kc_preKeys := Map.empty\<rparr>"
  let ?ik = "\<lparr>ik_publicKey = demo_pub 2, ik_privateKey = demo_priv 2\<rparr>"
  let ?spk = "\<lparr>pk_id = 7, pk_publicKey = demo_pub 3, pk_privateKey = demo_priv 3, spk_signature = demo_signature\<rparr>"
  have c: "kc_sessions (idb_view (disk_of ?c)) (js ''alice'') = Some demo_session"
    "kc_identity (idb_view (disk_of ?c)) = Some ?ik"
    "kc_signedPreKeys (idb_view (disk_of ?c)) (w_spkId demo_prekey_wire) = Some ?spk"
    "w_opkId demo_prekey_wire = Some 9" "kc_preKeys (idb_view (disk_of ?c)) 9 = None"
    by (simp_all add: demo_talking_def demo_bob_def demo_prekey_wire_def)
  have k: "dh_keypair demo_crypto (ik_publicKey ?ik) (ik_privateKey ?ik)"
    "dh_keypair demo_crypto (pk_publicKey ?spk) (pk_privateKey ?spk)"
    "dh_keypair demo_crypto (w_ik demo_prekey_wire) (demo_priv 1)"
    "dh_keypair demo_crypto (w_ek demo_prekey_wire) (demo_priv 10)"
    "dh_keypair demo_crypto (h_rk (w_h demo_prekey_wire)) (demo_priv 11)" "h_n (w_h demo_prekey_wire) = 0"
    by (simp_all add: demo_keypair demo_prekey_wire_def)
  from prekey_message_resets_session [OF demo_laws disk_of(1) c(1) e c(2) k(1) c(3) k(2) c(4,5) k(3-6), of 20]
  show ?thesis by auto
qed

section \<open>Independence of the store\<close>






end
