(* ===== verification/LossyConversation.thy ===== *)
theory LossyConversation
  imports Conversation
begin

text \<open>
  Two managers that talk over a transport that loses messages and changes their order. \<open>lossy_step\<close> lets
  every message on its way be lost, and any of them be delivered next that overtakes no message of an
  earlier ratchet key; \<open>lossy_inv\<close> is its invariant, the one of theory Conversation with sets of numbers
  for the intervals. A message further ahead than \<open>MAX_SKIP\<close> is refused (\<open>in_reach\<close>), which loses it and
  nothing else.
\<close>

section \<open>Messages within reach\<close>

definition header_of :: "EncryptedEnvelope \<Rightarrow> RatchetHeader" where
  "header_of e = projr (bindR (payload_of e) to_header)"

text \<open>The two calls of skipMessageKeys that a header causes, and whether they accept it.\<close>

definition in_reach :: "RatchetHeader \<Rightarrow> RatchetSession \<Rightarrow> bool" where
  "in_reach h s \<longleftrightarrow> (if theirRatchetPublic s = Some (h_rk h) then h_n h \<le> recvCount s + MAX_SKIP
     else (recvChainKey s = None \<or> h_pn h \<le> recvCount s + MAX_SKIP) \<and> h_n h \<le> MAX_SKIP)"

lemma carriesD:
  assumes "carries W rk ck pn n (e, t)"
  shows "header_of e = \<lparr>h_rk = rk, h_n = n, h_pn = pn\<rparr>" "0 \<le> n"
proof -
  obtain w where w: "payload_of e = Inr (wire_json w)" "sealed W rk ck w t" "h_n (w_h w) = n" "h_pn (w_h w) = pn"
    using assms by (auto simp: carries_def)
  then show "header_of e = \<lparr>h_rk = rk, h_n = n, h_pn = pn\<rparr>"
    by (cases "w_h w") (simp add: header_of_def sealed_def)
  show "0 \<le> n" using w(2,3) by (simp add: sealed_def)
qed

text \<open>\<open>verdict\<close>: the message key of the chain, or the refusal.\<close>

definition verdict :: "bool \<Rightarrow> 'a \<Rightarrow> error + 'a" where
  "verdict ok x = (if ok then Inr x else Inl TooManySkipped)"

lemma takeMessageKey_refused:
  assumes "awaiting W their ck todo s" and "hmac_law W" and "recvCount s + MAX_SKIP < n"
  shows "takeMessageKey W their n s = (Inl TooManySkipped, s)"
proof -
  have "truthy (recvChainKey s)" "truthy (theirRatchetPublic s)"
    using assms(1) truthy_chain_key [OF assms(2)] by (auto simp: awaiting_def)
  then show ?thesis
    using assms(1,3) skipMessageKeys_cases(3) [of s n W] by (simp add: takeMessageKey_def awaiting_def bindE_def MAX_SKIP_def)
qed

lemma receive_awaited:
  assumes laws: "key_laws W" and a: "awaiting W their ck todo s"
    and h: "h_rk h = their" "h_n h \<in> todo" "0 \<le> h_n h"
  obtains s' todo' where "receive W h (s, r) = (verdict (in_reach h s) (message_key W ck (nat (h_n h))), (s', r))"
    "awaiting W their ck todo' s'" "todo - {h_n h} \<subseteq> todo'" "recvCount s' \<le> max (recvCount s) (h_n h + 1)"
    "s' = s\<lparr>skipped := skipped s', recvChainKey := recvChainKey s', recvCount := recvCount s'\<rparr>"
    "\<And>rk n. rk \<noteq> their \<Longrightarrow> skipped s' (skippedKey rk n) = skipped s (skippedKey rk n)"
proof -
  have reach: "in_reach h s \<longleftrightarrow> h_n h \<le> recvCount s + MAX_SKIP"
    using a h(1) by (simp add: in_reach_def awaiting_def)
  show thesis
  proof (cases "in_reach h s")
    case True
    then have "h_n h \<le> recvCount s + MAX_SKIP" using reach by simp
    from receive_known [OF laws a h this, of r] that True show thesis by (metis order_refl verdict_def)
  next
    case False
    then have "receive W h (s, r) = (Inl TooManySkipped, (s, r))"
      using takeMessageKey_refused [OF a key_lawsD(4) [OF laws], of "h_n h"] a h(1) reach
      by (simp add: receive_def getS_def onS_def bindE_def awaiting_def)
    with a False show thesis by (intro that [of s todo]) (auto simp: verdict_def)
  qed
qed

lemma receive_next_ratchet:
  fixes W :: "('r, 'k) webcrypto"
  assumes laws: "key_laws W" and link: "linked W ckx cky X Y" and fresh: "fresh_for (next_public W r) X"
    and old: "recvChainKey Y = None \<or> (\<exists>xo cko todo. awaiting W xo cko todo Y)"
    and h: "h_rk h = ourRatchetPublic X" "0 \<le> h_n h"
  shows "receive W h (Y, r) = (Inl TooManySkipped, (Y, r)) \<and> \<not> in_reach h Y \<or>
    (\<exists>Y' ckn todo'. receive W h (Y, r) = (verdict (in_reach h Y) (message_key W ckx (nat (h_n h))), (Y', snd (generateKey W r))) \<and>
      linked W ckn ckx Y' X \<and> awaiting W (ourRatchetPublic X) ckx todo' Y' \<and> {0..} - {h_n h} \<subseteq> todo' \<and>
      recvCount Y' \<le> h_n h + 1 \<and> sendCount Y' = 0 \<and> prevSendCount Y' = sendCount Y)"
proof -
  have new: "theirRatchetPublic Y \<noteq> Some (h_rk h)" using link h(1) by (simp add: linked_def)
  show ?thesis
  proof (cases "recvChainKey Y = None \<or> h_pn h \<le> recvCount Y + MAX_SKIP")
    case False
    then obtain xo cko todo where a: "awaiting W xo cko todo Y" using old by blast
    have "truthy (recvChainKey Y)" "truthy (theirRatchetPublic Y)"
      using a truthy_chain_key [OF key_lawsD(4) [OF laws]] by (auto simp: awaiting_def)
    with False have "receive W h (Y, r) = (Inl TooManySkipped, (Y, r))"
      using new skipMessageKeys_cases(3) [of Y "h_pn h" W]
      by (simp add: receive_def dhRatchet_def getS_def onS_def bindE_def)
    moreover have "\<not> in_reach h Y" using False new by (simp add: in_reach_def)
    ultimately show ?thesis by blast
  next
    case True
    with old have old': "recvChainKey Y = None \<or> (\<exists>xo cko todo. awaiting W xo cko todo Y \<and> h_pn h \<le> recvCount Y + MAX_SKIP)"
      by blast
    have reach: "in_reach h Y \<longleftrightarrow> h_n h \<le> MAX_SKIP" using True new by (simp add: in_reach_def)
    show ?thesis
    proof (cases "in_reach h Y")
      case True
      then have "h_n h \<le> MAX_SKIP" using reach by simp
      obtain Y' ckn where "receive W h (Y, r) = (Inr (message_key W ckx (nat (h_n h))), (Y', snd (generateKey W r)))"
        "linked W ckn ckx Y' X" "awaiting W (ourRatchetPublic X) ckx ({0..} - {h_n h}) Y'" "recvCount Y' = h_n h + 1"
        "sendCount Y' = 0" "prevSendCount Y' = sendCount Y"
        by (rule receive_ratchet [OF laws link fresh old' h \<open>h_n h \<le> MAX_SKIP\<close>])
      with True show ?thesis by (intro disjI2 exI [of _ Y'] exI [of _ ckn] exI [of _ "{0..} - {h_n h}"]) (simp add: verdict_def)
    next
      case False
      obtain Y1 ckn where Y1:
        "dhRatchet W (ourRatchetPublic X) (h_pn h) (Y, r) = (Inr (), (Y1, snd (generateKey W r)))"
        "linked W ckn ckx Y1 X" "awaiting W (ourRatchetPublic X) ckx {0..} Y1" "recvCount Y1 = 0" "sendCount Y1 = 0"
        "prevSendCount Y1 = sendCount Y"
        by (rule dhRatchet_linked [OF laws link fresh old'])
      have "takeMessageKey W (ourRatchetPublic X) (h_n h) Y1 = (Inl TooManySkipped, Y1)"
        by (rule takeMessageKey_refused [OF Y1(3) key_lawsD(4) [OF laws]]) (use False reach Y1(4) in simp)
      then have "receive W h (Y, r) = (Inl TooManySkipped, (Y1, snd (generateKey W r)))"
        using new h(1) Y1(1) by (simp add: receive_def getS_def onS_def bindE_def)
      with False Y1(2-6) h(2) show ?thesis
        by (intro disjI2 exI [of _ Y1] exI [of _ ckn] exI [of _ "{0..}"]) (auto simp: verdict_def)
    qed
  qed
qed

text \<open>What the key store is left with: the session of the call, or, when the message was refused, the
  stored one, unless a load of the store is the stored object itself.\<close>

lemma decrypt_verdict:
  assumes m: "carries W rk ck pn n (e, t)" and c: "kc_sessions c p = Some s"
    and rec: "receive W (header_of e) (s, r) = (verdict ok (message_key W ck (nat n)), (s', r'))"
  shows "decrypt W (spec_store a) p e (c, r) = (verdict ok t, (if ok \<or> a then put_session p s' c else c, r'))"
proof (cases ok)
  case True
  with rec carriesD(1) [OF m]
  have "receive W \<lparr>h_rk = rk, h_n = n, h_pn = pn\<rparr> (s, r) = (Inr (message_key W ck (nat n)), (s', r'))"
    by (simp add: verdict_def)
  from decrypt_carried [OF m c this, of a] True show ?thesis by (simp add: verdict_def)
next
  case False
  obtain w where w: "env_type e = 2" "payload_of e = Inr (wire_json w)"
    using m by (auto simp: carries_def)
  have "header_of e = w_h w" using w(2) by (simp add: header_of_def)
  with rec False have "receive W (w_h w) (s, r) = (Inl TooManySkipped, (s', r'))" by (simp add: verdict_def)
  with w c False show ?thesis
    by (simp add: decrypt_def bindE_def withSession_def spec_store_simps payload_of_def verdict_def)
qed

section \<open>A transport that loses and reorders\<close>

definition ratchet_key :: "EncryptedEnvelope \<times> jstr \<Rightarrow> jstr" where
  "ratchet_key m = h_rk (header_of (fst m))"

text \<open>\<open>us\<close> are the older messages on their way to the same party.\<close>

inductive lossy_step :: "('r, 'k) webcrypto \<Rightarrow> bool \<Rightarrow> (party \<Rightarrow> jstr) \<Rightarrow> 'r chat \<Rightarrow> 'r chat \<Rightarrow> bool"
  for W a pid where
  send: "encodable t \<Longrightarrow>
    encrypt W (spec_store a) (pid (other w)) t (stores S w, rand S) = (Inr e, (c, r)) \<Longrightarrow>
    lossy_step W a pid S (S\<lparr>stores := (stores S)(w := c), rand := r,
      inbox := (inbox S)(other w := inbox S (other w) @ [(e, t)])\<rparr>)"
| lose: "inbox S w = us @ m # vs \<Longrightarrow> lossy_step W a pid S (S\<lparr>inbox := (inbox S)(w := us @ vs)\<rparr>)"
| deliver: "inbox S w = us @ (e, t) # vs \<Longrightarrow> \<forall>u \<in> set us. ratchet_key u = ratchet_key (e, t) \<Longrightarrow>
    fresh_key W pid S w \<Longrightarrow>
    decrypt W (spec_store a) (pid (other w)) e (stores S w, rand S) = (res, (c, r)) \<Longrightarrow>
    lossy_step W a pid S (S\<lparr>stores := (stores S)(w := c), rand := r, inbox := (inbox S)(w := us @ vs)\<rparr>)"

inductive lossy_reachable :: "('r, 'k) webcrypto \<Rightarrow> bool \<Rightarrow> (party \<Rightarrow> jstr) \<Rightarrow> 'r chat \<Rightarrow> 'r chat \<Rightarrow> bool"
  for W a pid S0 where
  start: "lossy_reachable W a pid S0 S0"
| step: "lossy_reachable W a pid S0 S \<Longrightarrow> lossy_step W a pid S T \<Longrightarrow> lossy_reachable W a pid S0 T"

text \<open>Messages of one chain, each number once, all of \<open>N\<close>.\<close>

definition underway :: "('r, 'k) webcrypto \<Rightarrow> jstr \<Rightarrow> jstr \<Rightarrow> int \<Rightarrow> int set \<Rightarrow> (EncryptedEnvelope \<times> jstr) list \<Rightarrow> bool" where
  "underway W rk ck pn N ms \<longleftrightarrow> (\<exists>ns. carried W rk ck pn ns ms \<and> distinct ns \<and> set ns \<subseteq> N)"

lemma underway_Nil [simp]: "underway W rk ck pn N []"
  by (simp add: underway_def carried_def)

lemma underway_mono: "underway W rk ck pn N ms \<Longrightarrow> N \<subseteq> M \<Longrightarrow> underway W rk ck pn M ms"
  unfolding underway_def by blast

lemma underway_snoc:
  assumes "underway W rk ck pn N ms" and "carries W rk ck pn n m" and "n \<notin> N"
  shows "underway W rk ck pn (insert n N) (ms @ [m])"
proof -
  obtain ns where "carried W rk ck pn ns ms" "distinct ns" "set ns \<subseteq> N"
    using assms(1) by (auto simp: underway_def)
  with assms(2,3) show ?thesis
    unfolding underway_def by (intro exI [of _ "ns @ [n]"]) (auto simp: carried_def list_all2_appendI)
qed

lemma underway_take:
  assumes "underway W rk ck pn N (us @ m # vs)"
  obtains n where "carries W rk ck pn n m" "n \<in> N" "underway W rk ck pn (N - {n}) (us @ vs)"
proof -
  obtain ns where "carried W rk ck pn ns (us @ m # vs)" and d: "distinct ns" "set ns \<subseteq> N"
    using assms by (auto simp: underway_def)
  then obtain as n bs where ns: "ns = as @ n # bs" "carries W rk ck pn n m" and
    rest: "list_all2 (carries W rk ck pn) as us" "list_all2 (carries W rk ck pn) bs vs"
    by (auto simp: carried_def list_all2_append2 list_all2_Cons2)
  have "underway W rk ck pn (N - {n}) (us @ vs)"
    using d ns(1) list_all2_appendI [OF rest]
    unfolding underway_def carried_def by (intro exI [of _ "as @ bs"]) auto
  with d ns show thesis by (intro that) auto
qed

lemma underway_lose: "underway W rk ck pn N (us @ m # vs) \<Longrightarrow> underway W rk ck pn N (us @ vs)"
  by (erule underway_take) (auto intro: underway_mono)

lemma underway_nonneg:
  assumes "underway W rk ck pn N ms"
  shows "underway W rk ck pn (N \<inter> {0..}) ms"
proof -
  obtain ns where ns: "list_all2 (carries W rk ck pn) ns ms" "distinct ns" "set ns \<subseteq> N"
    using assms by (auto simp: underway_def carried_def)
  have pos: "carries W rk ck pn n m \<Longrightarrow> 0 \<le> n" for n m using carriesD(2) by (cases m) blast
  from ns(1) have "\<forall>n \<in> set ns. 0 \<le> n" by induction (simp_all add: pos)
  with ns show ?thesis unfolding underway_def carried_def by auto
qed

lemma underway_key:
  assumes "underway W rk ck pn N ms" and "m \<in> set ms"
  shows "ratchet_key m = rk"
proof -
  obtain us vs where "ms = us @ m # vs" using assms(2) split_list by metis
  with assms(1) obtain n where "carries W rk ck pn n m" by (metis underway_take)
  then show ?thesis by (cases m) (simp add: ratchet_key_def carriesD(1))
qed

definition awaits_some :: "('r, 'k) webcrypto \<Rightarrow> RatchetSession \<Rightarrow> (EncryptedEnvelope \<times> jstr) list \<Rightarrow> bool" where
  "awaits_some W Y ms \<longleftrightarrow> recvChainKey Y = None \<and> ms = [] \<or>
     (\<exists>xo cko pno todo. awaiting W xo cko todo Y \<and> underway W xo cko pno todo ms)"

definition owed_some :: "('r, 'k) webcrypto \<Rightarrow> jstr \<Rightarrow> RatchetSession \<Rightarrow> RatchetSession \<Rightarrow> (EncryptedEnvelope \<times> jstr) list \<Rightarrow> bool" where
  "owed_some W ckx X Y ms \<longleftrightarrow> (\<exists>old new. ms = old @ new \<and>
     underway W (ourRatchetPublic X) ckx (prevSendCount X) {..<sendCount X} new \<and> awaits_some W Y old)"

definition lossy_inv :: "('r, 'k) webcrypto \<Rightarrow> (party \<Rightarrow> jstr) \<Rightarrow> 'r chat \<Rightarrow> bool" where
  "lossy_inv W pid S \<longleftrightarrow> (\<exists>x ckx cky X Y todo.
     kc_sessions (stores S x) (pid (other x)) = Some X \<and>
     kc_sessions (stores S (other x)) (pid x) = Some Y \<and>
     linked W ckx cky X Y \<and>
     awaiting W (ourRatchetPublic Y) cky todo X \<and>
     recvCount X \<le> sendCount Y \<and>
     underway W (ourRatchetPublic Y) cky (prevSendCount Y) (todo \<inter> {..<sendCount Y}) (inbox S x) \<and>
     owed_some W ckx X Y (inbox S (other x)))"

lemma lossy_invI:
  assumes "kc_sessions (stores S x) (pid (other x)) = Some X"
    and "kc_sessions (stores S (other x)) (pid x) = Some Y"
    and "linked W ckx cky X Y"
    and "awaiting W (ourRatchetPublic Y) cky todo X"
    and "recvCount X \<le> sendCount Y"
    and "underway W (ourRatchetPublic Y) cky (prevSendCount Y) (todo \<inter> {..<sendCount Y}) (inbox S x)"
    and "owed_some W ckx X Y (inbox S (other x))"
  shows "lossy_inv W pid S"
  using assms unfolding lossy_inv_def by blast

lemma lossy_invE:
  assumes "lossy_inv W pid S"
  obtains x ckx cky X Y todo where "kc_sessions (stores S x) (pid (other x)) = Some X"
    "kc_sessions (stores S (other x)) (pid x) = Some Y" "linked W ckx cky X Y"
    "awaiting W (ourRatchetPublic Y) cky todo X" "recvCount X \<le> sendCount Y"
    "underway W (ourRatchetPublic Y) cky (prevSendCount Y) (todo \<inter> {..<sendCount Y}) (inbox S x)"
    "owed_some W ckx X Y (inbox S (other x))"
  using assms unfolding lossy_inv_def by blast

text \<open>A message of the older chain, or one of the newer.\<close>

lemma split_middle:
  assumes "us @ m # vs = old @ new"
  obtains vs1 where "old = us @ m # vs1" "vs = vs1 @ new" | us1 where "new = us1 @ m # vs" "us = old @ us1"
  using assms by (auto simp: append_eq_append_conv2 Cons_eq_append_conv)

lemma awaits_some_lose: "awaits_some W Y (us @ m # vs) \<Longrightarrow> awaits_some W Y (us @ vs)"
  unfolding awaits_some_def using underway_lose by blast

lemma owed_some_lose:
  assumes "owed_some W ckx X Y (us @ m # vs)"
  shows "owed_some W ckx X Y (us @ vs)"
proof -
  obtain old new where on: "us @ m # vs = old @ new" and
    new: "underway W (ourRatchetPublic X) ckx (prevSendCount X) {..<sendCount X} new" and old: "awaits_some W Y old"
    using assms unfolding owed_some_def by blast
  from on show ?thesis
  proof (cases rule: split_middle)
    case (1 vs1)
    with old have "awaits_some W Y (us @ vs1)" using awaits_some_lose by blast
    with 1 new show ?thesis unfolding owed_some_def by (intro exI [of _ "us @ vs1"] exI [of _ new]) simp
  next
    case (2 us1)
    with new have "underway W (ourRatchetPublic X) ckx (prevSendCount X) {..<sendCount X} (us1 @ vs)"
      using underway_lose by blast
    with 2 old show ?thesis unfolding owed_some_def by (intro exI [of _ old] exI [of _ "us1 @ vs"]) auto
  qed
qed

lemma lossy_inv_lose:
  assumes "lossy_inv W pid S" and "inbox S w = us @ m # vs"
  shows "lossy_inv W pid (S\<lparr>rand := r, inbox := (inbox S)(w := us @ vs)\<rparr>)"
  using assms(1)
proof (cases rule: lossy_invE)
  case (1 x ckx cky X Y todo)
  consider "w = x" | "w = other x" using other_cases by blast
  then show ?thesis
  proof cases
    case a: 1
    have "underway W (ourRatchetPublic Y) cky (prevSendCount Y) (todo \<inter> {..<sendCount Y}) (us @ vs)"
      using 1(6) assms(2) a underway_lose by metis
    with 1 a show ?thesis by (intro lossy_invI [of _ x _ X Y _ ckx cky todo]) simp_all
  next
    case b: 2
    have "owed_some W ckx X Y (us @ vs)" using owed_some_lose [of W ckx X Y us m vs] 1(7) assms(2) b by simp
    with 1 b show ?thesis by (intro lossy_invI [of _ x _ X Y _ ckx cky todo]) simp_all
  qed
qed

section \<open>Each step keeps the invariant\<close>

lemma lossy_inv_send:
  fixes W :: "('r, 'k) webcrypto"
  assumes laws: "key_laws W" and inv: "lossy_inv W pid S" and "encodable t"
  obtains e c r where "encrypt W (spec_store a) (pid (other w)) t (stores S w, rand S) = (Inr e, (c, r))"
    "lossy_inv W pid (S\<lparr>stores := (stores S)(w := c), rand := r,
       inbox := (inbox S)(other w := inbox S (other w) @ [(e, t)])\<rparr>)"
  using inv
proof (cases rule: lossy_invE)
  case (1 x ckx cky X Y todo)
  note l = 1(3) [unfolded linked_def]
  show thesis
  proof (cases "w = x")
    case True
    let ?X = "X\<lparr>sendChainKey := Some (chain_key W ckx (Suc (nat (sendCount X)))), sendCount := sendCount X + 1\<rparr>"
    obtain e where e: "encrypt W (spec_store a) (pid (other x)) t (stores S x, rand S) =
        (Inr e, (put_session (pid (other x)) ?X (stores S x), snd (randomBytes W 12 (rand S))))"
      "carries W (ourRatchetPublic X) ckx (prevSendCount X) (sendCount X) (e, t)"
      by (rule encrypt_carries [OF laws _ _ _ 1(1) \<open>encodable t\<close>]) (use l in blast)+
    obtain old new where on: "inbox S (other x) = old @ new"
      "underway W (ourRatchetPublic X) ckx (prevSendCount X) {..<sendCount X} new" "awaits_some W Y old"
      using 1(7) unfolding owed_some_def by blast
    have "underway W (ourRatchetPublic X) ckx (prevSendCount X) {..<sendCount X + 1} (new @ [(e, t)])"
      by (rule underway_mono [OF underway_snoc [OF on(2) e(2)]]) auto
    with on have "owed_some W ckx ?X Y (inbox S (other x) @ [(e, t)])"
      unfolding owed_some_def by (intro exI [of _ old] exI [of _ "new @ [(e, t)]"]) simp
    moreover have "linked W ckx cky ?X Y" by (rule linked_sending(1) [OF 1(3)])
    moreover have "awaiting W (ourRatchetPublic Y) cky todo ?X" using 1(4) by (simp add: awaiting_def)
    ultimately show thesis using True e(1) 1(1,2,5,6)
      by (intro that [of e "put_session (pid (other x)) ?X (stores S x)" "snd (randomBytes W 12 (rand S))"]
          lossy_invI [of _ x _ ?X Y _ ckx cky todo]) simp_all
  next
    case False
    then have w: "w = other x" using other_cases by blast
    let ?Y = "Y\<lparr>sendChainKey := Some (chain_key W cky (Suc (nat (sendCount Y)))), sendCount := sendCount Y + 1\<rparr>"
    obtain e where e: "encrypt W (spec_store a) (pid x) t (stores S (other x), rand S) =
        (Inr e, (put_session (pid x) ?Y (stores S (other x)), snd (randomBytes W 12 (rand S))))"
      "carries W (ourRatchetPublic Y) cky (prevSendCount Y) (sendCount Y) (e, t)"
      by (rule encrypt_carries [OF laws _ _ _ 1(2) \<open>encodable t\<close>]) (use l in blast)+
    have "sendCount Y \<in> todo" using 1(4,5) by (auto simp: awaiting_def)
    then have "underway W (ourRatchetPublic Y) cky (prevSendCount Y) (todo \<inter> {..<sendCount Y + 1}) (inbox S x @ [(e, t)])"
      by (intro underway_mono [OF underway_snoc [OF 1(6) e(2)]]) auto
    moreover have "linked W ckx cky X ?Y" by (rule linked_sending(2) [OF 1(3)])
    moreover have "owed_some W ckx X ?Y (inbox S (other x))"
      using 1(7) by (simp add: owed_some_def awaits_some_def awaiting_def)
    ultimately show thesis using w e(1) 1(1,2,4,5)
      by (intro that [of e "put_session (pid x) ?Y (stores S (other x))" "snd (randomBytes W 12 (rand S))"]
          lossy_invI [of _ x _ X ?Y _ ckx cky todo]) simp_all
  qed
qed

text \<open>A reception whose session keeps the invariant does so whether the session is stored or not.\<close>

lemma lossy_deliver_by:
  assumes "lossy_inv W pid S" and "inbox S w = us @ (e, t) # vs" and "carries W rk ck pn n (e, t)"
    and "kc_sessions (stores S w) (pid (other w)) = Some s"
    and "receive W (header_of e) (s, rand S) = (verdict (in_reach (header_of e) s) (message_key W ck (nat n)), (s', r'))"
    and "lossy_inv W pid (S\<lparr>stores := (stores S)(w := put_session (pid (other w)) s' (stores S w)), rand := r',
      inbox := (inbox S)(w := us @ vs)\<rparr>)"
  obtains c r where "decrypt W (spec_store a) (pid (other w)) e (stores S w, rand S) = (verdict (in_reach (header_of e) s) t, (c, r))"
    "lossy_inv W pid (S\<lparr>stores := (stores S)(w := c), rand := r, inbox := (inbox S)(w := us @ vs)\<rparr>)"
proof -
  let ?ok = "in_reach (header_of e) s \<or> a"
  have "lossy_inv W pid (S\<lparr>stores := (stores S)(w := if ?ok then put_session (pid (other w)) s' (stores S w) else stores S w),
      rand := r', inbox := (inbox S)(w := us @ vs)\<rparr>)"
    using assms(6) lossy_inv_lose [OF assms(1,2), of r'] by (cases ?ok) simp_all
  with decrypt_verdict [OF assms(3-5), of a] show thesis by (rule that)
qed

lemma lossy_deliver_ahead:
  fixes W :: "('r, 'k) webcrypto"
  assumes laws: "key_laws W" and X: "kc_sessions (stores S x) (pid (other x)) = Some X"
    and Y: "kc_sessions (stores S (other x)) (pid x) = Some Y" and link: "linked W ckx cky X Y"
    and aw: "awaiting W (ourRatchetPublic Y) cky todo X" and le: "recvCount X \<le> sendCount Y"
    and ch: "underway W (ourRatchetPublic Y) cky (prevSendCount Y) (todo \<inter> {..<sendCount Y}) (inbox S x)"
    and owed: "owed_some W ckx X Y (inbox S (other x))"
    and m: "inbox S x = us @ (e, t) # vs"
  obtains n X' where "carries W (ourRatchetPublic Y) cky (prevSendCount Y) n (e, t)"
    "receive W (header_of e) (X, rand S) = (verdict (in_reach (header_of e) X) (message_key W cky (nat n)), (X', rand S))"
    "lossy_inv W pid (S\<lparr>stores := (stores S)(x := put_session (pid (other x)) X' (stores S x)), rand := rand S,
      inbox := (inbox S)(x := us @ vs)\<rparr>)"
proof -
  obtain n where n: "carries W (ourRatchetPublic Y) cky (prevSendCount Y) n (e, t)" "n \<in> todo" "n < sendCount Y"
    and rest: "underway W (ourRatchetPublic Y) cky (prevSendCount Y) (todo \<inter> {..<sendCount Y} - {n}) (us @ vs)"
    using ch unfolding m by (elim underway_take) auto
  obtain X' todo' where rec: "receive W (header_of e) (X, rand S) =
      (verdict (in_reach (header_of e) X) (message_key W cky (nat n)), (X', rand S))"
    and X': "awaiting W (ourRatchetPublic Y) cky todo' X'" "todo - {n} \<subseteq> todo'" "recvCount X' \<le> max (recvCount X) (n + 1)"
      "X' = X\<lparr>skipped := skipped X', recvChainKey := recvChainKey X', recvCount := recvCount X'\<rparr>"
    by (rule receive_awaited [OF laws aw, of "header_of e" "rand S"]) (use n carriesD [OF n(1)] in simp_all)
  have "linked W ckx cky X' Y" using linked_receiving(1) [OF link X'(4)] by simp
  moreover have "owed_some W ckx X' Y (inbox S (other x))"
    using owed unfolding owed_some_def by (subst (1 2 3) X'(4)) simp
  moreover have "underway W (ourRatchetPublic Y) cky (prevSendCount Y) (todo' \<inter> {..<sendCount Y}) (us @ vs)"
    by (rule underway_mono [OF rest]) (use X'(2) in blast)
  moreover have "recvCount X' \<le> sendCount Y" using X'(3) le n(3) by simp
  ultimately have "lossy_inv W pid (S\<lparr>stores := (stores S)(x := put_session (pid (other x)) X' (stores S x)),
      rand := rand S, inbox := (inbox S)(x := us @ vs)\<rparr>)"
    using Y X'(1) by (intro lossy_invI [of _ x _ X' Y _ ckx cky todo']) simp_all
  with n(1) rec show thesis by (rule that)
qed

text \<open>The side that is behind, and a message of the chain it receives now.\<close>

lemma lossy_deliver_old:
  fixes W :: "('r, 'k) webcrypto"
  assumes laws: "key_laws W" and X: "kc_sessions (stores S x) (pid (other x)) = Some X"
    and Y: "kc_sessions (stores S (other x)) (pid x) = Some Y" and link: "linked W ckx cky X Y"
    and aw: "awaiting W (ourRatchetPublic Y) cky todo X" and le: "recvCount X \<le> sendCount Y"
    and ch: "underway W (ourRatchetPublic Y) cky (prevSendCount Y) (todo \<inter> {..<sendCount Y}) (inbox S x)"
    and old: "awaits_some W Y (us @ (e, t) # vs1)"
    and new: "underway W (ourRatchetPublic X) ckx (prevSendCount X) {..<sendCount X} new"
  obtains n xo cko pno Y' where "carries W xo cko pno n (e, t)"
    "receive W (header_of e) (Y, rand S) = (verdict (in_reach (header_of e) Y) (message_key W cko (nat n)), (Y', rand S))"
    "lossy_inv W pid (S\<lparr>stores := (stores S)(other x := put_session (pid x) Y' (stores S (other x))), rand := rand S,
      inbox := (inbox S)(other x := us @ vs1 @ new)\<rparr>)"
proof -
  obtain xo cko pno todo1 where aw1: "awaiting W xo cko todo1 Y" and un: "underway W xo cko pno todo1 (us @ (e, t) # vs1)"
    using old unfolding awaits_some_def by blast
  obtain n where n: "carries W xo cko pno n (e, t)" "n \<in> todo1" and rest: "underway W xo cko pno (todo1 - {n}) (us @ vs1)"
    using un by (rule underway_take)
  have xo: "xo \<noteq> ourRatchetPublic X" using aw1 link by (auto simp: awaiting_def linked_def)
  obtain Y' todo' where rec: "receive W (header_of e) (Y, rand S) =
      (verdict (in_reach (header_of e) Y) (message_key W cko (nat n)), (Y', rand S))"
    and Y': "awaiting W xo cko todo' Y'" "todo1 - {n} \<subseteq> todo'"
      "Y' = Y\<lparr>skipped := skipped Y', recvChainKey := recvChainKey Y', recvCount := recvCount Y'\<rparr>"
    and skip: "\<And>rk m. rk \<noteq> xo \<Longrightarrow> skipped Y' (skippedKey rk m) = skipped Y (skippedKey rk m)"
    by (rule receive_awaited [OF laws aw1, of "header_of e" "rand S"]) (use n carriesD [OF n(1)] in simp_all)
  have "linked W ckx cky X Y'"
    using linked_receiving(2) [OF link Y'(3)] skip xo link by (simp add: linked_def)
  moreover have "underway W xo cko pno todo' (us @ vs1)" by (rule underway_mono [OF rest Y'(2)])
  with Y'(1) have "awaits_some W Y' (us @ vs1)" unfolding awaits_some_def by blast
  with new have "owed_some W ckx X Y' ((us @ vs1) @ new)" unfolding owed_some_def by blast
  moreover have "ourRatchetPublic Y' = ourRatchetPublic Y" "sendCount Y' = sendCount Y"
    "prevSendCount Y' = prevSendCount Y" by (subst Y'(3), simp)+
  ultimately have "lossy_inv W pid (S\<lparr>stores := (stores S)(other x := put_session (pid x) Y' (stores S (other x))),
      rand := rand S, inbox := (inbox S)(other x := us @ vs1 @ new)\<rparr>)"
    using X aw le ch by (intro lossy_invI [of _ x _ X Y' _ ckx cky todo]) simp_all
  with n(1) rec show thesis by (rule that)
qed

text \<open>A message of the next chain, none of the current one being left.\<close>

lemma lossy_deliver_new:
  fixes W :: "('r, 'k) webcrypto"
  assumes laws: "key_laws W" and inv: "lossy_inv W pid S" and X: "kc_sessions (stores S x) (pid (other x)) = Some X"
    and Y: "kc_sessions (stores S (other x)) (pid x) = Some Y" and link: "linked W ckx cky X Y"
    and aw: "awaiting W (ourRatchetPublic Y) cky todo X" and le: "recvCount X \<le> sendCount Y"
    and ch: "underway W (ourRatchetPublic Y) cky (prevSendCount Y) (todo \<inter> {..<sendCount Y}) (inbox S x)"
    and old: "recvChainKey Y = None \<or> (\<exists>xo cko todo. awaiting W xo cko todo Y)"
    and new: "underway W (ourRatchetPublic X) ckx (prevSendCount X) {..<sendCount X} (us @ (e, t) # vs)"
    and m: "inbox S (other x) = us @ (e, t) # vs"
    and fresh: "fresh_for (next_public W (rand S)) X"
  obtains n Y' r' where "carries W (ourRatchetPublic X) ckx (prevSendCount X) n (e, t)"
    "receive W (header_of e) (Y, rand S) = (verdict (in_reach (header_of e) Y) (message_key W ckx (nat n)), (Y', r'))"
    "lossy_inv W pid (S\<lparr>stores := (stores S)(other x := put_session (pid x) Y' (stores S (other x))), rand := r',
      inbox := (inbox S)(other x := us @ vs)\<rparr>)"
proof -
  obtain n where n: "carries W (ourRatchetPublic X) ckx (prevSendCount X) n (e, t)" "n < sendCount X"
    and rest: "underway W (ourRatchetPublic X) ckx (prevSendCount X) ({..<sendCount X} - {n}) (us @ vs)"
    using new by (elim underway_take) auto
  note h = carriesD [OF n(1)]
  from receive_next_ratchet [OF laws link fresh old, of "header_of e"] h
  consider (refused) "receive W (header_of e) (Y, rand S) = (Inl TooManySkipped, (Y, rand S))" "\<not> in_reach (header_of e) Y"
    | (ratchet) Y' ckn todo' where
      "receive W (header_of e) (Y, rand S) = (verdict (in_reach (header_of e) Y) (message_key W ckx (nat n)), (Y', snd (generateKey W (rand S))))"
      "linked W ckn ckx Y' X" "awaiting W (ourRatchetPublic X) ckx todo' Y'" "{0..} - {n} \<subseteq> todo'"
      "recvCount Y' \<le> n + 1" "sendCount Y' = 0" "prevSendCount Y' = sendCount Y"
    by auto
  then show thesis
  proof cases
    case refused
    have "put_session (pid x) Y (stores S (other x)) = stores S (other x)" using Y by (simp add: fun_upd_idem)
    then have "lossy_inv W pid (S\<lparr>stores := (stores S)(other x := put_session (pid x) Y (stores S (other x))), rand := rand S,
      inbox := (inbox S)(other x := us @ vs)\<rparr>)"
      using lossy_inv_lose [OF inv m, of "rand S"] by simp
    with n(1) refused show thesis by (intro that [of n Y "rand S"]) (simp_all add: verdict_def)
  next
    case ratchet
    have "underway W (ourRatchetPublic X) ckx (prevSendCount X) (todo' \<inter> {..<sendCount X}) (us @ vs)"
      by (rule underway_mono [OF underway_nonneg [OF rest]]) (use ratchet(4) in auto)
    moreover have "underway W (ourRatchetPublic Y) cky (prevSendCount Y) todo (inbox S x)"
      by (rule underway_mono [OF ch]) blast
    with aw have "awaits_some W X (inbox S x)" unfolding awaits_some_def by blast
    then have "owed_some W ckn Y' X (inbox S x)"
      using ratchet(6) unfolding owed_some_def by (intro exI [of _ "inbox S x"] exI [of _ "[]"]) simp
    moreover have "recvCount Y' \<le> sendCount X" using ratchet(5) n(2) by simp
    ultimately have "lossy_inv W pid (S\<lparr>stores := (stores S)(other x := put_session (pid x) Y' (stores S (other x))),
        rand := snd (generateKey W (rand S)), inbox := (inbox S)(other x := us @ vs)\<rparr>)"
      using X ratchet(2,3) by (intro lossy_invI [of _ "other x" _ Y' X _ ckn ckx todo']) simp_all
    with n(1) ratchet(1) show thesis by (rule that)
  qed
qed

lemma lossy_inv_deliver:
  fixes W :: "('r, 'k) webcrypto"
  assumes laws: "key_laws W" and inv: "lossy_inv W pid S" and m: "inbox S w = us @ (e, t) # vs"
    and same: "\<forall>u \<in> set us. ratchet_key u = ratchet_key (e, t)" and fresh: "fresh_key W pid S w"
  obtains s c r where "kc_sessions (stores S w) (pid (other w)) = Some s"
    "decrypt W (spec_store a) (pid (other w)) e (stores S w, rand S) = (verdict (in_reach (header_of e) s) t, (c, r))"
    "lossy_inv W pid (S\<lparr>stores := (stores S)(w := c), rand := r, inbox := (inbox S)(w := us @ vs)\<rparr>)"
  using inv
proof (cases rule: lossy_invE)
  case (1 x ckx cky X Y todo)
  consider "w = x" | "w = other x" using other_cases by blast
  then show thesis
  proof cases
    case w: 1
    note m' = m [unfolded w]
    obtain n X' where k: "carries W (ourRatchetPublic Y) cky (prevSendCount Y) n (e, t)"
      "receive W (header_of e) (X, rand S) = (verdict (in_reach (header_of e) X) (message_key W cky (nat n)), (X', rand S))"
      "lossy_inv W pid (S\<lparr>stores := (stores S)(x := put_session (pid (other x)) X' (stores S x)), rand := rand S,
        inbox := (inbox S)(x := us @ vs)\<rparr>)"
      by (rule lossy_deliver_ahead [OF laws 1 m'])
    show thesis by (rule lossy_deliver_by [OF inv m' k(1) 1(1) k(2,3), of a]) (use that w 1(1) in simp)
  next
    case w: 2
    note m' = m [unfolded w]
    have fresh': "fresh_for (next_public W (rand S)) X" using fresh w 1(1) by (simp add: fresh_key_def)
    have Y: "kc_sessions (stores S (other x)) (pid (other (other x))) = Some Y" using 1(2) by simp
    obtain old new where on: "us @ (e, t) # vs = old @ new"
      "underway W (ourRatchetPublic X) ckx (prevSendCount X) {..<sendCount X} new" "awaits_some W Y old"
      using 1(7) unfolding owed_some_def m' by blast
    from on(1) show thesis
    proof (cases rule: split_middle)
      case s: (1 vs1)
      from on(3) s(1) have old: "awaits_some W Y (us @ (e, t) # vs1)" by simp
      obtain n xo cko pno Y' where k: "carries W xo cko pno n (e, t)"
        "receive W (header_of e) (Y, rand S) = (verdict (in_reach (header_of e) Y) (message_key W cko (nat n)), (Y', rand S))"
        "lossy_inv W pid (S\<lparr>stores := (stores S)(other x := put_session (pid x) Y' (stores S (other x))), rand := rand S,
          inbox := (inbox S)(other x := us @ vs1 @ new)\<rparr>)"
        by (rule lossy_deliver_old [OF laws 1(1-6) old on(2)])
      show thesis
        by (rule lossy_deliver_by [OF inv m' k(1) Y k(2), of a]) (use k(3) that w s(2) 1(2) in simp_all)
    next
      case s: (2 us1)
      have "old = []"
      proof (rule ccontr)
        assume "old \<noteq> []"
        then obtain u where u: "u \<in> set old" by (cases old) auto
        then obtain xo cko pno todo1 where "awaiting W xo cko todo1 Y" "underway W xo cko pno todo1 old"
          using on(3) unfolding awaits_some_def by auto
        then have "ratchet_key u = xo" "xo \<noteq> ourRatchetPublic X"
          using underway_key u 1(3) by (blast, auto simp: awaiting_def linked_def)
        moreover have "ratchet_key (e, t) = ourRatchetPublic X"
          by (rule underway_key [OF on(2)]) (simp add: s(1))
        ultimately show False using same u s(2) by auto
      qed
      with on s have new: "underway W (ourRatchetPublic X) ckx (prevSendCount X) {..<sendCount X} (us @ (e, t) # vs)" by simp
      have old: "recvChainKey Y = None \<or> (\<exists>xo cko todo. awaiting W xo cko todo Y)"
        using on(3) unfolding awaits_some_def by blast
      obtain n Y' r' where k: "carries W (ourRatchetPublic X) ckx (prevSendCount X) n (e, t)"
        "receive W (header_of e) (Y, rand S) = (verdict (in_reach (header_of e) Y) (message_key W ckx (nat n)), (Y', r'))"
        "lossy_inv W pid (S\<lparr>stores := (stores S)(other x := put_session (pid x) Y' (stores S (other x))), rand := r',
          inbox := (inbox S)(other x := us @ vs)\<rparr>)"
        by (rule lossy_deliver_new [OF laws inv 1(1-6) old new m' fresh'])
      show thesis
        by (rule lossy_deliver_by [OF inv m' k(1) Y k(2), of a]) (use k(3) that w 1(2) in simp_all)
    qed
  qed
qed

lemma lossy_inv_step:
  assumes "key_laws W" and "lossy_inv W pid S" and "lossy_step W a pid S T"
  shows "lossy_inv W pid T"
  using assms(3)
proof (cases rule: lossy_step.cases)
  case (send t w e c r)
  then show ?thesis using lossy_inv_send [OF assms(1,2) send(2), of a w] by auto
next
  case (lose w us m vs)
  then show ?thesis using lossy_inv_lose [OF assms(2) lose(2), of "rand S"] by simp
next
  case (deliver w us e t vs res c r)
  then show ?thesis using lossy_inv_deliver [OF assms(1,2) deliver(2-4), of a] by auto
qed

lemma lossy_inv_reachable:
  assumes "key_laws W" and "lossy_inv W pid S0" and "lossy_reachable W a pid S0 S"
  shows "lossy_inv W pid S"
  using assms(3) by induction (use assms(1,2) lossy_inv_step in blast)+

text \<open>What holds with every message on its way in order holds here.\<close>

lemma chat_inv_lossy:
  assumes "chat_inv W pid S"
  shows "lossy_inv W pid S"
proof -
  obtain x ckx cky X Y where c: "kc_sessions (stores S x) (pid (other x)) = Some X"
    "kc_sessions (stores S (other x)) (pid x) = Some Y" "linked W ckx cky X Y"
    "awaiting W (ourRatchetPublic Y) cky {recvCount X..} X" "recvCount X \<le> sendCount Y"
    and chx: "carried W (ourRatchetPublic Y) cky (prevSendCount Y) [recvCount X..sendCount Y - 1] (inbox S x)"
    and owed: "owed W ckx X Y (inbox S (other x))"
    using assms unfolding chat_inv_def by blast
  have up: "underway W rk ck pn N ms" if "carried W rk ck pn [i..j] ms" "{i..j} \<subseteq> N" for rk ck pn N ms i j
    unfolding underway_def using that by (intro exI [of _ "[i..j]"]) simp
  obtain old new where on: "inbox S (other x) = old @ new"
    and new: "carried W (ourRatchetPublic X) ckx (prevSendCount X) [0..sendCount X - 1] new"
    and old: "recvChainKey Y = None \<and> old = [] \<or>
      (\<exists>xo cko pno. awaiting W xo cko {recvCount Y..} Y \<and> carried W xo cko pno [recvCount Y..prevSendCount X - 1] old)"
    using owed unfolding owed_def by blast
  have "awaits_some W Y old"
    using old up [where N = "{recvCount Y..}"] unfolding awaits_some_def by fastforce
  moreover have "underway W (ourRatchetPublic X) ckx (prevSendCount X) {..<sendCount X} new"
    by (rule up [OF new]) auto
  ultimately have "owed_some W ckx X Y (inbox S (other x))" unfolding owed_some_def on by blast
  then show ?thesis by (intro lossy_invI [OF c] up [OF chx]) auto
qed

end
