(* ===== verification/Talks.thy ===== *)
theory Talks
  imports LossyConversation
begin

text \<open>
  The two transports of theories Conversation and LossyConversation between managers on any stores that keep
  the contract of key stores: each step is one of the conversation over the reference store that the stores
  stand for, and the other way round, so what holds there holds here (\<open>talk_delivers\<close>, \<open>orderly_delivers\<close>).
\<close>

section \<open>Loss and reordering\<close>

text \<open>The same transport between two managers on stores of type \<open>'st\<close>. Only the condition on fresh keys looks
  at the contents of a store.\<close>

record ('st, 'r) talk =
  ends :: "party \<Rightarrow> 'st"
  source :: 'r
  mail :: "party \<Rightarrow> (EncryptedEnvelope \<times> jstr) list"

definition talk_view :: "('st \<Rightarrow> key_contents) \<Rightarrow> ('st, 'r) talk \<Rightarrow> 'r chat" where
  "talk_view view T = \<lparr>stores = (\<lambda>w. view (ends T w)), rand = source T, inbox = mail T\<rparr>"

inductive talk_step :: "('r, 'k) webcrypto \<Rightarrow> 'st key_store \<Rightarrow> ('st \<Rightarrow> key_contents) \<Rightarrow> (party \<Rightarrow> jstr) \<Rightarrow>
    ('st, 'r) talk \<Rightarrow> ('st, 'r) talk \<Rightarrow> bool"
  for W ks view pid where
  send: "encodable t \<Longrightarrow>
    encrypt W ks (pid (other w)) t (ends T w, source T) = (Inr e, (st, r)) \<Longrightarrow>
    talk_step W ks view pid T (T\<lparr>ends := (ends T)(w := st), source := r,
      mail := (mail T)(other w := mail T (other w) @ [(e, t)])\<rparr>)"
| lose: "mail T w = us @ m # vs \<Longrightarrow> talk_step W ks view pid T (T\<lparr>mail := (mail T)(w := us @ vs)\<rparr>)"
| deliver: "mail T w = us @ (e, t) # vs \<Longrightarrow> \<forall>u \<in> set us. ratchet_key u = ratchet_key (e, t) \<Longrightarrow>
    fresh_key W pid (talk_view view T) w \<Longrightarrow>
    decrypt W ks (pid (other w)) e (ends T w, source T) = (res, (st, r)) \<Longrightarrow>
    talk_step W ks view pid T (T\<lparr>ends := (ends T)(w := st), source := r, mail := (mail T)(w := us @ vs)\<rparr>)"

inductive talk_reachable :: "('r, 'k) webcrypto \<Rightarrow> 'st key_store \<Rightarrow> ('st \<Rightarrow> key_contents) \<Rightarrow> (party \<Rightarrow> jstr) \<Rightarrow>
    ('st, 'r) talk \<Rightarrow> ('st, 'r) talk \<Rightarrow> bool"
  for W ks view pid T0 where
  start: "talk_reachable W ks view pid T0 T0"
| step: "talk_reachable W ks view pid T0 T \<Longrightarrow> talk_step W ks view pid T U \<Longrightarrow> talk_reachable W ks view pid T0 U"

definition talking :: "(party \<Rightarrow> 'st) \<Rightarrow> 'r \<Rightarrow> ('st, 'r) talk" where
  "talking st r = \<lparr>ends = st, source = r, mail = (\<lambda>_. [])\<rparr>"

lemma talk_view_simps [simp]:
  "stores (talk_view view T) w = view (ends T w)" "rand (talk_view view T) = source T" "inbox (talk_view view T) = mail T"
  "talk_view view (talking (case_party x y) r) = begun (case_party (view x) (view y)) r"
  by (auto simp: talk_view_def talking_def begun_def split: party.split)

lemma talk_view_upd:
  "talk_view view (T\<lparr>mail := m\<rparr>) = (talk_view view T)\<lparr>inbox := m\<rparr>"
  "talk_view view (T\<lparr>source := r\<rparr>) = (talk_view view T)\<lparr>rand := r\<rparr>"
  "talk_view view (T\<lparr>ends := (ends T)(w := st)\<rparr>) = (talk_view view T)\<lparr>stores := (stores (talk_view view T))(w := view st)\<rparr>"
  by (auto simp: talk_view_def)

context key_store_contract
begin

lemma run_seen:
  assumes "refinesE (ok_world ok) (view_world view) m m'" and "ok st" and "m (st, r) = (x, (st', r'))"
  shows "m' (view st, r) = (x, (view st', r'))" "ok st'"
  using assms unfolding refinesE_def by (metis fst_conv prod.collapse snd_conv world_simps)+

text \<open>Each step of the talk is one of the conversation that its stores stand for, and the other way round.\<close>

lemma talk_step_seen:
  assumes "talk_step W ks view pid T U" and "\<forall>w. ok (ends T w)"
  shows "lossy_step W shared pid (talk_view view T) (talk_view view U) \<and> (\<forall>w. ok (ends U w))"
  using assms(1)
proof (cases rule: talk_step.cases)
  case (send t w e st r)
  note r = run_seen [OF encrypt_refines, OF assms(2) [rule_format] send(3)]
  have "lossy_step W shared pid (talk_view view T) ((talk_view view T)\<lparr>stores := (stores (talk_view view T))(w := view st),
      rand := r, inbox := (inbox (talk_view view T))(other w := inbox (talk_view view T) (other w) @ [(e, t)])\<rparr>)"
    by (rule lossy_step.send [OF send(2)]) (use r(1) in simp)
  with send(1) r(2) assms(2) show ?thesis by (simp add: talk_view_upd)
next
  case (lose w us m vs)
  have "lossy_step W shared pid (talk_view view T) ((talk_view view T)\<lparr>inbox := (inbox (talk_view view T))(w := us @ vs)\<rparr>)"
    by (rule lossy_step.lose) (use lose(2) in simp)
  with lose(1) assms(2) show ?thesis by (simp add: talk_view_upd)
next
  case (deliver w us e t vs res st r)
  note r = run_seen [OF decrypt_refines, OF assms(2) [rule_format] deliver(5)]
  have "lossy_step W shared pid (talk_view view T) ((talk_view view T)\<lparr>stores := (stores (talk_view view T))(w := view st),
      rand := r, inbox := (inbox (talk_view view T))(w := us @ vs)\<rparr>)"
    by (rule lossy_step.deliver [OF _ deliver(3,4)]) (use deliver(2) r(1) in simp_all)
  with deliver(1) r(2) assms(2) show ?thesis by (simp add: talk_view_upd)
qed

lemma talk_step_follows:
  assumes "lossy_step W shared pid (talk_view view T) S" and "\<forall>w. ok (ends T w)"
  shows "\<exists>U. talk_step W ks view pid T U \<and> talk_view view U = S \<and> (\<forall>w. ok (ends U w))"
  using assms(1)
proof (cases rule: lossy_step.cases)
  case (send t w e c r)
  obtain x st r' where run: "encrypt W ks (pid (other w)) t (ends T w, source T) = (x, (st, r'))" by (metis surj_pair)
  note r = run_seen [OF encrypt_refines, OF assms(2) [rule_format] run]
  with send(3) have eq: "x = Inr e" "view st = c" "r' = r" by simp_all
  show ?thesis using talk_step.send [where pid = pid and view = view, OF send(2) run [unfolded eq]] send(1) r(2) eq assms(2)
    by (intro exI conjI) (assumption, simp_all add: talk_view_upd)
next
  case (lose w us m vs)
  from lose(2) have "mail T w = us @ m # vs" by simp
  from talk_step.lose [OF this, of W ks view pid] lose(1) assms(2) show ?thesis
    by (intro exI conjI) (assumption, simp_all add: talk_view_upd)
next
  case (deliver w us e t vs res c r)
  obtain x st r' where run: "decrypt W ks (pid (other w)) e (ends T w, source T) = (x, (st, r'))" by (metis surj_pair)
  note r = run_seen [OF decrypt_refines, OF assms(2) [rule_format] run]
  with deliver(5) have eq: "x = res" "view st = c" "r' = r" by simp_all
  from deliver(2) have "mail T w = us @ (e, t) # vs" by simp
  from talk_step.deliver [where pid = pid and view = view, OF this deliver(3,4) run] deliver(1) r(2) eq assms(2) show ?thesis
    by (intro exI conjI) (assumption, simp_all add: talk_view_upd)
qed

lemma talk_reachable_seen:
  assumes "talk_reachable W ks view pid T0 T" and "\<forall>w. ok (ends T0 w)"
  shows "lossy_reachable W shared pid (talk_view view T0) (talk_view view T) \<and> (\<forall>w. ok (ends T w))"
  using assms(1)
proof induction
  case start
  show ?case using assms(2) by (simp add: lossy_reachable.start)
next
  case (step T U)
  then show ?case using talk_step_seen by (blast intro: lossy_reachable.step)
qed

lemma talk_reachable_follows:
  assumes "lossy_reachable W shared pid S0 S" and "S0 = talk_view view T0" and "\<forall>w. ok (ends T0 w)"
  shows "\<exists>T. talk_reachable W ks view pid T0 T \<and> talk_view view T = S \<and> (\<forall>w. ok (ends T w))"
  using assms(1)
proof induction
  case start
  show ?case using assms(2,3) by (intro exI [of _ T0]) (simp add: talk_reachable.start)
next
  case (step S S')
  then show ?case using talk_step_follows by (metis talk_reachable.step)
qed

text \<open>The first contact, seen through the contract: what follows holds the invariant of the reference store.\<close>

lemma first_contact_inv:
  fixes W :: "('r, 'k) webcrypto"
  assumes laws: "subtle_laws W" and ids: "has_identity W (view dA)" "publishes W (view dB) b" and "encodable t0"
    and fresh: "next_public W (after_hello W r) \<noteq> bspk_publicKey (b_signedPreKey b)" and ok: "ok dA" "ok dB"
    and hello: "hello W ks (pid Bob) b t0 (dA, r) = (Inr e0, (dA', r1))"
    and first: "decrypt W ks (pid Alice) e0 (dB, r1) = (res, (dB', r2))"
  shows "res = Inr t0" and "chat_inv W pid (talk_view view (talking (case_party dA' dB') r2))"
    and "\<forall>w. ok (ends (talking (case_party dA' dB') r2) w)"
proof -
  note A = run_seen [OF hello_refines ok(1) hello] and B = run_seen [OF decrypt_refines ok(2) first]
  obtain e cA1 cB1 r3 where spec: "hello W (spec_store shared) (pid Bob) b t0 (view dA, r) = (Inr e, (cA1, after_hello W r))"
    "decrypt W (spec_store shared) (pid Alice) e (view dB, after_hello W r) = (Inr t0, (cB1, r3))"
    and inv: "chat_inv W pid (begun (case_party cA1 cB1) r3)"
    by (rule chat_inv_begun [OF subtle_key_laws [OF laws] ids assms(4) fresh])
  have eq: "res = Inr t0" "cA1 = view dA'" "cB1 = view dB'" "r3 = r2" using spec A(1) B(1) by auto
  show "res = Inr t0" by (rule eq(1))
  show "chat_inv W pid (talk_view view (talking (case_party dA' dB') r2))" using inv eq by simp
  show "\<forall>w. ok (ends (talking (case_party dA' dB') r2) w)" using A(2) B(2) by (simp add: talking_def split: party.split)
qed

text \<open>Everything that holds of the conversation over the reference store holds over this one.\<close>

lemma talk_delivers:
  fixes W :: "('r, 'k) webcrypto"
  assumes laws: "subtle_laws W" and ids: "has_identity W (view dA)" "publishes W (view dB) b" and "encodable t0"
    and fresh: "next_public W (after_hello W r) \<noteq> bspk_publicKey (b_signedPreKey b)" and ok: "ok dA" "ok dB"
    and hello: "hello W ks (pid Bob) b t0 (dA, r) = (Inr e0, (dA', r1))"
    and first: "decrypt W ks (pid Alice) e0 (dB, r1) = (res, (dB', r2))"
    and run: "talk_reachable W ks view pid (talking (case_party dA' dB') r2) T"
  shows "res = Inr t0 \<and>
    (\<forall>w us e t vs. mail T w = us @ (e, t) # vs \<longrightarrow> (\<forall>u \<in> set us. ratchet_key u = ratchet_key (e, t)) \<longrightarrow>
       fresh_key W pid (talk_view view T) w \<longrightarrow> (\<exists>s. kc_sessions (view (ends T w)) (pid (other w)) = Some s \<and>
         fst (decrypt W ks (pid (other w)) e (ends T w, source T)) =
           (if in_reach (header_of e) s then Inr t else Inl TooManySkipped))) \<and>
    (\<forall>w t. encodable t \<longrightarrow> (\<exists>e. fst (encrypt W ks (pid (other w)) t (ends T w, source T)) = Inr e))"
proof -
  note kl = subtle_key_laws [OF laws]
  note begun = first_contact_inv [OF laws ids assms(4) fresh ok hello first]
  note seen = talk_reachable_seen [OF run begun(3)]
  then have ok': "\<forall>w. ok (ends T w)" by blast
  have inv': "lossy_inv W pid (talk_view view T)"
    by (rule lossy_inv_reachable [OF kl chat_inv_lossy [OF begun(2)] conjunct1 [OF seen]])
  have "\<exists>s. kc_sessions (view (ends T w)) (pid (other w)) = Some s \<and>
      fst (decrypt W ks (pid (other w)) e (ends T w, source T)) = (if in_reach (header_of e) s then Inr t else Inl TooManySkipped)"
    if m: "mail T w = us @ (e, t) # vs" "\<forall>u \<in> set us. ratchet_key u = ratchet_key (e, t)"
      and f: "fresh_key W pid (talk_view view T) w" for w us e t vs
  proof -
    have m': "inbox (talk_view view T) w = us @ (e, t) # vs" using m(1) by simp
    have "fst (decrypt W ks (pid (other w)) e (ends T w, source T)) =
        fst (decrypt W (spec_store shared) (pid (other w)) e (view (ends T w), source T))"
      by (rule refinesE_fst [OF decrypt_refines ok' [rule_format]])
    moreover obtain s c r where "kc_sessions (view (ends T w)) (pid (other w)) = Some s"
      "decrypt W (spec_store shared) (pid (other w)) e (view (ends T w), source T) = (verdict (in_reach (header_of e) s) t, (c, r))"
      by (rule lossy_inv_deliver [OF kl inv' m' m(2) f, of shared]) simp
    ultimately show ?thesis unfolding verdict_def by simp
  qed
  moreover have "\<exists>e. fst (encrypt W ks (pid (other w)) t (ends T w, source T)) = Inr e" if t: "encodable t" for w t
  proof -
    have "fst (encrypt W ks (pid (other w)) t (ends T w, source T)) =
        fst (encrypt W (spec_store shared) (pid (other w)) t (view (ends T w), source T))"
      by (rule refinesE_fst [OF encrypt_refines ok' [rule_format]])
    moreover obtain e c r where "encrypt W (spec_store shared) (pid (other w)) t (view (ends T w), source T) = (Inr e, (c, r))"
      by (rule lossy_inv_send [OF kl inv' t, of shared w]) simp
    ultimately show ?thesis by simp
  qed
  ultimately show ?thesis using begun(1) by blast
qed

end

section \<open>In order and without loss\<close>

text \<open>The talk whose messages all arrive, oldest first.\<close>

inductive orderly_step :: "('r, 'k) webcrypto \<Rightarrow> 'st key_store \<Rightarrow> ('st \<Rightarrow> key_contents) \<Rightarrow> (party \<Rightarrow> jstr) \<Rightarrow>
    ('st, 'r) talk \<Rightarrow> ('st, 'r) talk \<Rightarrow> bool"
  for W ks view pid where
  send: "encodable t \<Longrightarrow>
    encrypt W ks (pid (other w)) t (ends T w, source T) = (Inr e, (st, r)) \<Longrightarrow>
    orderly_step W ks view pid T (T\<lparr>ends := (ends T)(w := st), source := r,
      mail := (mail T)(other w := mail T (other w) @ [(e, t)])\<rparr>)"
| deliver: "mail T w = (e, t) # ms \<Longrightarrow> fresh_key W pid (talk_view view T) w \<Longrightarrow>
    decrypt W ks (pid (other w)) e (ends T w, source T) = (res, (st, r)) \<Longrightarrow>
    orderly_step W ks view pid T (T\<lparr>ends := (ends T)(w := st), source := r, mail := (mail T)(w := ms)\<rparr>)"

inductive orderly_reachable :: "('r, 'k) webcrypto \<Rightarrow> 'st key_store \<Rightarrow> ('st \<Rightarrow> key_contents) \<Rightarrow> (party \<Rightarrow> jstr) \<Rightarrow>
    ('st, 'r) talk \<Rightarrow> ('st, 'r) talk \<Rightarrow> bool"
  for W ks view pid T0 where
  start: "orderly_reachable W ks view pid T0 T0"
| step: "orderly_reachable W ks view pid T0 T \<Longrightarrow> orderly_step W ks view pid T U \<Longrightarrow> orderly_reachable W ks view pid T0 U"

context key_store_contract
begin

lemma orderly_step_seen:
  assumes "orderly_step W ks view pid T U" and "\<forall>w. ok (ends T w)"
  shows "chat_step W shared pid (talk_view view T) (talk_view view U) \<and> (\<forall>w. ok (ends U w))"
  using assms(1)
proof (cases rule: orderly_step.cases)
  case (send t w e st r)
  note r = run_seen [OF encrypt_refines, OF assms(2) [rule_format] send(3)]
  have "chat_step W shared pid (talk_view view T) ((talk_view view T)\<lparr>stores := (stores (talk_view view T))(w := view st),
      rand := r, inbox := (inbox (talk_view view T))(other w := inbox (talk_view view T) (other w) @ [(e, t)])\<rparr>)"
    by (rule chat_step.send [OF send(2)]) (use r(1) in simp)
  with send(1) r(2) assms(2) show ?thesis by (simp add: talk_view_upd)
next
  case (deliver w e t ms res st r)
  note r = run_seen [OF decrypt_refines, OF assms(2) [rule_format] deliver(4)]
  have "chat_step W shared pid (talk_view view T) ((talk_view view T)\<lparr>stores := (stores (talk_view view T))(w := view st),
      rand := r, inbox := (inbox (talk_view view T))(w := ms)\<rparr>)"
    by (rule chat_step.deliver [OF _ deliver(3)]) (use deliver(2) r(1) in simp_all)
  with deliver(1) r(2) assms(2) show ?thesis by (simp add: talk_view_upd)
qed

lemma orderly_step_follows:
  assumes "chat_step W shared pid (talk_view view T) S" and "\<forall>w. ok (ends T w)"
  shows "\<exists>U. orderly_step W ks view pid T U \<and> talk_view view U = S \<and> (\<forall>w. ok (ends U w))"
  using assms(1)
proof (cases rule: chat_step.cases)
  case (send t w e c r)
  obtain x st r' where run: "encrypt W ks (pid (other w)) t (ends T w, source T) = (x, (st, r'))" by (metis surj_pair)
  note r = run_seen [OF encrypt_refines, OF assms(2) [rule_format] run]
  with send(3) have eq: "x = Inr e" "view st = c" "r' = r" by simp_all
  show ?thesis using orderly_step.send [where pid = pid and view = view, OF send(2) run [unfolded eq]] send(1) r(2) eq assms(2)
    by (intro exI conjI) (assumption, simp_all add: talk_view_upd)
next
  case (deliver w e t ms res c r)
  obtain x st r' where run: "decrypt W ks (pid (other w)) e (ends T w, source T) = (x, (st, r'))" by (metis surj_pair)
  note r = run_seen [OF decrypt_refines, OF assms(2) [rule_format] run]
  with deliver(4) have eq: "x = res" "view st = c" "r' = r" by simp_all
  from deliver(2) have "mail T w = (e, t) # ms" by simp
  from orderly_step.deliver [where pid = pid and view = view, OF this deliver(3) run] deliver(1) r(2) eq assms(2) show ?thesis
    by (intro exI conjI) (assumption, simp_all add: talk_view_upd)
qed

lemma orderly_reachable_seen:
  assumes "orderly_reachable W ks view pid T0 T" and "\<forall>w. ok (ends T0 w)"
  shows "chat_reachable W shared pid (talk_view view T0) (talk_view view T) \<and> (\<forall>w. ok (ends T w))"
  using assms(1)
proof induction
  case start
  show ?case using assms(2) by (simp add: chat_reachable.start)
next
  case (step T U)
  then show ?case using orderly_step_seen by (blast intro: chat_reachable.step)
qed

lemma orderly_reachable_follows:
  assumes "chat_reachable W shared pid S0 S" and "S0 = talk_view view T0" and "\<forall>w. ok (ends T0 w)"
  shows "\<exists>T. orderly_reachable W ks view pid T0 T \<and> talk_view view T = S \<and> (\<forall>w. ok (ends T w))"
  using assms(1)
proof induction
  case start
  show ?case using assms(2,3) by (intro exI [of _ T0]) (simp add: orderly_reachable.start)
next
  case (step S S')
  then show ?case using orderly_step_follows by (metis orderly_reachable.step)
qed

lemma orderly_delivers:
  fixes W :: "('r, 'k) webcrypto"
  assumes laws: "subtle_laws W" and ids: "has_identity W (view dA)" "publishes W (view dB) b" and "encodable t0"
    and fresh: "next_public W (after_hello W r) \<noteq> bspk_publicKey (b_signedPreKey b)" and ok: "ok dA" "ok dB"
    and hello: "hello W ks (pid Bob) b t0 (dA, r) = (Inr e0, (dA', r1))"
    and first: "decrypt W ks (pid Alice) e0 (dB, r1) = (res, (dB', r2))"
    and run: "orderly_reachable W ks view pid (talking (case_party dA' dB') r2) T"
  shows "res = Inr t0 \<and>
    (\<forall>w e t ms. mail T w = (e, t) # ms \<longrightarrow> fresh_key W pid (talk_view view T) w \<longrightarrow>
       fst (decrypt W ks (pid (other w)) e (ends T w, source T)) = Inr t) \<and>
    (\<forall>w t. encodable t \<longrightarrow> (\<exists>e. fst (encrypt W ks (pid (other w)) t (ends T w, source T)) = Inr e))"
proof -
  note kl = subtle_key_laws [OF laws]
  note begun = first_contact_inv [OF laws ids assms(4) fresh ok hello first]
  note seen = orderly_reachable_seen [OF run begun(3)]
  then have ok': "\<forall>w. ok (ends T w)" by blast
  have inv': "chat_inv W pid (talk_view view T)"
    by (rule chat_inv_reachable [OF kl begun(2) conjunct1 [OF seen]])
  have "fst (decrypt W ks (pid (other w)) e (ends T w, source T)) = Inr t"
    if m: "mail T w = (e, t) # ms" and f: "fresh_key W pid (talk_view view T) w" for w e t ms
  proof -
    have m': "inbox (talk_view view T) w = (e, t) # ms" using m by simp
    have "fst (decrypt W ks (pid (other w)) e (ends T w, source T)) =
        fst (decrypt W (spec_store shared) (pid (other w)) e (view (ends T w), source T))"
      by (rule refinesE_fst [OF decrypt_refines ok' [rule_format]])
    moreover obtain c r where "decrypt W (spec_store shared) (pid (other w)) e (view (ends T w), source T) = (Inr t, (c, r))"
      by (rule chat_inv_deliver [OF kl inv' m' f, of shared]) simp
    ultimately show ?thesis by simp
  qed
  moreover have "\<exists>e. fst (encrypt W ks (pid (other w)) t (ends T w, source T)) = Inr e" if t: "encodable t" for w t
  proof -
    have "fst (encrypt W ks (pid (other w)) t (ends T w, source T)) =
        fst (encrypt W (spec_store shared) (pid (other w)) t (view (ends T w), source T))"
      by (rule refinesE_fst [OF encrypt_refines ok' [rule_format]])
    moreover obtain e c r where "encrypt W (spec_store shared) (pid (other w)) t (view (ends T w), source T) = (Inr e, (c, r))"
      by (rule chat_inv_send [OF kl inv' t, of shared w]) simp
    ultimately show ?thesis by simp
  qed
  ultimately show ?thesis using begun(1) by blast
qed

end

end
