(* ===== verification/LossProperties.thy ===== *)
theory LossProperties
  imports SessionProperties Talks
begin

text \<open>
  What a conversation makes of lost and reordered messages: everything is read that arrives within reach
  and not behind its successor chain; the first message alone must not be lost; and two first messages
  that cross leave two sessions that do not belong together.
\<close>

section \<open>Loss and reordering\<close>

text \<open>C1: The double ratchet over a transport that loses messages and changes their order, both at any time,
  as long as no message overtakes one of an earlier ratchet key, between two managers on IndexedDB: after
  the initiator's first message has arrived, in every state that calls of encrypt and decrypt by both sides
  can reach, whatever has been lost, each message on its way that may come next decrypts to exactly the text
  it was made from when it is within 500 messages of what its chain expects, and is refused as
  TooManySkipped otherwise, never read as anything else; and every call of encrypt succeeds.\<close>

theorem lossy_conversation_delivers:
  fixes W :: "('r, 'k) webcrypto"
  assumes "subtle_laws W" and "has_identity W (idb_view dA)" and "publishes W (idb_view dB) b" and "encodable t0"
    and "next_public W (after_hello W r) \<noteq> bspk_publicKey (b_signedPreKey b)" and "idb_ok dA" and "idb_ok dB"
    and "hello W IndexedDbKeyStore (pid Bob) b t0 (dA, r) = (Inr e0, (dA', r1))"
    and "decrypt W IndexedDbKeyStore (pid Alice) e0 (dB, r1) = (res, (dB', r2))"
    and "talk_reachable W IndexedDbKeyStore idb_view pid (talking (case_party dA' dB') r2) T"
  shows "res = Inr t0 \<and>
    (\<forall>w us e t vs. mail T w = us @ (e, t) # vs \<longrightarrow> (\<forall>u \<in> set us. ratchet_key u = ratchet_key (e, t)) \<longrightarrow>
       fresh_key W pid (talk_view idb_view T) w \<longrightarrow> (\<exists>s. kc_sessions (idb_view (ends T w)) (pid (other w)) = Some s \<and>
         fst (decrypt W IndexedDbKeyStore (pid (other w)) e (ends T w, source T)) =
           (if in_reach (header_of e) s then Inr t else Inl TooManySkipped))) \<and>
    (\<forall>w t. encodable t \<longrightarrow>
       (\<exists>e. fst (encrypt W IndexedDbKeyStore (pid (other w)) t (ends T w, source T)) = Inr e))"
  by (rule indexed_db.talk_delivers [OF assms])

text \<open>C2: The double ratchet is correct between two managers on IndexedDB over a transport that keeps the order
  of each direction and loses nothing: after the initiator's first message has arrived, any interleaving of
  calls of encrypt and decrypt by both sides (with all the DH ratchet steps it causes) delivers to each side
  exactly the text the other encrypted, none being refused, and every call of encrypt succeeds.\<close>

theorem orderly_conversation_delivers:
  fixes W :: "('r, 'k) webcrypto"
  assumes "subtle_laws W" and "has_identity W (idb_view dA)" and "publishes W (idb_view dB) b" and "encodable t0"
    and "next_public W (after_hello W r) \<noteq> bspk_publicKey (b_signedPreKey b)" and "idb_ok dA" and "idb_ok dB"
    and "hello W IndexedDbKeyStore (pid Bob) b t0 (dA, r) = (Inr e0, (dA', r1))"
    and "decrypt W IndexedDbKeyStore (pid Alice) e0 (dB, r1) = (res, (dB', r2))"
    and "orderly_reachable W IndexedDbKeyStore idb_view pid (talking (case_party dA' dB') r2) T"
  shows "res = Inr t0 \<and>
    (\<forall>w e t ms. mail T w = (e, t) # ms \<longrightarrow> fresh_key W pid (talk_view idb_view T) w \<longrightarrow>
       fst (decrypt W IndexedDbKeyStore (pid (other w)) e (ends T w, source T)) = Inr t) \<and>
    (\<forall>w t. encodable t \<longrightarrow>
       (\<exists>e. fst (encrypt W IndexedDbKeyStore (pid (other w)) t (ends T w, source T)) = Inr e))"
  by (rule indexed_db.orderly_delivers [OF assms])

text \<open>The same on the memory store, where a refused message may leave its mark on the session.\<close>

lemma lossy_conversation_delivers_memory:
  fixes W :: "('r, 'k) webcrypto"
  assumes "subtle_laws W" and "has_identity W (memory_view dA)" and "publishes W (memory_view dB) b" and "encodable t0"
    and "next_public W (after_hello W r) \<noteq> bspk_publicKey (b_signedPreKey b)"
    and "hello W InMemoryKeyStore (pid Bob) b t0 (dA, r) = (Inr e0, (dA', r1))"
    and "decrypt W InMemoryKeyStore (pid Alice) e0 (dB, r1) = (res, (dB', r2))"
    and "talk_reachable W InMemoryKeyStore memory_view pid (talking (case_party dA' dB') r2) T"
  shows "res = Inr t0 \<and>
    (\<forall>w us e t vs. mail T w = us @ (e, t) # vs \<longrightarrow> (\<forall>u \<in> set us. ratchet_key u = ratchet_key (e, t)) \<longrightarrow>
       fresh_key W pid (talk_view memory_view T) w \<longrightarrow> (\<exists>s. kc_sessions (memory_view (ends T w)) (pid (other w)) = Some s \<and>
         fst (decrypt W InMemoryKeyStore (pid (other w)) e (ends T w, source T)) =
           (if in_reach (header_of e) s then Inr t else Inl TooManySkipped))) \<and>
    (\<forall>w t. encodable t \<longrightarrow>
       (\<exists>e. fst (encrypt W InMemoryKeyStore (pid (other w)) t (ends T w, source T)) = Inr e))"
  by (rule in_memory.talk_delivers [OF assms(1-5) TrueI TrueI assms(6-8)])

text \<open>The demo conversation: Alice's second message is lost, the third is on its way.\<close>

lemma demo_third_message:
  obtains e0 cA cB S e where
    "hello demo_crypto (spec_store False) (demo_pid Bob) demo_bundle (js ''hi'') (demo_alice, 10) = (Inr e0, (cA, 13))"
    "decrypt demo_crypto (spec_store False) (demo_pid Alice) e0 (demo_bob, 13) = (Inr (js ''hi''), (cB, 14))"
    "lossy_reachable demo_crypto False demo_pid (begun (case_party cA cB) 14) S"
    "inbox S Bob = [(e, js ''hello?'')]" "fresh_key demo_crypto demo_pid S Bob"
    "\<forall>s. kc_sessions (stores S Bob) (demo_pid Alice) = Some s \<longrightarrow> in_reach (header_of e) s"
proof -
  obtain e0 s u ck where d: "hello demo_crypto (spec_store False) (demo_pid Bob) demo_bundle (js ''hi'') (demo_alice, 10) =
       (Inr e0, (put_session (demo_pid Bob) s demo_alice, 13))"
    "decrypt demo_crypto (spec_store False) (demo_pid Alice) e0 (demo_bob, 13) =
       (Inr (js ''hi''), (put_session (demo_pid Alice) u (consumed demo_bundle demo_bob), 14))"
    and s: "sending demo_crypto ck s" "sendCount s = 1" "prevSendCount s = 0" "pendingPreKeyMsg s = None"
      "theirRatchetPublic s = Some (demo_pub 3)" "skipped s = Map.empty"
      "dh_keypair demo_crypto (ourRatchetPublic s) (ourRatchetPrivate s)" and u: "recvCount u = 1"
    by (rule demo_begun)
  let ?cA = "put_session (demo_pid Bob) s demo_alice"
  let ?cB = "put_session (demo_pid Alice) u (consumed demo_bundle demo_bob)"
  let ?s = "s\<lparr>sendChainKey := Some (chain_key demo_crypto ck (Suc (nat (sendCount s)))), sendCount := sendCount s + 1\<rparr>"
  let ?t = "?s\<lparr>sendChainKey := Some (chain_key demo_crypto ck (Suc (nat (sendCount ?s)))), sendCount := sendCount ?s + 1\<rparr>"
  let ?c1 = "put_session (demo_pid Bob) ?s ?cA" and ?S0 = "begun (case_party ?cA ?cB) (14 :: nat)"
  let ?c2 = "put_session (demo_pid Bob) ?t ?c1"
  have s1: "sending demo_crypto ck ?s" using s(1,2) by (simp add: sending_def numeral_2_eq_2)
  obtain e1 where e1: "encrypt demo_crypto (spec_store False) (demo_pid Bob) (js ''you there?'') (?cA, 14) =
      (Inr e1, (?c1, snd (randomBytes demo_crypto 12 14)))"
    by (rule encrypt_carries [OF demo_key_laws s(1,7,4) _ encodable_js, where c = ?cA and p = "demo_pid Bob" and r = 14]) simp_all
  obtain e2 where e2: "encrypt demo_crypto (spec_store False) (demo_pid Bob) (js ''hello?'') (?c1, 15) =
      (Inr e2, (?c2, snd (randomBytes demo_crypto 12 15)))"
    "carries demo_crypto (ourRatchetPublic ?s) ck (prevSendCount ?s) (sendCount ?s) (e2, js ''hello?'')"
    by (rule encrypt_carries [OF demo_key_laws s1 _ _ _ encodable_js, where c = ?c1 and p = "demo_pid Bob" and r = 15])
      (use s(4,7) in simp_all)
  let ?S1 = "?S0\<lparr>stores := (stores ?S0)(Alice := ?c1), rand := (15 :: nat),
     inbox := (inbox ?S0)(Bob := inbox ?S0 Bob @ [(e1, js ''you there?'')])\<rparr>"
  let ?S2 = "?S1\<lparr>stores := (stores ?S1)(Alice := ?c2), rand := (16 :: nat),
     inbox := (inbox ?S1)(Bob := inbox ?S1 Bob @ [(e2, js ''hello?'')])\<rparr>"
  let ?S3 = "?S2\<lparr>inbox := (inbox ?S2)(Bob := [] @ [(e2, js ''hello?'')])\<rparr>"
  have "encrypt demo_crypto (spec_store False) (demo_pid (other Alice)) (js ''you there?'') (stores ?S0 Alice, rand ?S0) =
      (Inr e1, (?c1, 15))"
    using e1 by (simp add: begun_def)
  from lossy_step.send [where pid = demo_pid, OF encodable_js this]
  have 1: "lossy_step demo_crypto False demo_pid ?S0 ?S1" by simp
  have "encrypt demo_crypto (spec_store False) (demo_pid (other Alice)) (js ''hello?'') (stores ?S1 Alice, rand ?S1) =
      (Inr e2, (?c2, 16))"
    using e2(1) by simp
  from lossy_step.send [where pid = demo_pid, OF encodable_js this]
  have 2: "lossy_step demo_crypto False demo_pid ?S1 ?S2" by simp
  have "inbox ?S2 Bob = [] @ (e1, js ''you there?'') # [(e2, js ''hello?'')]" by (simp add: begun_def)
  from lossy_step.lose [OF this] have 3: "lossy_step demo_crypto False demo_pid ?S2 ?S3" .
  have "lossy_reachable demo_crypto False demo_pid ?S0 ?S3"
    by (rule lossy_reachable.step [OF lossy_reachable.step [OF lossy_reachable.step [OF lossy_reachable.start 1] 2] 3])
  moreover have "fresh_key demo_crypto demo_pid ?S3 Bob"
    using s(5,6) by (simp add: fresh_key_def begun_def fresh_for_def demo_pub_inject)
  moreover have "in_reach (header_of e2) u"
    using carriesD(1) [OF e2(2)] s(2,3) u by (simp add: in_reach_def MAX_SKIP_def)
  ultimately show thesis using d
    by (intro that [of e0 ?cA ?cB ?S3 e2]) (simp_all add: begun_def)
qed

text \<open>The calls of the demo conversation, on disks.\<close>

lemma demo_disk:
  assumes "hello demo_crypto (spec_store False) p b t (c, r) = (x, (c', r'))"
  obtains d where "hello demo_crypto IndexedDbKeyStore p b t (disk_of c, r) = (x, (d, r'))" "idb_ok d" "idb_view d = c'"
  by (rule refinesE_D [OF indexed_db.hello_refines, of "(disk_of c, r)"]) (use assms in auto)

lemma demo_disk_decrypt:
  assumes "decrypt demo_crypto (spec_store False) p e (c, r) = (x, (c', r'))"
  obtains d where "decrypt demo_crypto IndexedDbKeyStore p e (disk_of c, r) = (x, (d, r'))" "idb_ok d" "idb_view d = c'"
  by (rule refinesE_D [OF indexed_db.decrypt_refines, of "(disk_of c, r)"]) (use assms in auto)

lemma demo_ids: "has_identity demo_crypto (idb_view (disk_of demo_alice))" "publishes demo_crypto (idb_view (disk_of demo_bob)) demo_bundle"
  by (simp_all add: demo_alice_identity demo_publishes)

theorem lossy_conversation_delivers_witness:
  "\<exists>(T :: (idb, nat) talk) e. mail T Bob = [(e, js ''hello?'')] \<and>
     fst (decrypt demo_crypto IndexedDbKeyStore (demo_pid Alice) e (ends T Bob, source T)) = Inr (js ''hello?'')"
proof -
  obtain e0 cA cB S e where spec:
    "hello demo_crypto (spec_store False) (demo_pid Bob) demo_bundle (js ''hi'') (demo_alice, 10) = (Inr e0, (cA, 13))"
    "decrypt demo_crypto (spec_store False) (demo_pid Alice) e0 (demo_bob, 13) = (Inr (js ''hi''), (cB, 14))"
    "lossy_reachable demo_crypto False demo_pid (begun (case_party cA cB) 14) S"
    and e: "inbox S Bob = [(e, js ''hello?'')]" "fresh_key demo_crypto demo_pid S Bob"
      "\<forall>s. kc_sessions (stores S Bob) (demo_pid Alice) = Some s \<longrightarrow> in_reach (header_of e) s"
    by (rule demo_third_message)
  obtain dA where dA: "hello demo_crypto IndexedDbKeyStore (demo_pid Bob) demo_bundle (js ''hi'') (disk_of demo_alice, 10) = (Inr e0, (dA, 13))"
    "idb_ok dA" "idb_view dA = cA"
    by (rule demo_disk [OF spec(1)])
  obtain dB where dB: "decrypt demo_crypto IndexedDbKeyStore (demo_pid Alice) e0 (disk_of demo_bob, 13) = (Inr (js ''hi''), (dB, 14))"
    "idb_ok dB" "idb_view dB = cB"
    by (rule demo_disk_decrypt [OF spec(2)])
  let ?T0 = "talking (case_party dA dB) (14 :: nat)"
  have start: "begun (case_party cA cB) 14 = talk_view idb_view ?T0" using dA(3) dB(3) by simp
  have "\<forall>w. idb_ok (ends ?T0 w)" using dA(2) dB(2) by (simp add: talking_def split: party.split)
  from indexed_db.talk_reachable_follows [OF spec(3) start this] obtain T
    where T: "talk_reachable demo_crypto IndexedDbKeyStore idb_view demo_pid ?T0 T" "talk_view idb_view T = S" by blast
  have seen: "mail T = inbox S" "idb_view (ends T Bob) = stores S Bob" using T(2) by auto
  have m: "mail T Bob = [] @ (e, js ''hello?'') # []" using e(1) seen(1) by simp
  have f: "fresh_key demo_crypto demo_pid (talk_view idb_view T) Bob" using e(2) T(2) by simp
  have "\<exists>s. kc_sessions (idb_view (ends T Bob)) (demo_pid (other Bob)) = Some s \<and>
      fst (decrypt demo_crypto IndexedDbKeyStore (demo_pid (other Bob)) e (ends T Bob, source T)) =
        (if in_reach (header_of e) s then Inr (js ''hello?'') else Inl TooManySkipped)"
    by (rule lossy_conversation_delivers [OF demo_laws demo_ids encodable_js demo_fresh disk_of(1) disk_of(1) dA(1) dB(1) T(1),
      THEN conjunct2, THEN conjunct1, rule_format, OF m _ f]) simp
  then have "fst (decrypt demo_crypto IndexedDbKeyStore (demo_pid Alice) e (ends T Bob, source T)) = Inr (js ''hello?'')"
    using e(3) seen(2) by auto
  with m show ?thesis by (intro exI [of _ T] exI [of _ e]) simp
qed

theorem orderly_conversation_delivers_witness:
  "\<exists>(T :: (idb, nat) talk) e. mail T Bob = [(e, js ''you there?'')] \<and>
     fst (decrypt demo_crypto IndexedDbKeyStore (demo_pid Alice) e (ends T Bob, source T)) = Inr (js ''you there?'')"
proof -
  obtain e0 cA cB r2 S e where spec:
    "hello demo_crypto (spec_store False) (demo_pid Bob) demo_bundle (js ''hi'') (demo_alice, 10) = (Inr e0, (cA, 13))"
    "decrypt demo_crypto (spec_store False) (demo_pid Alice) e0 (demo_bob, 13) = (Inr (js ''hi''), (cB, r2))"
    "chat_reachable demo_crypto False demo_pid (begun (case_party cA cB) r2) S"
    and e: "inbox S Bob = [(e, js ''you there?'')]" "fresh_key demo_crypto demo_pid S Bob"
    by (rule demo_second_message)
  obtain dA where dA: "hello demo_crypto IndexedDbKeyStore (demo_pid Bob) demo_bundle (js ''hi'') (disk_of demo_alice, 10) = (Inr e0, (dA, 13))"
    "idb_ok dA" "idb_view dA = cA"
    by (rule demo_disk [OF spec(1)])
  obtain dB where dB: "decrypt demo_crypto IndexedDbKeyStore (demo_pid Alice) e0 (disk_of demo_bob, 13) = (Inr (js ''hi''), (dB, r2))"
    "idb_ok dB" "idb_view dB = cB"
    by (rule demo_disk_decrypt [OF spec(2)])
  let ?T0 = "talking (case_party dA dB) r2"
  have start: "begun (case_party cA cB) r2 = talk_view idb_view ?T0" using dA(3) dB(3) by simp
  have "\<forall>w. idb_ok (ends ?T0 w)" using dA(2) dB(2) by (simp add: talking_def split: party.split)
  from indexed_db.orderly_reachable_follows [OF spec(3) start this] obtain T
    where T: "orderly_reachable demo_crypto IndexedDbKeyStore idb_view demo_pid ?T0 T" "talk_view idb_view T = S" by blast
  have "mail T = inbox S" using T(2) by auto
  then have m: "mail T Bob = (e, js ''you there?'') # []" using e(1) by simp
  have f: "fresh_key demo_crypto demo_pid (talk_view idb_view T) Bob" using e(2) T(2) by simp
  have "fst (decrypt demo_crypto IndexedDbKeyStore (demo_pid (other Bob)) e (ends T Bob, source T)) = Inr (js ''you there?'')"
    by (rule orderly_conversation_delivers [OF demo_laws demo_ids encodable_js demo_fresh disk_of(1) disk_of(1) dA(1) dB(1) T(1),
      THEN conjunct2, THEN conjunct1, rule_format, OF m f])
  with m show ?thesis by (intro exI [of _ T] exI [of _ e]) simp
qed

section \<open>The first message is lost\<close>

text \<open>C29: Only the first message carries the parameters of the handshake: when it is lost, each of the
  initiator's further messages, however many are sent, is refused for want of a session and leaves the
  recipient's IndexedDB store as it is, while the initiator's calls succeed and tell it nothing.\<close>

theorem first_message_lost:
  fixes W :: "('r, 'k) webcrypto"
  assumes "subtle_laws W" and "idb_ok dA" and "has_identity W (idb_view dA)"
    and "idb_ok dB" and "publishes W (idb_view dB) b" and "\<forall>x \<in> set (t # ts). encodable x"
    and "kc_sessions (idb_view dB) q = None"
  shows "\<exists>e es. fst (open_with W IndexedDbKeyStore p b t ts (dA, r)) = Inr (e, es) \<and> length es = length ts \<and>
    (\<forall>x \<in> set es. \<exists>d'. decrypt W IndexedDbKeyStore q x (dB, rb) = (Inl (NoSession q), (d', rb)) \<and> idb_view d' = idb_view dB)"
proof -
  note laws = subtle_key_laws [OF assms(1)]
  have t: "encodable t" "\<forall>x \<in> set ts. encodable x" using assms(6) by simp_all
  obtain e s ck where hello: "hello W (spec_store False) p b t (idb_view dA, r) = (Inr e, (put_session p s (idb_view dA), after_hello W r))"
    and s: "sending W ck s" "pendingPreKeyMsg s = None" "dh_keypair W (ourRatchetPublic s) (ourRatchetPrivate s)"
    by (rule hello_decrypts [OF laws assms(3,5) t(1)]) blast
  obtain es c' r' where es: "encrypt_all W (spec_store False) p ts (put_session p s (idb_view dA), after_hello W r) = (Inr es, (c', r'))"
    "length es = length ts" and cs: "list_all2 (carries W (ourRatchetPublic s) ck (prevSendCount s))
      (map (\<lambda>i. sendCount s + int i) [0..<length ts]) (zip es ts)"
    using encrypt_all_carried [OF laws s(1,3,2) _ t(2), of "put_session p s (idb_view dA)" p False] by fastforce
  have open_idb: "fst (open_with W IndexedDbKeyStore p b t ts (dA, r)) = Inr (e, es)"
  proof -
    have "refinesE (ok_world idb_ok) (view_world idb_view) (open_with W IndexedDbKeyStore p b t ts)
        (open_with W (spec_store False) p b t ts)"
      unfolding open_with_def
      by (intro refinesE_bindE refinesE_pure indexed_db.hello_refines indexed_db.encrypt_all_refines)
    from refinesE_fst [OF this assms(2)] show ?thesis using hello es(1) by (simp add: open_with_def bindE_def)
  qed
  have "\<exists>d'. decrypt W IndexedDbKeyStore q x (dB, rb) = (Inl (NoSession q), (d', rb)) \<and> idb_view d' = idb_view dB"
    if x: "x \<in> set es" for x
  proof -
    obtain i where i: "i < length es" "x = es ! i" using x by (auto simp: in_set_conv_nth)
    then obtain n where "carries W (ourRatchetPublic s) ck (prevSendCount s) n (x, ts ! i)"
      using list_all2_nthD2 [OF cs, of i] es(2) by auto
    then obtain v where "env_type x \<noteq> 1" "payload_of x = Inr v" by (auto simp: carries_def)
    with failed_calls_keep_store [OF assms(4,7), of x W rb] show ?thesis by blast
  qed
  with open_idb es(2) show ?thesis by blast
qed

theorem first_message_lost_witness:
  "\<exists>e e1. fst (open_with demo_crypto IndexedDbKeyStore (js ''bob'') demo_bundle (js ''hi'') [js ''a''] (disk_of demo_alice, 10)) =
      Inr (e, [e1]) \<and>
    fst (decrypt demo_crypto IndexedDbKeyStore (js ''alice'') e1 (disk_of demo_bob, 13)) = Inl (NoSession (js ''alice''))"
proof -
  have none: "kc_sessions (idb_view (disk_of demo_bob)) (js ''alice'') = None"
    by (simp add: demo_bob_def demo_contents_def)
  obtain e es where "fst (open_with demo_crypto IndexedDbKeyStore (js ''bob'') demo_bundle (js ''hi'') [js ''a'']
       (disk_of demo_alice, 10)) = Inr (e, es)" "length es = length [js ''a'']"
    and dec: "\<forall>x \<in> set es. \<exists>d'. decrypt demo_crypto IndexedDbKeyStore (js ''alice'') x (disk_of demo_bob, 13) =
      (Inl (NoSession (js ''alice'')), (d', 13)) \<and> idb_view d' = idb_view (disk_of demo_bob)"
    using first_message_lost [OF demo_laws disk_of(1) _ disk_of(1) _ _ none, of demo_alice demo_bundle "js ''hi''"
        "[js ''a'']" "js ''bob''" 10 13]
    by (auto simp: demo_alice_identity demo_publishes encodable_js)
  moreover from this(2) obtain e1 where "es = [e1]" by (auto simp: length_Suc_conv)
  ultimately show ?thesis by auto
qed

end
