(* ===== verification/CrossedContacts.thy ===== *)
theory CrossedContacts
  imports SessionProperties
begin

text \<open>
  Two parties that have both begun: each has set up a session from the other's bundle and sent its first
  message, and the two messages cross. Each message replaces the session its recipient had begun.
\<close>

section \<open>The key of a first message\<close>

text \<open>The message key that a session derives for number 0 under a new ratchet key.\<close>

definition first_key :: "('r, 'k) webcrypto \<Rightarrow> RatchetSession \<Rightarrow> jstr \<Rightarrow> error + bytes" where
  "first_key W s rk = bindR (dh W (ourRatchetPrivate s) rk) (\<lambda>d.
     bindR (kdfRootKey W (rootKey s) d) (\<lambda>(_, ck). bindR (kdfChainKey W ck) (\<lambda>(mk, _). Inr mk)))"

lemma first_key_eq:
  assumes "hmac_law W" and "dh W (ourRatchetPrivate s) rk = Inr d" and "kdfRootKey W (rootKey s) d = Inr (root, ck)" and "key32 ck"
  shows "first_key W s rk = Inr (message_key W ck 0)"
  using assms chain_step(2) [OF assms(1,4), of 0] by (simp add: first_key_def)

lemma receive_first_key:
  fixes W :: "('r, 'k) webcrypto"
  assumes laws: "key_laws W" and a: "awaiting W their ck todo s"
    and kp: "dh_keypair W (ourRatchetPublic s) (ourRatchetPrivate s)" "dh_keypair W k priv"
    and new: "k \<noteq> their" "\<forall>k n. skipped s (skippedKey k n) = None"
  obtains mk s' where "first_key W s k = Inr mk"
    "receive W \<lparr>h_rk = k, h_n = 0, h_pn = 0\<rparr> (s, r) = (Inr mk, (s', snd (generateKey W r)))"
proof -
  note l = key_lawsD [OF laws]
  obtain d where d: "dh W (ourRatchetPrivate s) k = Inr d" by (rule dh_comm [OF l(1,2) kp])
  obtain rk cr where kdf: "kdfRootKey W (rootKey s) d = Inr (rk, cr)" "key32 cr"
    by (rule kdfRootKey_total [OF l(3)])
  obtain d2 where d2: "dh W (next_private W r) k = Inr d2" by (rule dh_comm [OF l(1,2) next_keypair kp(2)])
  obtain rk2 cs where kdf2: "kdfRootKey W rk d2 = Inr (rk2, cs)" by (rule kdfRootKey_total [OF l(3)])
  have pos: "0 \<le> recvCount s" "theirRatchetPublic s = Some their" using a by (simp_all add: awaiting_def)
  have skip: "skipMessageKeys W 0 s = (Inr (), s)"
    using a truthy_chain_key [OF l(4)] pos
    by (subst skipMessageKeys_eq [OF l(4) chain_step(1) [OF l(4)]]) (auto simp: awaiting_def MAX_SKIP_def max_def)
  let ?s1 = "s\<lparr>recvChainKey := Some cr, rootKey := rk2, recvCount := 0, sendChainKey := Some cs, prevSendCount := sendCount s,
     sendCount := 0, ourRatchetPublic := next_public W r, ourRatchetPrivate := next_private W r, theirRatchetPublic := Some k\<rparr>"
  have ratchet: "dhRatchet W k 0 (s, r) = (Inr (), (?s1, snd (generateKey W r)))"
    using skip d kdf(1) d2 kdf2 by (simp add: dhRatchet_def onS_def getS_def modS_def bindE_def onR_generate)
  have "awaiting W k cr {0..} ?s1"
    using new(2) kdf(2) dh_keypair_public(1) [OF l(2) kp(2)] by (simp add: awaiting_def)
  then obtain s' where take: "takeMessageKey W k 0 ?s1 = (Inr (message_key W cr (nat 0)), s')"
    by (rule takeMessageKey_awaiting [OF l(4), where n = 0]) (simp_all add: MAX_SKIP_def)
  have "receive W \<lparr>h_rk = k, h_n = 0, h_pn = 0\<rparr> (s, r) = (Inr (message_key W cr 0), (s', snd (generateKey W r)))"
    using pos(2) new(1) ratchet take by (simp add: receive_def getS_def onS_def bindE_def)
  then show thesis by (rule that [OF first_key_eq [OF l(4) d kdf]])
qed

lemma publishes_identity: "publishes W c b \<Longrightarrow> has_identity W c"
  by (auto simp: publishes_def has_identity_def)

lemma publishes_put_session [simp]:
  "publishes W (put_session p s c) b \<longleftrightarrow> publishes W c b" "has_identity W (put_session p s c) \<longleftrightarrow> has_identity W c"
  by (simp_all add: publishes_def has_identity_def)

section \<open>First messages that cross\<close>

text \<open>C30: Two first messages that cross: each is decrypted, and its recipient's own new session is replaced by
  one made from the message. What the first party sends next is sealed for the session its peer no longer
  has (\<open>sB\<close>): the peer opens it with the key that the session now stored derives (\<open>uB\<close>), another
  session with another ratchet pair.\<close>

theorem crossed_first_messages:
  fixes W :: "('r, 'k) webcrypto"
  assumes laws: "subtle_laws W" and pub: "publishes W cA bA" "publishes W cB bB"
    and texts: "encodable tA" "encodable tB" "encodable t"
    and rand: "r1 = after_hello W r" "r2 = after_hello W r1" "r3 = snd (generateKey W r2)" "r4 = snd (generateKey W r3)"
    and fresh: "next_public W r2 \<noteq> bspk_publicKey (b_signedPreKey bB)" "next_public W r3 \<noteq> bspk_publicKey (b_signedPreKey bA)"
      "next_public W r3 \<noteq> next_public W (snd (generateKey W r))"
  shows "\<exists>eA eB e cA1 cB1 cA2 cB2 cA3 r5 sB uB w k k'.
    hello W (spec_store a) (pid Bob) bB tA (cA, r) = (Inr eA, (cA1, r1)) \<and>
    hello W (spec_store a) (pid Alice) bA tB (cB, r1) = (Inr eB, (cB1, r2)) \<and>
    decrypt W (spec_store a) (pid Alice) eA (cB1, r2) = (Inr tA, (cB2, r3)) \<and>
    decrypt W (spec_store a) (pid Bob) eB (cA1, r3) = (Inr tB, (cA2, r4)) \<and>
    encrypt W (spec_store a) (pid Bob) t (cA2, r4) = (Inr e, (cA3, r5)) \<and>
    kc_sessions cB1 (pid Alice) = Some sB \<and> drawn_at W (snd (generateKey W r1)) sB \<and>
    kc_sessions cB2 (pid Alice) = Some uB \<and> drawn_at W r2 uB \<and>
    payload_of e = Inr (wire_json w) \<and> h_rk (w_h w) = next_public W r3 \<and>
    first_key W sB (h_rk (w_h w)) = Inr k \<and> aesGcmDecrypt W k (w_ct w) (w_iv w) = Inr (text_encode t) \<and>
    first_key W uB (h_rk (w_h w)) = Inr k' \<and>
    fst (decrypt W (spec_store a) (pid Alice) e (cB2, r5)) =
      map_sum (\<lambda>x. x) text_decode (aesGcmDecrypt W k' (w_ct w) (w_iv w))"
proof -
  note kl = subtle_key_laws [OF laws]
  note l = key_lawsD [OF kl]
  obtain sB0 eB0 where hB: "hello W (spec_store a) (pid Alice) bA tB (cB, r1) = (Inr eB0, (put_session (pid Alice) sB0 cB, r2))"
    by (rule hello_facts [OF kl publishes_identity [OF pub(2)] pub(1) texts(2), of a "pid Alice" r1]) (use rand(2) in blast)
  let ?cB1 = "put_session (pid Alice) sB0 cB"
  have pubB: "publishes W ?cB1 bB" using pub(2) by simp
  obtain eA sA ckA where hA: "hello W (spec_store a) (pid Bob) bB tA (cA, r) = (Inr eA, (put_session (pid Bob) sA cA, after_hello W r))"
    and sA: "drawn_at W (snd (generateKey W r)) sA"
    and dA: "\<forall>q rb a'. next_public W rb \<noteq> bspk_publicKey (b_signedPreKey bB) \<longrightarrow> (\<exists>u cks.
       decrypt W (spec_store a') q eA (?cB1, rb) = (Inr tA, (put_session q u (consumed bB ?cB1), snd (generateKey W rb))) \<and>
       awaiting W (ourRatchetPublic sA) ckA {1..} u \<and> recvCount u = 1 \<and> linked W cks ckA u sA \<and> sendCount u = 0 \<and> drawn_at W rb u)"
    by (rule hello_facts [OF kl publishes_identity [OF pub(1)] pubB texts(1)]) blast
  let ?cA1 = "put_session (pid Bob) sA cA"
  have pubA: "publishes W ?cA1 bA" using pub(1) by simp
  obtain eB sB ckB where B: "hello W (spec_store a) (pid Alice) bA tB (cB, r1) = (Inr eB, (put_session (pid Alice) sB cB, after_hello W r1))"
    and sB: "drawn_at W (snd (generateKey W r1)) sB"
    and dB: "\<forall>q rb a'. next_public W rb \<noteq> bspk_publicKey (b_signedPreKey bA) \<longrightarrow> (\<exists>u cks.
       decrypt W (spec_store a') q eB (?cA1, rb) = (Inr tB, (put_session q u (consumed bA ?cA1), snd (generateKey W rb))) \<and>
       awaiting W (ourRatchetPublic sB) ckB {1..} u \<and> recvCount u = 1 \<and> linked W cks ckB u sB \<and> sendCount u = 0 \<and> drawn_at W rb u)"
    by (rule hello_facts [OF kl publishes_identity [OF pub(2)] pubA texts(2)]) blast
  have eqB: "?cB1 = put_session (pid Alice) sB cB" using B hB by simp
  obtain uB cksB where uB: "decrypt W (spec_store a) (pid Alice) eA (?cB1, r2) =
      (Inr tA, (put_session (pid Alice) uB (consumed bB ?cB1), r3))"
    "awaiting W (ourRatchetPublic sA) ckA {1..} uB" "linked W cksB ckA uB sA" "drawn_at W r2 uB"
    using dA [rule_format, OF fresh(1), of a "pid Alice"] rand(3) by blast
  obtain uA cksA where uA: "decrypt W (spec_store a) (pid Bob) eB (?cA1, r3) =
      (Inr tB, (put_session (pid Bob) uA (consumed bA ?cA1), r4))"
    "linked W cksA ckB uA sB" "sendCount uA = 0" "drawn_at W r3 uA"
    using dB [rule_format, OF fresh(2), of a "pid Bob"] rand(4) by blast
  let ?cA2 = "put_session (pid Bob) uA (consumed bA ?cA1)" and ?cB2 = "put_session (pid Alice) uB (consumed bB ?cB1)"
  have link: "sending W cksA uA" "dh_keypair W (ourRatchetPublic uA) (ourRatchetPrivate uA)" "pendingPreKeyMsg uA = None"
    "key32 cksA" "dh_keypair W (ourRatchetPublic uB) (ourRatchetPrivate uB)"
    using uA(2) uB(3) by (simp_all add: linked_def sending_def)
  have pubs: "ourRatchetPublic uA = next_public W r3" "prevSendCount uA = 0" "ourRatchetPublic sA = next_public W (snd (generateKey W r))"
    using uA(4) sA by (simp_all add: drawn_at_def)
  obtain e cA3 where enc: "encrypt W (spec_store a) (pid Bob) t (?cA2, r4) = (Inr e, (cA3, snd (randomBytes W 12 r4)))"
    and e: "carries W (next_public W r3) cksA 0 0 (e, t)"
    by (rule encrypt_carries [OF kl link(1-3), of ?cA2 "pid Bob" t a r4]) (use texts(3) uA(3) pubs in auto)
  let ?r5 = "snd (randomBytes W 12 r4)"
  obtain w where w: "env_type e \<noteq> 1" "payload_of e = Inr (wire_json w)" "sealed W (next_public W r3) cksA w t"
      "h_n (w_h w) = 0" "h_pn (w_h w) = 0"
    using e unfolding carries_def by auto
  have h: "w_h w = \<lparr>h_rk = next_public W r3, h_n = 0, h_pn = 0\<rparr>"
    using w(3-5) by (cases "w_h w") (simp add: sealed_def)
  have k: "first_key W sB (next_public W r3) = Inr (message_key W cksA 0)"
    using uA(2) pubs(1) first_key_eq [OF l(4)] link(4) by (auto simp: linked_def)
  have kpA: "dh_keypair W (next_public W r3) (ourRatchetPrivate uA)" using link(2) pubs(1) by simp
  have ne: "next_public W r3 \<noteq> ourRatchetPublic sA" using fresh(3) pubs(3) by simp
  have none: "\<forall>k n. skipped uB (skippedKey k n) = None" using uB(4) by (simp add: drawn_at_def)
  obtain mk s' where rec: "first_key W uB (next_public W r3) = Inr mk"
    "receive W (w_h w) (uB, ?r5) = (Inr mk, (s', snd (generateKey W ?r5)))"
    unfolding h by (rule receive_first_key [OF kl uB(2) link(5) kpA ne none, of ?r5]) blast
  have store: "kc_sessions ?cB2 (pid Alice) = Some uB" by simp
  have last: "fst (decrypt W (spec_store a) (pid Alice) e (?cB2, ?r5)) = map_sum (\<lambda>x. x) text_decode (aesGcmDecrypt W mk (w_ct w) (w_iv w))"
    using decrypt_eq [OF w(1,2) to_wire_json(1) store rec(2), of a] by simp
  have sess: "kc_sessions ?cB1 (pid Alice) = Some sB" unfolding eqB by simp
  have open_w: "aesGcmDecrypt W (message_key W cksA 0) (w_ct w) (w_iv w) = Inr (text_encode t)"
    using w(3,4) by (simp add: sealed_def)
  have runA: "hello W (spec_store a) (pid Bob) bB tA (cA, r) = (Inr eA, (?cA1, r1))" using hA unfolding rand(1) .
  have runB: "hello W (spec_store a) (pid Alice) bA tB (cB, r1) = (Inr eB, (?cB1, r2))" using B unfolding eqB rand(2) .
  have rk: "h_rk (w_h w) = next_public W r3" using h by simp
  note keys = k [folded rk] rec(1) [folded rk]
  show ?thesis
    by (intro exI conjI) (fact runA runB uB(1) uA(1) enc sess sB store uB(4) w(2) rk keys open_w last)+
qed

text \<open>
  The demo keys once more, with a derivation that copies the first byte of the shared secret: the message
  keys can then be computed. Alice publishes the signed pre-key drawn at 6.
\<close>

definition demo_plain :: "(nat, bytes) webcrypto" where
  "demo_plain = demo_crypto\<lparr>deriveHKDF := (\<lambda>salt info k n. Inr (replicate (n div 8) (hd k)))\<rparr>"

definition alice_signature :: jstr where
  "alice_signature = bufToBase64 (replicate 32 1 @ replicate 65 6)"

definition alice_publishing :: key_contents where
  "alice_publishing = demo_alice\<lparr>kc_signedPreKeys := [5 \<mapsto> \<lparr>pk_id = 5, pk_publicKey = demo_pub 6,
     pk_privateKey = demo_priv 6, spk_signature = alice_signature\<rparr>]\<rparr>"

definition alice_bundle :: PreKeyBundle where
  "alice_bundle = \<lparr>b_registrationId = 2, b_deviceId = 1, b_identityKey = demo_pub 1,
     b_signedPreKey = \<lparr>bspk_id = 5, bspk_publicKey = demo_pub 6, bspk_signature = alice_signature\<rparr>, b_oneTimePreKey = None\<rparr>"

lemma demo_plain_same [simp]:
  "rawOf demo_plain = rawOf demo_crypto" "jwkOf demo_plain = jwkOf demo_crypto"
  "generateKey demo_plain = generateKey demo_crypto" "randomBytes demo_plain = randomBytes demo_crypto"
  "importRaw demo_plain = importRaw demo_crypto" "importJwk demo_plain = importJwk demo_crypto"
  "deriveECDH demo_plain = deriveECDH demo_crypto" "verifyECDSA demo_plain = verifyECDSA demo_crypto"
  "signECDSA demo_plain = signECDSA demo_crypto" "signHMAC demo_plain = signHMAC demo_crypto"
  "encryptGCM demo_plain = encryptGCM demo_crypto" "decryptGCM demo_plain = decryptGCM demo_crypto"
  "digest512 demo_plain = digest512 demo_crypto"
  by (simp_all add: demo_plain_def fun_eq_iff rawOf_def jwkOf_def)

lemma demo_plain_keys [simp]:
  "next_public demo_plain r = demo_pub r" "next_private demo_plain r = demo_priv r"
  "dh_keypair demo_plain = dh_keypair demo_crypto" "verifyPreKey demo_plain = verifyPreKey demo_crypto"
  "after_hello demo_plain r = r + 3"
  by (simp_all add: next_public_def next_private_def demo_pub_def demo_priv_def dh_keypair_def fun_eq_iff
    verifyPreKey_def importVerifyPublic_def after_hello_def)

lemma demo_plain_laws: "subtle_laws demo_plain"
proof -
  have "hkdf_law demo_plain" by (simp add: hkdf_law_def demo_plain_def) (simp add: demo_crypto_def)
  with demo_laws show ?thesis
    by (simp add: subtle_laws_def jwk_law_def ecdh_law_def ecdsa_law_def hmac_law_def gcm_law_def sha512_law_def)
qed

lemma demo_plain_publishes: "publishes demo_plain alice_publishing alice_bundle" "publishes demo_plain demo_bob demo_bundle"
proof -
  have "verifyPreKey demo_crypto (demo_pub 1) (demo_pub 6) alice_signature"
    by (simp add: verifyPreKey_def importVerifyPublic_def demo_pub_def alice_signature_def) (simp add: demo_crypto_def)
  then show "publishes demo_plain alice_publishing alice_bundle"
    by (simp add: publishes_def alice_publishing_def alice_bundle_def demo_alice_def demo_keypair)
  show "publishes demo_plain demo_bob demo_bundle" using demo_publishes by (simp add: publishes_def)
qed

lemma demo_dh: "dh demo_plain (demo_priv m) (demo_pub n) = Inr (replicate 32 (of_nat n + of_nat m))"
proof -
  have "importDHPrivate demo_plain (demo_priv m) = Inr (replicate 32 (of_nat m))"
    using demo_laws by (simp add: importDHPrivate_def demo_priv_def json_roundtrip subtle_laws_def jwk_law_def demo_import_jwk)
  moreover have "importDHPublic demo_plain (demo_pub n) = Inr (replicate 65 (of_nat n))"
    by (simp add: importDHPublic_def demo_pub_def) (simp add: demo_crypto_def)
  ultimately show ?thesis
    by (simp add: dh_def) (simp add: demo_crypto_def map2_map_map [symmetric] zip_replicate)
qed

lemma demo_first_key:
  assumes "drawn_at demo_plain m s"
  shows "first_key demo_plain s (demo_pub n) = Inr (replicate 32 (of_nat n + of_nat m + 1))"
proof -
  have "kdfRootKey demo_plain root (replicate 32 x) = Inr (bufToHex (replicate 32 x), bufToHex (replicate 32 x))" for root x
    by (simp add: kdfRootKey_def hkdf_def) (simp add: demo_plain_def demo_crypto_def)
  moreover have "kdfChainKey demo_plain (bufToHex (replicate 32 x)) = Inr (replicate 32 (x + 1), bufToHex (replicate 32 (x + 2)))" for x
    by (simp add: kdfChainKey_def hmacSha256_def) (simp add: demo_crypto_def)
  ultimately show ?thesis
    using assms by (simp add: first_key_def drawn_at_def demo_dh)
qed

lemma demo_wrong_key:
  assumes "aesGcmDecrypt demo_plain (replicate 32 x) ct iv = Inr pt" and "x \<noteq> y"
  shows "aesGcmDecrypt demo_plain (replicate 32 y) ct iv = Inl (DOMExc ''OperationError'')"
  using assms by (auto simp: aesGcmDecrypt_def bindR_eq_Inr) (auto simp: demo_crypto_def split: if_splits)

theorem crossed_first_messages_witness:
  "\<exists>eA eB e cA1 cB1 cA2 cB2 cA3 r5.
    hello demo_plain (spec_store False) (demo_pid Bob) demo_bundle (js ''hi'') (alice_publishing, 10) = (Inr eA, (cA1, 13)) \<and>
    hello demo_plain (spec_store False) (demo_pid Alice) alice_bundle (js ''ho'') (demo_bob, 13) = (Inr eB, (cB1, 16)) \<and>
    decrypt demo_plain (spec_store False) (demo_pid Alice) eA (cB1, 16) = (Inr (js ''hi''), (cB2, 17)) \<and>
    decrypt demo_plain (spec_store False) (demo_pid Bob) eB (cA1, 17) = (Inr (js ''ho''), (cA2, 18)) \<and>
    encrypt demo_plain (spec_store False) (demo_pid Bob) (js ''there?'') (cA2, 18) = (Inr e, (cA3, r5)) \<and>
    fst (decrypt demo_plain (spec_store False) (demo_pid Alice) e (cB2, r5)) = Inl (DOMExc ''OperationError'')"
proof -
  have fresh: "next_public demo_plain 16 \<noteq> bspk_publicKey (b_signedPreKey demo_bundle)"
    "next_public demo_plain 17 \<noteq> bspk_publicKey (b_signedPreKey alice_bundle)"
    "next_public demo_plain 17 \<noteq> next_public demo_plain (snd (generateKey demo_plain 10))"
    by (simp_all add: demo_bundle_def alice_bundle_def demo_pub_inject)
  have rand: "13 = after_hello demo_plain 10" "16 = after_hello demo_plain 13" "17 = snd (generateKey demo_plain 16)"
    "18 = snd (generateKey demo_plain 17)" by simp_all
  from crossed_first_messages [where a = False and pid = demo_pid and tA = "js ''hi''" and tB = "js ''ho''" and t = "js ''there?''",
        OF demo_plain_laws demo_plain_publishes encodable_js encodable_js encodable_js rand fresh]
  show ?thesis
  proof (elim exE conjE, intro exI conjI)
    fix e cB2 r5 sB uB k k' and w :: WireMessage
    assume keys: "drawn_at demo_plain (snd (generateKey demo_plain 13)) sB" "drawn_at demo_plain 16 uB"
        "h_rk (w_h w) = next_public demo_plain 17" "first_key demo_plain sB (h_rk (w_h w)) = Inr k"
        "first_key demo_plain uB (h_rk (w_h w)) = Inr k'"
      and box: "aesGcmDecrypt demo_plain k (w_ct w) (w_iv w) = Inr (text_encode (js ''there?''))"
      and last: "fst (decrypt demo_plain (spec_store False) (demo_pid Alice) e (cB2, r5)) =
        map_sum (\<lambda>x. x) text_decode (aesGcmDecrypt demo_plain k' (w_ct w) (w_iv w))"
    have "k = replicate 32 (32 :: u8)" "k' = replicate 32 (34 :: u8)"
      using keys demo_first_key [OF keys(1), of 17] demo_first_key [OF keys(2), of 17] by simp_all
    then have "aesGcmDecrypt demo_plain k' (w_ct w) (w_iv w) = Inl (DOMExc ''OperationError'')"
      using demo_wrong_key [of 32 "w_ct w" "w_iv w" _ 34] box by simp
    with last show "fst (decrypt demo_plain (spec_store False) (demo_pid Alice) e (cB2, r5)) = Inl (DOMExc ''OperationError'')"
      by simp
  qed
qed

end
