(* ===== verification/Machines.thy ===== *)
theory Machines
  imports WinkdPrelude
begin

text \<open>
  Machines that events drive: a condition under which an event can happen in a state, and the state it
  leads to. The runs of a machine, the invariants of all its runs and the simulation of one machine by
  another, stated once as locales for every component that is such a machine.
\<close>

inductive runs :: "('s \<Rightarrow> 'e \<Rightarrow> bool) \<Rightarrow> ('e \<Rightarrow> 's \<Rightarrow> 's) \<Rightarrow> 's \<Rightarrow> 'e list \<Rightarrow> 's \<Rightarrow> bool" for enabled handle s0 where
  no_event: "runs enabled handle s0 [] s0"
| one_more: "runs enabled handle s0 es s \<Longrightarrow> enabled s e \<Longrightarrow> runs enabled handle s0 (es @ [e]) (handle e s)"

inductive_simps runs_simps: "runs enabled handle s0 es s"

lemma runs_Nil: "runs enabled handle s0 [] s \<longleftrightarrow> s = s0"
  by (subst runs_simps) auto

lemma runs_snoc:
  "runs enabled handle s0 (es @ [e]) s \<longleftrightarrow> (\<exists>t. runs enabled handle s0 es t \<and> enabled t e \<and> s = handle e t)"
  by (subst runs_simps) auto

lemma runs_append:
  "runs enabled handle s0 (es @ es') s \<longleftrightarrow> (\<exists>t. runs enabled handle s0 es t \<and> runs enabled handle t es' s)"
  by (induction es' arbitrary: s rule: rev_induct) (auto simp: runs_Nil runs_snoc simp flip: append_assoc)

lemma runs_Cons:
  "runs enabled handle s0 (e # es) s \<longleftrightarrow> enabled s0 e \<and> runs enabled handle (handle e s0) es s"
  using runs_append [of enabled handle s0 "[e]" es s] runs_snoc [of enabled handle s0 "[]" e] by (auto simp: runs_Nil)

lemmas runs_rules = runs_Nil runs_snoc runs_Cons

text \<open>The same runs as a function: each event in turn, \<open>None\<close> when one is not enabled.\<close>

fun execute :: "('s \<Rightarrow> 'e \<Rightarrow> bool) \<Rightarrow> ('e \<Rightarrow> 's \<Rightarrow> 's) \<Rightarrow> 'e list \<Rightarrow> 's \<Rightarrow> 's option" where
  "execute enabled handle [] s = Some s"
| "execute enabled handle (e # es) s = (if enabled s e then execute enabled handle es (handle e s) else None)"

lemma execute_append:
  "execute enabled handle (es @ es') s = Option.bind (execute enabled handle es s) (execute enabled handle es')"
  by (induction es arbitrary: s) auto

lemma runs_execute: "runs enabled handle s0 es s \<longleftrightarrow> execute enabled handle es s0 = Some s"
  by (induction es arbitrary: s0) (auto simp: runs_Nil runs_Cons)

lemma execute_run:
  "execute enabled handle es s = Some s' \<Longrightarrow> runs enabled handle s0 es0 s \<Longrightarrow> runs enabled handle s0 (es0 @ es) s'"
  by (simp add: runs_execute execute_append)

lemma runs_restrict:
  "runs enabled handle s0 es s \<Longrightarrow> \<forall>e \<in> set es. P e \<Longrightarrow> runs (\<lambda>t e. enabled t e \<and> P e) handle s0 es s"
  by (induction rule: runs.induct) (auto simp: runs_rules)

section \<open>Invariants\<close>

locale machine_invariant =
  fixes enabled :: "'s \<Rightarrow> 'e \<Rightarrow> bool" and handle :: "'e \<Rightarrow> 's \<Rightarrow> 's" and I :: "'s \<Rightarrow> bool"
  assumes kept: "I s \<Longrightarrow> enabled s e \<Longrightarrow> I (handle e s)"
begin

lemma run_keeps: "runs enabled handle s0 es s \<Longrightarrow> I s0 \<Longrightarrow> I s"
  by (induction rule: runs.induct) (auto intro: kept)

end

section \<open>Simulation\<close>

locale machine_simulation =
  fixes enabled :: "'s \<Rightarrow> 'e \<Rightarrow> bool" and handle :: "'e \<Rightarrow> 's \<Rightarrow> 's"
    and enabled' :: "'t \<Rightarrow> 'e \<Rightarrow> bool" and handle' :: "'e \<Rightarrow> 't \<Rightarrow> 't"
    and sane :: "'s \<Rightarrow> bool" and seen :: "'s \<Rightarrow> 't"
  assumes same: "sane s \<Longrightarrow> enabled s e \<Longrightarrow>
    sane (handle e s) \<and> enabled' (seen s) e \<and> seen (handle e s) = handle' e (seen s)"
begin

lemma run_seen: "runs enabled handle s0 es s \<Longrightarrow> sane s0 \<Longrightarrow> sane s \<and> runs enabled' handle' (seen s0) es (seen s)"
proof (induction rule: runs.induct)
  case (one_more es s e)
  then show ?case using same [of s e] by (auto simp: runs_snoc)
qed (simp add: runs_Nil)

end

end
