(* ===== verification/Overlap.thy ===== *)
theory Overlap
  imports Conversation Machines
begin

text \<open>
  Calls of \<open>encrypt\<close> that overlap in time. Every await lets other calls run: a call first loads the
  session, then works on the object it got (registration id, chain key, encryption), then stores it.
  \<open>encrypt_phases\<close> says that the three phases in a row are \<open>encrypt\<close>; the machine here runs the phases of
  any number of calls in any order. It is meant for a store whose loads are copies, as those of IndexedDB
  are.
\<close>

section \<open>The phases of a call\<close>

definition encrypt_load :: "'st key_store \<Rightarrow> jstr \<Rightarrow> ('st \<times> 'r, error, RatchetSession) eff" where
  "encrypt_load ks peerId = bindE (onStore (loadSession ks peerId)) (\<lambda>session.
     case session of None \<Rightarrow> throwE (NoSession peerId) | Some session \<Rightarrow> retE session)"

type_synonym half_sent = "int option \<times> (int \<times> json) \<times> RatchetSession"

definition encrypt_seal :: "('r, 'k) webcrypto \<Rightarrow> 'st key_store \<Rightarrow> jstr \<Rightarrow> jstr \<Rightarrow> RatchetSession \<Rightarrow>
    ('st \<times> 'r, error, half_sent) eff" where
  "encrypt_seal W ks peerId plaintext session = bindE (onStore (getLocalRegistrationId ks)) (\<lambda>regId.
     bindE (withSession ks peerId session (sealMessage W plaintext)) (\<lambda>x. retE (regId, x)))"

definition encrypt_store :: "'st key_store \<Rightarrow> jstr \<Rightarrow> half_sent \<Rightarrow> ('st \<times> 'r, error, EncryptedEnvelope) eff" where
  "encrypt_store ks peerId = (\<lambda>(regId, (ty, wirePayload), session).
     bindE (onStore (storeSession ks peerId session)) (\<lambda>_.
     bindE (liftR (btoa (json_stringify wirePayload))) (\<lambda>ciphertext.
     retE \<lparr>env_type = ty, env_ciphertext = ciphertext,
       env_registrationId = (case regId of None \<Rightarrow> 0 | Some i \<Rightarrow> i)\<rparr>)))"

lemma bindE_assoc: "bindE (bindE m f) g = bindE m (\<lambda>x. bindE (f x) g)"
  by (rule ext) (simp add: bindE_def split: prod.split sum.split)

lemma bindE_cong: "(\<And>x. f x = g x) \<Longrightarrow> bindE m f = bindE m g"
  by presburger

lemma encrypt_phases:
  "encrypt W ks p t = bindE (encrypt_load ks p) (\<lambda>s. bindE (encrypt_seal W ks p t s) (encrypt_store ks p))"
  unfolding encrypt_def encrypt_load_def encrypt_seal_def encrypt_store_def bindE_assoc
  by (auto intro!: bindE_cong split: option.split)

section \<open>Calls under way\<close>

datatype job = Loaded jstr jstr RatchetSession | Sealed jstr jstr half_sent

record ('st, 'r) pool =
  world :: "'st \<times> 'r"
  jobs :: "nat \<Rightarrow> job option"
  outbox :: "(jstr \<times> jstr \<times> (error + EncryptedEnvelope)) list"

datatype call_event = Call nat jstr jstr | Seal nat | Store nat

definition idle_pool :: "'st \<times> 'r \<Rightarrow> ('st, 'r) pool" where
  "idle_pool w = \<lparr>world = w, jobs = Map.empty, outbox = []\<rparr>"

text \<open>What a phase gives: the call goes on as another job, or it has returned or thrown.\<close>

definition go_on :: "nat \<Rightarrow> jstr \<Rightarrow> jstr \<Rightarrow> (error + 'a) \<times> 'st \<times> 'r \<Rightarrow> ('a \<Rightarrow> job) \<Rightarrow> ('st, 'r) pool \<Rightarrow> ('st, 'r) pool" where
  "go_on i p t x next P = (case x of
     (Inr y, w) \<Rightarrow> P\<lparr>world := w, jobs := (jobs P)(i \<mapsto> next y)\<rparr>
   | (Inl e, w) \<Rightarrow> P\<lparr>world := w, jobs := (jobs P)(i := None), outbox := outbox P @ [(p, t, Inl e)]\<rparr>)"

fun call_handle :: "('r, 'k) webcrypto \<Rightarrow> 'st key_store \<Rightarrow> call_event \<Rightarrow> ('st, 'r) pool \<Rightarrow> ('st, 'r) pool" where
  "call_handle W ks (Call i p t) P = go_on i p t (encrypt_load ks p (world P)) (Loaded p t) P"
| "call_handle W ks (Seal i) P = (case jobs P i of
     Some (Loaded p t s) \<Rightarrow> go_on i p t (encrypt_seal W ks p t s (world P)) (Sealed p t) P | _ \<Rightarrow> P)"
| "call_handle W ks (Store i) P = (case jobs P i of
     Some (Sealed p t x) \<Rightarrow> (let (e, w) = encrypt_store ks p x (world P) in
       P\<lparr>world := w, jobs := (jobs P)(i := None), outbox := outbox P @ [(p, t, e)]\<rparr>) | _ \<Rightarrow> P)"

fun call_enabled :: "('st, 'r) pool \<Rightarrow> call_event \<Rightarrow> bool" where
  "call_enabled P (Call i p t) = (jobs P i = None)"
| "call_enabled P (Seal i) = (\<exists>p t s. jobs P i = Some (Loaded p t s))"
| "call_enabled P (Store i) = (\<exists>p t x. jobs P i = Some (Sealed p t x))"

fun job_peer :: "job \<Rightarrow> jstr" where
  "job_peer (Loaded p t s) = p"
| "job_peer (Sealed p t x) = p"

text \<open>A caller that awaits each call for a peer before it makes the next one for that peer.\<close>

fun call_awaited :: "('st, 'r) pool \<Rightarrow> call_event \<Rightarrow> bool" where
  "call_awaited P (Call i p t) \<longleftrightarrow> jobs P i = None \<and> (\<forall>j \<in> ran (jobs P). job_peer j \<noteq> p)"
| "call_awaited P e \<longleftrightarrow> call_enabled P e"

lemma call_awaited_enabled: "call_awaited P e \<Longrightarrow> call_enabled P e"
  by (cases e) auto

section \<open>The machine over a store that keeps the contract\<close>

definition pool_view :: "('st \<Rightarrow> 'c) \<Rightarrow> ('st, 'r) pool \<Rightarrow> ('c, 'r) pool" where
  "pool_view view P = \<lparr>world = view_world view (world P), jobs = jobs P, outbox = outbox P\<rparr>"

lemma pool_view_simps [simp]:
  "world (pool_view view P) = view_world view (world P)" "jobs (pool_view view P) = jobs P"
  "outbox (pool_view view P) = outbox P"
  by (simp_all add: pool_view_def)

lemma refinesE_run:
  assumes "refinesE ok view m m'" and "ok s" and "m s = (x, t)"
  shows "m' (view s) = (x, view t) \<and> ok t"
proof -
  have "fst (m s) = fst (m' (view s))" "ok (snd (m s))" "view (snd (m s)) = snd (m' (view s))"
    using assms(1,2) unfolding refinesE_def by blast+
  then show ?thesis unfolding assms(3) by (cases "m' (view s)") simp
qed

lemma go_on_refines:
  assumes "refinesE (ok_world ok) (view_world view) m m'" and "ok_world ok (world P)"
  shows "ok_world ok (world (go_on i p t (m (world P)) next P)) \<and>
    pool_view view (go_on i p t (m (world P)) next P) = go_on i p t (m' (view_world view (world P))) next (pool_view view P)"
proof -
  obtain x w where m: "m (world P) = (x, w)" by (metis surj_pair)
  with refinesE_run [OF assms this] show ?thesis by (simp add: go_on_def pool_view_def split: sum.split)
qed

context key_store_contract
begin

lemma phases_refine:
  "refinesE (ok_world ok) (view_world view) (encrypt_load ks p) (encrypt_load (spec_store shared) p)"
  "refinesE (ok_world ok) (view_world view) (encrypt_seal W ks p t s) (encrypt_seal W (spec_store shared) p t s)"
  "refinesE (ok_world ok) (view_world view) (encrypt_store ks p x) (encrypt_store (spec_store shared) p x)"
  unfolding encrypt_load_def encrypt_seal_def encrypt_store_def
  by (intro manager_refines)+

lemma call_handle_refines:
  assumes "ok_world ok (world P)"
  shows "ok_world ok (world (call_handle W ks e P)) \<and>
    pool_view view (call_handle W ks e P) = call_handle W (spec_store shared) e (pool_view view P)"
proof (cases e)
  case (Store i)
  show ?thesis
  proof (cases "jobs P i")
    case (Some j)
    show ?thesis
    proof (cases j)
      case (Sealed p t x)
      obtain y w where m: "encrypt_store ks p x (world P) = (y, w)" by (metis surj_pair)
      from refinesE_run [OF phases_refine(3) assms this] m Some Sealed Store show ?thesis
        by (simp add: pool_view_def)
    qed (use Some Store assms in simp)
  qed (use Store assms in simp)
next
  case (Call i p t)
  show ?thesis using go_on_refines [OF phases_refine(1) assms] by (simp add: Call)
next
  case (Seal i)
  show ?thesis by (simp add: Seal go_on_refines [OF phases_refine(2) assms] assms split: option.split job.split)
qed

end

lemma pool_view_enabled [simp]:
  "call_enabled (pool_view view P) e = call_enabled P e" "call_awaited (pool_view view P) e = call_awaited P e"
  by (cases e; simp)+

interpretation idb_calls: machine_simulation call_enabled "call_handle W IndexedDbKeyStore"
    call_enabled "call_handle W (spec_store False)" "\<lambda>P. ok_world idb_ok (world P)" "pool_view idb_view" for W
  by unfold_locales (simp add: indexed_db.call_handle_refines)

interpretation idb_awaited: machine_simulation call_awaited "call_handle W IndexedDbKeyStore"
    call_awaited "call_handle W (spec_store False)" "\<lambda>P. ok_world idb_ok (world P)" "pool_view idb_view" for W
  by unfold_locales (simp add: indexed_db.call_handle_refines)

lemma lift_phase:
  assumes "refinesE (ok_world ok) (view_world view) m m'" and "ok d" and "m' (view d, r) = (x, (c', r'))"
  obtains d' where "m (d, r) = (x, (d', r'))" "ok d'" "view d' = c'"
  by (rule refinesE_D [OF assms(1), of "(d, r)"]) (use assms(2,3) in auto)

section \<open>What a phase does to a session that can send\<close>

definition sendable :: "('r, 'k) webcrypto \<Rightarrow> jstr \<Rightarrow> RatchetSession \<Rightarrow> bool" where
  "sendable W ck s \<longleftrightarrow> sending W ck s \<and> dh_keypair W (ourRatchetPublic s) (ourRatchetPrivate s) \<and> pendingPreKeyMsg s = None"

definition advanced :: "('r, 'k) webcrypto \<Rightarrow> jstr \<Rightarrow> nat \<Rightarrow> RatchetSession \<Rightarrow> RatchetSession" where
  "advanced W ck n s = s\<lparr>sendChainKey := Some (chain_key W ck (nat (sendCount s) + n)), sendCount := sendCount s + int n\<rparr>"

lemma advanced_0 [simp]: "sending W ck s \<Longrightarrow> advanced W ck 0 s = s"
  by (simp add: advanced_def sending_def)

lemma advanced_advanced: "0 \<le> sendCount s \<Longrightarrow> advanced W ck 1 (advanced W ck n s) = advanced W ck (Suc n) s"
  by (simp add: advanced_def nat_add_distrib)

lemma sendable_advanced: "sendable W ck s \<Longrightarrow> sendable W ck (advanced W ck n s)"
  by (simp add: sendable_def advanced_def sending_def nat_add_distrib)

text \<open>An envelope of the \<open>n\<close>-th message after the state \<open>s\<close>, and the half of a call that has sealed it.\<close>

definition sent_as :: "('r, 'k) webcrypto \<Rightarrow> jstr \<Rightarrow> RatchetSession \<Rightarrow> nat \<Rightarrow> jstr \<times> (error + EncryptedEnvelope) \<Rightarrow> bool" where
  "sent_as W ck s n = (\<lambda>(t, e). \<exists>env w. e = Inr env \<and> env_type env = 2 \<and> payload_of env = Inr (wire_json w) \<and>
     h_rk (w_h w) = ourRatchetPublic s \<and> h_n (w_h w) = sendCount s + int n \<and>
     aesGcmDecrypt W (message_key W ck (nat (sendCount s) + n)) (w_ct w) (w_iv w) = Inr (text_encode t))"

definition half_of :: "('r, 'k) webcrypto \<Rightarrow> jstr \<Rightarrow> RatchetSession \<Rightarrow> jstr \<Rightarrow> half_sent \<Rightarrow> bool" where
  "half_of W ck s t x \<longleftrightarrow> (\<exists>regId w. x = (regId, (2, wire_json w), advanced W ck 1 s) \<and> latin1_wire w \<and>
     h_n (w_h w) = sendCount s \<and> sealed W (ourRatchetPublic s) ck w t)"

lemma seal_half:
  assumes "key_laws W" and "sendable W ck s"
  obtains x r' where "encrypt_seal W (spec_store False) p t s (c, r) = (Inr x, (c, r'))" "half_of W ck s t x"
proof -
  note laws = key_lawsD [OF assms(1)]
  have s: "sending W ck s" "dh_keypair W (ourRatchetPublic s) (ourRatchetPrivate s)" "pendingPreKeyMsg s = None"
    using assms(2) by (simp_all add: sendable_def)
  obtain w where w: "h_rk (w_h w) = ourRatchetPublic s" "h_n (w_h w) = sendCount s"
      "sealed W (ourRatchetPublic s) ck w t" "latin1 (w_ct w)" "latin1 (w_iv w)"
    and run: "sealMessage W t (s, r) =
       (case (if isInitiator s \<and> sendCount s = 0 then pendingPreKeyMsg s else None) of
          Some pk \<Rightarrow> (Inr (1, prekey_wire_json (prekey_wire pk w)), (s\<lparr>sendChainKey := Some (chain_key W ck (Suc (nat (sendCount s)))),
            sendCount := sendCount s + 1, pendingPreKeyMsg := None\<rparr>, snd (randomBytes W 12 r)))
        | None \<Rightarrow> (Inr (2, wire_json w), (s\<lparr>sendChainKey := Some (chain_key W ck (Suc (nat (sendCount s)))),
            sendCount := sendCount s + 1\<rparr>, snd (randomBytes W 12 r))))"
    by (rule sealMessage_sending [OF laws(4,5) s(1)])
  have "sealMessage W t (s, r) = (Inr (2, wire_json w), (advanced W ck 1 s, snd (randomBytes W 12 r)))"
    using run s(3) by (simp add: advanced_def)
  then have "encrypt_seal W (spec_store False) p t s (c, r) =
      (Inr (kc_regId c, (2, wire_json w), advanced W ck 1 s), (c, snd (randomBytes W 12 r)))"
    by (simp add: encrypt_seal_def bindE_def withSession_def spec_store_simps)
  moreover have "latin1_wire w" using w dh_keypair_public(2) [OF laws(2) s(2)] by (simp add: latin1_wire_def)
  ultimately show thesis using w by (intro that) (auto simp: half_of_def)
qed

lemma store_half:
  assumes "half_of W ck s t x" and "0 \<le> sendCount s"
  obtains e where "encrypt_store (spec_store False) p x (c, r) = (e, (put_session p (advanced W ck 1 s) c, r))"
    "sent_as W ck s 0 (t, e)"
proof -
  obtain regId w where x: "x = (regId, (2, wire_json w), advanced W ck 1 s)" "latin1_wire w"
    "h_n (w_h w) = sendCount s" "sealed W (ourRatchetPublic s) ck w t"
    using assms(1) by (auto simp: half_of_def)
  obtain b where "btoa (json_stringify (wire_json w)) = Inr b" "bindR (atob b) json_parse = Inr (wire_json w)"
    by (rule btoa_json [OF wire_json_wf(1) wire_json_wf(3) [OF x(2)]])
  with x have "encrypt_store (spec_store False) p x (c, r) =
      (Inr \<lparr>env_type = 2, env_ciphertext = b, env_registrationId = (case regId of None \<Rightarrow> 0 | Some i \<Rightarrow> i)\<rparr>,
       (put_session p (advanced W ck 1 s) c, r))"
    "payload_of \<lparr>env_type = 2, env_ciphertext = b, env_registrationId = (case regId of None \<Rightarrow> 0 | Some i \<Rightarrow> i)\<rparr> = Inr (wire_json w)"
    by (simp_all add: encrypt_store_def bindE_def spec_store_simps payload_of_def)
  with x show thesis
    by (intro that) (auto simp: sent_as_def sealed_def)
qed

lemma sent_as_advanced: "0 \<le> sendCount s \<Longrightarrow> sent_as W ck (advanced W ck n s) 0 m \<longleftrightarrow> sent_as W ck s n m"
  by (simp add: sent_as_def advanced_def nat_add_distrib)

section \<open>Calls for a peer one after the other\<close>

abbreviation stored :: "(key_contents, 'r) pool \<Rightarrow> jstr \<Rightarrow> RatchetSession option" where
  "stored P \<equiv> kc_sessions (fst (world P))"

text \<open>What the calls for a peer gave, in the order they returned.\<close>

definition results :: "('st, 'r) pool \<Rightarrow> jstr \<Rightarrow> (jstr \<times> (error + EncryptedEnvelope)) list" where
  "results P p = map snd (filter (\<lambda>m. fst m = p) (outbox P))"

definition peer_inv :: "('r, 'k) webcrypto \<Rightarrow> jstr \<Rightarrow> RatchetSession option \<Rightarrow> RatchetSession option \<Rightarrow>
    (jstr \<times> (error + EncryptedEnvelope)) list \<Rightarrow> bool" where
  "peer_inv W ck s0 s ms \<longleftrightarrow> (case s0 of None \<Rightarrow> s = None
     | Some s0 \<Rightarrow> sendable W ck s0 \<and> s = Some (advanced W ck (length ms) s0) \<and>
         (\<forall>n < length ms. sent_as W ck s0 n (ms ! n)))"

fun job_inv :: "('r, 'k) webcrypto \<Rightarrow> jstr \<Rightarrow> RatchetSession option \<Rightarrow> job \<Rightarrow> bool" where
  "job_inv W ck s (Loaded p t s') \<longleftrightarrow> s = Some s'"
| "job_inv W ck s (Sealed p t x) \<longleftrightarrow> (\<exists>s'. s = Some s' \<and> half_of W ck s' t x)"

definition solo :: "(nat \<Rightarrow> job option) \<Rightarrow> bool" where
  "solo J \<longleftrightarrow> (\<forall>i j a b. J i = Some a \<longrightarrow> J j = Some b \<longrightarrow> job_peer a = job_peer b \<longrightarrow> i = j)"

definition awaited_inv :: "('r, 'k) webcrypto \<Rightarrow> (jstr \<Rightarrow> jstr) \<Rightarrow> (jstr \<Rightarrow> RatchetSession option) \<Rightarrow> (key_contents, 'r) pool \<Rightarrow> bool" where
  "awaited_inv W ck s0 P \<longleftrightarrow> key_laws W \<and> solo (jobs P) \<and> (\<forall>p. peer_inv W (ck p) (s0 p) (stored P p) (results P p)) \<and>
     (\<forall>i j. jobs P i = Some j \<longrightarrow> job_inv W (ck (job_peer j)) (stored P (job_peer j)) j)"

lemma results_simps [simp]:
  "results (P\<lparr>world := w, jobs := J\<rparr>) p = results P p"
  "results (P\<lparr>world := w, jobs := J, outbox := outbox P @ [(q, m)]\<rparr>) p = results P p @ (if q = p then [m] else [])"
  by (simp_all add: results_def)

lemma results_idle [simp]: "results (idle_pool w) p = []"
  by (simp add: results_def idle_pool_def)

lemma peer_inv_None [simp]: "peer_inv W ck None s ms \<longleftrightarrow> s = None"
  by (simp add: peer_inv_def)

lemma peer_inv_sendable: "peer_inv W ck s0 (Some s) ms \<Longrightarrow> sendable W ck s"
  by (auto simp: peer_inv_def sendable_advanced split: option.splits)

lemma peer_inv_store:
  assumes "peer_inv W ck s0 (Some s) ms" and "sent_as W ck s 0 m"
  shows "peer_inv W ck s0 (Some (advanced W ck 1 s)) (ms @ [m])"
proof -
  obtain u where u: "s0 = Some u" "sendable W ck u" "s = advanced W ck (length ms) u"
    "\<forall>n < length ms. sent_as W ck u n (ms ! n)"
    using assms(1) by (auto simp: peer_inv_def split: option.splits)
  then have "0 \<le> sendCount u" by (simp add: sendable_def sending_def)
  with u assms(2) show ?thesis
    by (auto simp: peer_inv_def advanced_advanced sent_as_advanced nth_append less_Suc_eq simp del: One_nat_def)
qed

lemma solo_upd:
  "solo J \<Longrightarrow> \<forall>j \<in> ran J. job_peer j \<noteq> job_peer a \<Longrightarrow> solo (J(i \<mapsto> a))"
  "solo J \<Longrightarrow> J i = Some b \<Longrightarrow> job_peer b = job_peer a \<Longrightarrow> solo (J(i \<mapsto> a))"
  "solo J \<Longrightarrow> solo (J(i := None))"
  unfolding solo_def ran_def by (auto split: if_splits)

lemma awaited_inv_handle:
  assumes I: "awaited_inv W ck s0 P" and e: "call_awaited P e"
  shows "awaited_inv W ck s0 (call_handle W (spec_store False) e P)"
proof -
  obtain c r where w: "world P = (c, r)" by (cases "world P")
  have laws: "key_laws W" and solo: "solo (jobs P)"
    and peer: "peer_inv W (ck p) (s0 p) (stored P p) (results P p)"
    and job: "jobs P i = Some j \<Longrightarrow> job_inv W (ck (job_peer j)) (stored P (job_peer j)) j" for p i j
    using I by (auto simp: awaited_inv_def)
  show ?thesis
  proof (cases e)
    case (Call i p t)
    show ?thesis
    proof (cases "kc_sessions c p")
      case None
      then have "s0 p = None" using peer [of p] w by (auto simp: peer_inv_def split: option.splits)
      then show ?thesis using I w None Call e solo_upd(3) [OF solo, of i]
        by (auto simp: awaited_inv_def encrypt_load_def bindE_def spec_store_simps go_on_def)
    next
      case (Some s)
      then show ?thesis using I w Call e solo_upd(1) [OF solo, of "Loaded p t s" i]
        by (auto simp: awaited_inv_def encrypt_load_def bindE_def spec_store_simps go_on_def)
    qed
  next
    case (Seal i)
    with e obtain p t s where j: "jobs P i = Some (Loaded p t s)" by auto
    then have s: "stored P p = Some s" using job [OF j] by simp
    then have "sendable W (ck p) s" using peer [of p] peer_inv_sendable by metis
    then obtain x r' where x: "encrypt_seal W (spec_store False) p t s (c, r) = (Inr x, (c, r'))" "half_of W (ck p) s t x"
      using seal_half [OF laws] by metis
    then show ?thesis using I w j s Seal solo_upd(2) [OF solo j, of "Sealed p t x"]
      by (auto simp: awaited_inv_def go_on_def)
  next
    case (Store i)
    with e obtain p t x where j: "jobs P i = Some (Sealed p t x)" by auto
    then obtain s where s: "stored P p = Some s" "half_of W (ck p) s t x" using job [OF j] by auto
    then have "sendable W (ck p) s" using peer [of p] peer_inv_sendable by metis
    then have "0 \<le> sendCount s" by (simp add: sendable_def sending_def)
    then obtain y where y: "encrypt_store (spec_store False) p x (c, r) = (y, (put_session p (advanced W (ck p) 1 s) c, r))"
      "sent_as W (ck p) s 0 (t, y)"
      using store_half [OF s(2)] by metis
    have "peer_inv W (ck p) (s0 p) (Some (advanced W (ck p) 1 s)) (results P p @ [(t, y)])"
      using peer_inv_store [OF _ y(2)] peer [of p] s(1) by simp
    moreover have "job_peer j' \<noteq> p" if "jobs P i' = Some j'" "i' \<noteq> i" for i' j'
      using solo that j by (auto simp: solo_def)
    ultimately show ?thesis using I w j s(1) y(1) Store solo_upd(3) [OF solo, of i]
      by (auto simp: awaited_inv_def)
  qed
qed

interpretation awaited: machine_invariant call_awaited "call_handle W (spec_store False)" "awaited_inv W ck s0" for W ck s0
  by unfold_locales (rule awaited_inv_handle)

lemma awaited_inv_idle:
  assumes "key_laws W" and "\<forall>p s. kc_sessions c p = Some s \<longrightarrow> sendable W (ck p) s"
  shows "awaited_inv W ck (kc_sessions c) (idle_pool (c, r))"
  using assms by (auto simp: awaited_inv_def solo_def peer_inv_def idle_pool_def results_def sendable_def split: option.split)

end
