(* ===== verification/OverlapProperties.thy ===== *)
theory OverlapProperties
  imports Overlap DemoSession
begin

text \<open>
  What calls of \<open>encrypt\<close> give that overlap in time: with one call per peer at a time the messages are
  numbered as if the calls had run in a row; calls for one peer that have all loaded before one of them
  stores send messages with the same number.
\<close>

section \<open>Calls that load together\<close>

fun is_call :: "call_event \<Rightarrow> bool" where
  "is_call (Call i p t) = True"
| "is_call _ = False"

fun job_of :: "('r, 'k) webcrypto \<Rightarrow> jstr \<Rightarrow> RatchetSession \<Rightarrow> job \<Rightarrow> bool" where
  "job_of W ck s (Loaded p t s') \<longleftrightarrow> s' = s"
| "job_of W ck s (Sealed p t x) \<longleftrightarrow> half_of W ck s t x"

definition together_inv :: "('r, 'k) webcrypto \<Rightarrow> jstr \<Rightarrow> jstr \<Rightarrow> RatchetSession \<Rightarrow> (key_contents, 'r) pool \<Rightarrow> bool" where
  "together_inv W ck p s P \<longleftrightarrow> key_laws W \<and> sendable W ck s \<and>
     (stored P p = Some s \<or> stored P p = Some (advanced W ck 1 s)) \<and>
     (\<forall>i j. jobs P i = Some j \<longrightarrow> job_peer j = p \<longrightarrow> job_of W ck s j) \<and> (\<forall>m \<in> set (results P p). sent_as W ck s 0 m)"

lemma load_keeps: "snd (encrypt_load (spec_store False) p (c, r)) = (c, r)"
  by (auto simp: encrypt_load_def bindE_def spec_store_simps split: option.split)

lemma seal_keeps: "fst (snd (encrypt_seal W (spec_store False) p t s (c, r))) = c"
  by (auto simp: encrypt_seal_def bindE_def withSession_def spec_store_simps split: prod.splits sum.splits)

lemma store_other: "q \<noteq> p \<Longrightarrow> kc_sessions (fst (snd (encrypt_store (spec_store False) q x (c, r)))) p = kc_sessions c p"
  by (auto simp: encrypt_store_def bindE_def spec_store_simps liftR_def split: prod.splits sum.splits)

lemma go_on_simps [simp]:
  "stored (go_on i q t x next P) = kc_sessions (fst (snd x))"
  "jobs (go_on i q t x next P) = (jobs P)(i := (case fst x of Inr y \<Rightarrow> Some (next y) | Inl _ \<Rightarrow> None))"
  "results (go_on i q t x next P) p = results P p @ (case fst x of Inl e \<Rightarrow> if q = p then [(t, Inl e)] else [] | Inr _ \<Rightarrow> [])"
  by (auto simp: go_on_def split: prod.split sum.split)

lemma together_inv_handle:
  assumes I: "together_inv W ck p s P" and e: "call_enabled P e" and no: "\<forall>i t. e \<noteq> Call i p t"
  shows "together_inv W ck p s (call_handle W (spec_store False) e P)"
proof -
  obtain c r where w: "world P = (c, r)" by (cases "world P")
  have laws: "key_laws W" "sendable W ck s" "0 \<le> sendCount s"
    and job: "jobs P i = Some j \<Longrightarrow> job_peer j = p \<Longrightarrow> job_of W ck s j" for i j
    using I by (auto simp: together_inv_def sendable_def sending_def)
  show ?thesis
  proof (cases e)
    case (Call i q t)
    with no have "q \<noteq> p" by auto
    with I w load_keeps [of q c r] show ?thesis
      by (auto simp: together_inv_def Call split: sum.splits)
  next
    case (Seal i)
    with e obtain q t u where j: "jobs P i = Some (Loaded q t u)" by auto
    show ?thesis
    proof (cases "q = p")
      case True
      then have "u = s" using job [OF j] by simp
      obtain x r' where "encrypt_seal W (spec_store False) p t s (c, r) = (Inr x, (c, r'))" "half_of W ck s t x"
        by (rule seal_half [OF laws(1,2)])
      with I w j Seal True \<open>u = s\<close> show ?thesis by (auto simp: together_inv_def)
    next
      case False
      with I w j Seal seal_keeps [of W q t u c r] show ?thesis by (auto simp: together_inv_def split: sum.splits)
    qed
  next
    case (Store i)
    with e obtain q t x where j: "jobs P i = Some (Sealed q t x)" by auto
    obtain y w' where y: "encrypt_store (spec_store False) q x (c, r) = (y, w')" by (metis surj_pair)
    show ?thesis
    proof (cases "q = p")
      case True
      then obtain y' where "encrypt_store (spec_store False) p x (c, r) = (y', (put_session p (advanced W ck 1 s) c, r))"
        "sent_as W ck s 0 (t, y')"
        using store_half [OF _ laws(3)] job [OF j] by (metis job_of.simps(2) job_peer.simps(2))
      with I w j Store True show ?thesis by (auto simp: together_inv_def)
    next
      case False
      have "kc_sessions (fst w') p = kc_sessions c p" using store_other [OF False, of x c r] y by simp
      with I w j y Store False show ?thesis by (auto simp: together_inv_def)
    qed
  qed
qed

interpretation together: machine_invariant "\<lambda>P e. call_enabled P e \<and> (\<forall>i t. e \<noteq> Call i p t)" "call_handle W (spec_store False)"
    "together_inv W ck p s" for W ck p s
  by unfold_locales (blast intro: together_inv_handle)

text \<open>Before anything has been sealed or stored.\<close>

definition calling_inv :: "('r, 'k) webcrypto \<Rightarrow> jstr \<Rightarrow> jstr \<Rightarrow> RatchetSession \<Rightarrow> (key_contents, 'r) pool \<Rightarrow> bool" where
  "calling_inv W ck p s P \<longleftrightarrow> together_inv W ck p s P \<and> stored P p = Some s"

interpretation calling: machine_invariant "\<lambda>P e. call_enabled P e \<and> is_call e" "call_handle W (spec_store False)"
    "calling_inv W ck p s" for W ck p s
proof
  fix P e assume I: "calling_inv W ck p s P" and "call_enabled P e \<and> is_call e"
  then obtain i q t where e: "e = Call i q t" by (cases e) auto
  obtain c r where w: "world P = (c, r)" by (cases "world P")
  from I w load_keeps [of q c r] show "calling_inv W ck p s (call_handle W (spec_store False) e P)"
    by (cases "q = p") (auto simp: calling_inv_def together_inv_def e encrypt_load_def bindE_def spec_store_simps split: sum.splits)
qed

section \<open>The properties\<close>

lemma pool_view_idle [simp]:
  "pool_view view (idle_pool (d, r)) = idle_pool (view d, r)" "results (pool_view view P) = results P"
  "world (idle_pool w) = w" "jobs (idle_pool w) = Map.empty"
  by (simp_all add: idle_pool_def pool_view_def results_def fun_eq_iff)

lemma stored_view [simp]: "fst (view_world view w) = view (fst w)"
  by (cases w) simp

text \<open>C8: Calls of encrypt may overlap as long as each peer has one call at a time. In every interleaving of
  the phases of calls that a caller awaits per peer, on IndexedDB, the n-th result for a peer is an
  envelope with the n-th number after the session's counter, sealed under the key of that number, and
  the stored session has advanced by as many messages as were returned: the same as calls in a row.\<close>

theorem awaited_encrypts_numbered:
  assumes "subtle_laws W" and "idb_ok d" and "\<forall>q s. kc_sessions (idb_view d) q = Some s \<longrightarrow> sendable W (ck q) s"
    and "runs call_awaited (call_handle W IndexedDbKeyStore) (idle_pool (d, r)) es Q"
    and "kc_sessions (idb_view d) p = Some s"
  shows "(\<forall>n < length (results Q p). sent_as W (ck p) s n (results Q p ! n)) \<and>
    kc_sessions (idb_view (fst (world Q))) p = Some (advanced W (ck p) (length (results Q p)) s)"
proof -
  have "runs call_awaited (call_handle W (spec_store False)) (idle_pool (idb_view d, r)) es (pool_view idb_view Q)"
    using idb_awaited.run_seen [OF assms(4)] assms(2) by simp
  then have "awaited_inv W ck (kc_sessions (idb_view d)) (pool_view idb_view Q)"
    by (rule awaited.run_keeps) (rule awaited_inv_idle [OF subtle_key_laws [OF assms(1)] assms(3)])
  then have "peer_inv W (ck p) (kc_sessions (idb_view d) p) (kc_sessions (idb_view (fst (world Q))) p) (results Q p)"
    by (simp add: awaited_inv_def)
  then show ?thesis by (simp add: assms(5) peer_inv_def)
qed

text \<open>C9: Calls of encrypt for one peer that overlap send colliding messages. When any number of calls have been
  made before one of them goes on, every envelope they return for the peer, in any interleaving, carries the
  same message number sealed under the same key, and the stored session has advanced by at most one
  message. A receiver takes all but one of these envelopes for replays.\<close>

theorem overlapping_encrypts_collide:
  assumes "subtle_laws W" and "idb_ok d" and "kc_sessions (idb_view d) p = Some s" and "sendable W ck s"
    and "runs call_enabled (call_handle W IndexedDbKeyStore) (idle_pool (d, r)) (calls @ rest) Q"
    and "\<forall>e \<in> set calls. is_call e" and "\<forall>e \<in> set rest. \<not> is_call e"
  shows "(\<forall>m \<in> set (results Q p). sent_as W ck s 0 m) \<and>
    (kc_sessions (idb_view (fst (world Q))) p = Some s \<or> kc_sessions (idb_view (fst (world Q))) p = Some (advanced W ck 1 s))"
proof -
  obtain P where P: "runs call_enabled (call_handle W (spec_store False)) (idle_pool (idb_view d, r)) calls P"
    "runs call_enabled (call_handle W (spec_store False)) P rest (pool_view idb_view Q)"
    using idb_calls.run_seen [OF assms(5)] assms(2) by (auto simp: runs_append)
  have "calling_inv W ck p s (idle_pool (idb_view d, r))"
    using assms(1,3,4) by (simp add: calling_inv_def together_inv_def subtle_key_laws)
  with calling.run_keeps [OF runs_restrict [OF P(1) assms(6)]] have "together_inv W ck p s P"
    by (simp add: calling_inv_def)
  moreover have "\<forall>e \<in> set rest. \<forall>i t. e \<noteq> Call i p t" using assms(7) by auto
  ultimately have "together_inv W ck p s (pool_view idb_view Q)"
    using together.run_keeps [OF runs_restrict [OF P(2)]] by blast
  then show ?thesis by (simp add: together_inv_def)
qed

section \<open>Two calls\<close>

lemma load_present: "kc_sessions c p = Some s \<Longrightarrow> encrypt_load (spec_store False) p (c, r) = (Inr s, (c, r))"
  by (simp add: encrypt_load_def bindE_def spec_store_simps)

lemma half_sent_ex: "\<exists>a b c e. (x :: half_sent) = (a, (b, c), e)"
  by (metis surj_pair)

lemma one_call:
  assumes "key_laws W" and "idb_ok d" and "kc_sessions (idb_view d) p = Some s" and "sendable W ck s"
    and "world P = (d, r)" and "jobs P = Map.empty"
  obtains Q d' r' where "runs call_awaited (call_handle W IndexedDbKeyStore) P [Call i p t, Seal i, Store i] Q"
    "length (results Q p) = Suc (length (results P p))" "world Q = (d', r')" "idb_ok d'" "jobs Q = Map.empty"
    "kc_sessions (idb_view d') p = Some (advanced W ck 1 s)"
proof -
  obtain d1 where d1: "encrypt_load IndexedDbKeyStore p (d, r) = (Inr s, (d1, r))" "idb_ok d1" "idb_view d1 = idb_view d"
    by (rule lift_phase [OF indexed_db.phases_refine(1) assms(2) load_present [OF assms(3)]])
  obtain x r' where x: "encrypt_seal W (spec_store False) p t s (idb_view d1, r) = (Inr x, (idb_view d1, r'))" "half_of W ck s t x"
    by (rule seal_half [OF assms(1,4)])
  obtain d2 where d2: "encrypt_seal W IndexedDbKeyStore p t s (d1, r) = (Inr x, (d2, r'))" "idb_ok d2" "idb_view d2 = idb_view d1"
    by (rule lift_phase [OF indexed_db.phases_refine(2) d1(2) x(1)])
  have "0 \<le> sendCount s" using assms(4) by (simp add: sendable_def sending_def)
  then obtain e where e: "encrypt_store (spec_store False) p x (idb_view d2, r') =
      (e, (put_session p (advanced W ck 1 s) (idb_view d2), r'))"
    using store_half [OF x(2)] by metis
  obtain d3 where "encrypt_store IndexedDbKeyStore p x (d2, r') = (e, (d3, r'))" "idb_ok d3"
    "idb_view d3 = put_session p (advanced W ck 1 s) (idb_view d2)"
    by (rule lift_phase [OF indexed_db.phases_refine(3) d2(2) e])
  with d1(1) d2(1) assms(5,6) d2(3) d1(3) show thesis
    by (intro that [of "P\<lparr>world := (d3, r'), jobs := Map.empty, outbox := outbox P @ [(p, t, e)]\<rparr>" d3 r'])
      (auto simp: go_on_def half_sent_ex runs_rules)
qed

theorem awaited_encrypts_numbered_witness:
  "\<exists>Q. runs call_awaited (call_handle demo_crypto IndexedDbKeyStore) (idle_pool (disk_of demo_talking, 20))
      [Call 0 (js ''alice'') (js ''a''), Seal 0, Store 0, Call 1 (js ''alice'') (js ''b''), Seal 1, Store 1] Q \<and>
    length (results Q (js ''alice'')) = 2 \<and> sent_as demo_crypto demo_ck demo_session 1 (results Q (js ''alice'') ! 1)"
proof -
  let ?p = "js ''alice''" and ?P = "idle_pool (disk_of demo_talking, 20 :: nat)"
  have s: "kc_sessions (idb_view (disk_of demo_talking)) ?p = Some demo_session" by (simp add: demo_talking_def)
  have snd: "sendable demo_crypto demo_ck demo_session"
    using demo_sending demo_keypair by (simp add: sendable_def) (simp add: demo_session_def)
  obtain Q d r where Q: "runs call_awaited (call_handle demo_crypto IndexedDbKeyStore) ?P [Call 0 ?p (js ''a''), Seal 0, Store 0] Q"
    "length (results Q ?p) = Suc (length (results ?P ?p))" "world Q = (d, r)" "idb_ok d" "jobs Q = Map.empty"
    "kc_sessions (idb_view d) ?p = Some (advanced demo_crypto demo_ck 1 demo_session)"
    by (rule one_call [OF demo_key_laws disk_of(1) s snd pool_view_idle(3,4)])
  obtain R d' r' where R: "runs call_awaited (call_handle demo_crypto IndexedDbKeyStore) Q [Call 1 ?p (js ''b''), Seal 1, Store 1] R"
    "length (results R ?p) = Suc (length (results Q ?p))"
    by (rule one_call [OF demo_key_laws Q(4,6) sendable_advanced [OF snd] Q(3,5)])
  have run: "runs call_awaited (call_handle demo_crypto IndexedDbKeyStore) ?P
      ([Call 0 ?p (js ''a''), Seal 0, Store 0] @ [Call 1 ?p (js ''b''), Seal 1, Store 1]) R"
    using Q(1) R(1) unfolding runs_append by blast
  have all: "\<forall>q s. kc_sessions (idb_view (disk_of demo_talking)) q = Some s \<longrightarrow> sendable demo_crypto demo_ck s"
    using snd by (auto simp: demo_talking_def split: if_splits)
  have two: "length (results R ?p) = 2" using Q(2) R(2) by simp
  with awaited_encrypts_numbered [OF demo_laws disk_of(1) all run s] have "sent_as demo_crypto demo_ck demo_session 1 (results R ?p ! 1)"
    by simp
  with run two show ?thesis unfolding append.simps by blast
qed

text \<open>Two calls that both load before one of them stores.\<close>

lemma two_calls:
  assumes "key_laws W" and "idb_ok d" and "kc_sessions (idb_view d) p = Some s" and "sendable W ck s"
  obtains Q where "runs call_enabled (call_handle W IndexedDbKeyStore) (idle_pool (d, r))
      ([Call 0 p t, Call 1 p u] @ [Seal 0, Seal 1, Store 0, Store 1]) Q"
    "length (results Q p) = 2"
proof -
  note load = lift_phase [OF indexed_db.phases_refine(1)] and seal = lift_phase [OF indexed_db.phases_refine(2)]
    and store = lift_phase [OF indexed_db.phases_refine(3)]
  have n: "0 \<le> sendCount s" using assms(4) by (simp add: sendable_def sending_def)
  obtain d1 where d1: "encrypt_load IndexedDbKeyStore p (d, r) = (Inr s, (d1, r))" "idb_ok d1" "idb_view d1 = idb_view d"
    by (rule load [OF assms(2) load_present [OF assms(3)]])
  have s1: "kc_sessions (idb_view d1) p = Some s" by (simp add: d1(3) assms(3))
  obtain d2 where d2: "encrypt_load IndexedDbKeyStore p (d1, r) = (Inr s, (d2, r))" "idb_ok d2" "idb_view d2 = idb_view d1"
    by (rule load [OF d1(2) load_present [OF s1]])
  obtain x r3 where x: "encrypt_seal W (spec_store False) p t s (idb_view d2, r) = (Inr x, (idb_view d2, r3))" "half_of W ck s t x"
    by (rule seal_half [OF assms(1,4)])
  obtain d3 where d3: "encrypt_seal W IndexedDbKeyStore p t s (d2, r) = (Inr x, (d3, r3))" "idb_ok d3" "idb_view d3 = idb_view d2"
    by (rule seal [OF d2(2) x(1)])
  obtain y r4 where y: "encrypt_seal W (spec_store False) p u s (idb_view d3, r3) = (Inr y, (idb_view d3, r4))" "half_of W ck s u y"
    by (rule seal_half [OF assms(1,4)])
  obtain d4 where d4: "encrypt_seal W IndexedDbKeyStore p u s (d3, r3) = (Inr y, (d4, r4))" "idb_ok d4" "idb_view d4 = idb_view d3"
    by (rule seal [OF d3(2) y(1)])
  obtain e where e: "encrypt_store (spec_store False) p x (idb_view d4, r4) = (e, (put_session p (advanced W ck 1 s) (idb_view d4), r4))"
    using store_half [OF x(2) n] by metis
  obtain d5 where d5: "encrypt_store IndexedDbKeyStore p x (d4, r4) = (e, (d5, r4))" "idb_ok d5"
    by (rule store [OF d4(2) e])
  obtain f where f: "encrypt_store (spec_store False) p y (idb_view d5, r4) = (f, (put_session p (advanced W ck 1 s) (idb_view d5), r4))"
    using store_half [OF y(2) n] by metis
  obtain d6 where d6: "encrypt_store IndexedDbKeyStore p y (d5, r4) = (f, (d6, r4))"
    by (rule store [OF d5(2) f])
  show thesis
  proof (rule that)
    let ?h = "call_handle W IndexedDbKeyStore"
    let ?P1 = "\<lparr>world = (d1, r), jobs = [0 \<mapsto> Loaded p t s], outbox = []\<rparr>"
    let ?P2 = "\<lparr>world = (d2, r), jobs = [0 \<mapsto> Loaded p t s, 1 \<mapsto> Loaded p u s], outbox = []\<rparr>"
    let ?P3 = "\<lparr>world = (d3, r3), jobs = [0 \<mapsto> Sealed p t x, 1 \<mapsto> Loaded p u s], outbox = []\<rparr>"
    let ?P4 = "\<lparr>world = (d4, r4), jobs = [0 \<mapsto> Sealed p t x, 1 \<mapsto> Sealed p u y], outbox = []\<rparr>"
    let ?P5 = "\<lparr>world = (d5, r4), jobs = [1 \<mapsto> Sealed p u y], outbox = [(p, t, e)]\<rparr>"
    let ?Q = "\<lparr>world = (d6, r4), jobs = Map.empty, outbox = [(p, t, e), (p, u, f)]\<rparr>"
    have h1: "?h (Call 0 p t) (idle_pool (d, r)) = ?P1" by (simp add: d1(1) go_on_def idle_pool_def)
    have h2: "?h (Call 1 p u) ?P1 = ?P2" by (simp add: d2(1) go_on_def)
    have h3: "?h (Seal 0) ?P2 = ?P3" by (simp add: d3(1) go_on_def) (simp add: fun_eq_iff)
    have h4: "?h (Seal 1) ?P3 = ?P4" by (simp add: d4(1) go_on_def)
    have h5: "?h (Store 0) ?P4 = ?P5" by (simp add: d5(1))
    have h6: "?h (Store 1) ?P5 = ?Q" by (simp add: d6)
    show "runs call_enabled (call_handle W IndexedDbKeyStore) (idle_pool (d, r))
        ([Call 0 p t, Call 1 p u] @ [Seal 0, Seal 1, Store 0, Store 1]) ?Q"
      unfolding append.simps runs_Cons h1 h2 h3 h4 h5 h6 by (simp add: half_sent_ex runs_Nil)
    show "length (results ?Q p) = 2" by (simp add: results_def)
  qed
qed

theorem overlapping_encrypts_collide_witness:
  "\<exists>Q. runs call_enabled (call_handle demo_crypto IndexedDbKeyStore) (idle_pool (disk_of demo_talking, 20))
      ([Call 0 (js ''alice'') (js ''a''), Call 1 (js ''alice'') (js ''b'')] @ [Seal 0, Seal 1, Store 0, Store 1]) Q \<and>
    length (results Q (js ''alice'')) = 2 \<and>
    (\<forall>m \<in> set (results Q (js ''alice'')). sent_as demo_crypto demo_ck demo_session 0 m)"
proof -
  let ?p = "js ''alice''"
  have s: "kc_sessions (idb_view (disk_of demo_talking)) ?p = Some demo_session" by (simp add: demo_talking_def)
  have snd: "sendable demo_crypto demo_ck demo_session"
    using demo_sending demo_keypair by (simp add: sendable_def) (simp add: demo_session_def)
  obtain Q where Q: "runs call_enabled (call_handle demo_crypto IndexedDbKeyStore) (idle_pool (disk_of demo_talking, 20))
      ([Call 0 ?p (js ''a''), Call 1 ?p (js ''b'')] @ [Seal 0, Seal 1, Store 0, Store 1]) Q" "length (results Q ?p) = 2"
    by (rule two_calls [OF demo_key_laws disk_of(1) s snd])
  have "\<forall>e \<in> set [Call 0 ?p (js ''a''), Call 1 ?p (js ''b'')]. is_call e" "\<forall>e \<in> set [Seal 0, Seal 1, Store 0, Store 1]. \<not> is_call e"
    by simp_all
  from overlapping_encrypts_collide [OF demo_laws disk_of(1) s snd Q(1) this] Q show ?thesis by blast
qed

end
