(* ===== verification/OverlapShared.thy ===== *)
theory OverlapShared
  imports Overlap
begin

text \<open>
  Calls of \<open>encrypt\<close> that overlap on the memory store, whose loads give the stored object itself: what one call
  writes between two awaits the other one sees. The work on the session is cut at its awaits: the chain key is
  read, the derived one is written before the encryption, the counter is read and advanced after it.
\<close>

section \<open>The session between two awaits\<close>

definition seal_key :: "('r, 'k) webcrypto \<Rightarrow> ('r, bytes \<times> jstr) on_session" where
  "seal_key W = bindE getS (\<lambda>s. if \<not> truthy (sendChainKey s) then throwE NoSendingChainKey
     else liftR (kdfChainKey W (the (sendChainKey s))))"

definition seal_box :: "('r, 'k) webcrypto \<Rightarrow> jstr \<Rightarrow> bytes \<times> jstr \<Rightarrow> ('r, AesGcmResult) on_session" where
  "seal_box W plaintext = (\<lambda>(messageKey, nextChainKey). bindE (modS (\<lambda>s. s\<lparr>sendChainKey := Some nextChainKey\<rparr>)) (\<lambda>_.
     onR (aesGcmEncrypt W messageKey (text_encode plaintext))))"

definition seal_finish :: "AesGcmResult \<Rightarrow> ('r, int \<times> json) on_session" where
  "seal_finish box = bindE getS (\<lambda>s.
     let header = \<lparr>h_rk = ourRatchetPublic s, h_n = sendCount s, h_pn = prevSendCount s\<rparr> in
     case (if isInitiator s \<and> sendCount s = 0 then pendingPreKeyMsg s else None) of
       Some pkInfo \<Rightarrow>
         bindE (modS (\<lambda>s. s\<lparr>pendingPreKeyMsg := None, sendCount := sendCount s + 1\<rparr>)) (\<lambda>_.
         retE (1, prekey_wire_json \<lparr>w_h = header, w_ct = gcm_ciphertext box, w_iv = gcm_iv box,
           w_ik = pend_identityKey pkInfo, w_ek = pend_ephemeralKey pkInfo,
           w_spkId = pend_spkId pkInfo, w_opkId = pend_opkId pkInfo\<rparr>))
     | None \<Rightarrow>
         bindE (modS (\<lambda>s. s\<lparr>sendCount := sendCount s + 1\<rparr>)) (\<lambda>_.
         retE (2, wire_json \<lparr>w_h = header, w_ct = gcm_ciphertext box, w_iv = gcm_iv box\<rparr>)))"

lemma sealMessage_phases: "sealMessage W t = bindE (seal_key W) (\<lambda>k. bindE (seal_box W t k) seal_finish)"
  by (rule ext) (auto simp: sealMessage_def seal_key_def seal_box_def seal_finish_def bindE_def getS_def modS_def onR_def
    Let_def liftR_def throwE_def split: prod.splits sum.splits option.splits)

section \<open>Two calls on one object\<close>

text \<open>A phase works on the object the map has now: no call of \<open>encrypt\<close> replaces it.\<close>

definition on_object :: "'st key_store \<Rightarrow> jstr \<Rightarrow> ('r, 'a) on_session \<Rightarrow> ('st \<times> 'r, error, 'a) eff" where
  "on_object ks peerId m = bindE (onStore (loadSession ks peerId)) (\<lambda>session.
     case session of None \<Rightarrow> throwE (NoSession peerId)
     | Some s \<Rightarrow> bindE (withSession ks peerId s m) (\<lambda>(x, s'). retE x))"

definition two_sends :: "('r, 'k) webcrypto \<Rightarrow> 'st key_store \<Rightarrow> jstr \<Rightarrow> jstr \<Rightarrow> jstr \<Rightarrow>
    ('st \<times> 'r, error, (int \<times> json) \<times> int \<times> json) eff" where
  "two_sends W ks p t u =
     bindE (on_object ks p (seal_key W)) (\<lambda>k. bindE (on_object ks p (seal_key W)) (\<lambda>k'.
     bindE (on_object ks p (seal_box W t k)) (\<lambda>b. bindE (on_object ks p (seal_box W u k')) (\<lambda>b'.
     bindE (on_object ks p (seal_finish b)) (\<lambda>m. bindE (on_object ks p (seal_finish b')) (\<lambda>m'. retE (m, m')))))))"

context key_store_contract
begin

lemma on_object_refines: "refinesE (ok_world ok) (view_world view) (on_object ks p m) (on_object (spec_store shared) p m)"
  unfolding on_object_def by (intro manager_refines)

lemma two_sends_refines: "refinesE (ok_world ok) (view_world view) (two_sends W ks p t u) (two_sends W (spec_store shared) p t u)"
  unfolding two_sends_def by (intro refinesE_bindE refinesE_pure on_object_refines)

end

lemma on_object_run:
  assumes "m (s, r) = (Inr x, (s', r'))" and "kc_sessions c p = Some s"
  shows "on_object (spec_store True) p m (c, r) = (Inr x, (put_session p s' c, r'))"
  using assms by (simp add: on_object_def bindE_def withSession_def spec_store_simps)

text \<open>Two calls that have both read the chain key before one of them has written it: their messages have two numbers and one
  key, and the chain of the session stays one key behind its numbers.\<close>

theorem shared_sends_shift_numbers:
  fixes W :: "('r, 'k) webcrypto"
  assumes "subtle_laws W" and "kc_sessions (memory_view d) p = Some s" and "sendable W ck s"
  shows "\<exists>v w d' r' s'. two_sends W InMemoryKeyStore p t u (d, r) = (Inr ((2, wire_json v), (2, wire_json w)), (d', r')) \<and>
    sealed W (ourRatchetPublic s) ck v t \<and> h_n (w_h v) = sendCount s \<and> h_n (w_h w) = sendCount s + 1 \<and>
    aesGcmDecrypt W (message_key W ck (nat (sendCount s))) (w_ct w) (w_iv w) = Inr (text_encode u) \<and>
    kc_sessions (memory_view d') p = Some s' \<and> sendCount s' = sendCount s + 2 \<and>
    sendChainKey s' = Some (chain_key W ck (nat (sendCount s) + 1))"
proof -
  note laws = key_lawsD [OF subtle_key_laws [OF assms(1)]]
  let ?n = "nat (sendCount s)" and ?c = "memory_view d"
  let ?k = "(message_key W ck ?n, chain_key W ck (Suc ?n))"
  let ?s1 = "s\<lparr>sendChainKey := Some (chain_key W ck (Suc ?n))\<rparr>"
  have s: "key32 ck" "0 \<le> sendCount s" "sendChainKey s = Some (chain_key W ck ?n)" "pendingPreKeyMsg s = None"
    using assms(3) by (simp_all add: sendable_def sending_def)
  obtain b where b: "aesGcmEncrypt W (message_key W ck ?n) (text_encode t) r = (Inr b, snd (randomBytes W 12 r))"
    "aesGcmDecrypt W (message_key W ck ?n) (gcm_ciphertext b) (gcm_iv b) = Inr (text_encode t)"
    by (rule aesGcm_roundtrip [OF laws(5) chain_step(3) [OF laws(4) s(1)]])
  let ?r = "snd (randomBytes W 12 r)"
  obtain b' where b': "aesGcmEncrypt W (message_key W ck ?n) (text_encode u) ?r = (Inr b', snd (randomBytes W 12 ?r))"
    "aesGcmDecrypt W (message_key W ck ?n) (gcm_ciphertext b') (gcm_iv b') = Inr (text_encode u)"
    by (rule aesGcm_roundtrip [OF laws(5) chain_step(3) [OF laws(4) s(1)]])
  let ?r' = "snd (randomBytes W 12 ?r)"
  let ?v = "\<lparr>w_h = \<lparr>h_rk = ourRatchetPublic s, h_n = sendCount s, h_pn = prevSendCount s\<rparr>, w_ct = gcm_ciphertext b, w_iv = gcm_iv b\<rparr>"
  let ?w = "\<lparr>w_h = \<lparr>h_rk = ourRatchetPublic s, h_n = sendCount s + 1, h_pn = prevSendCount s\<rparr>, w_ct = gcm_ciphertext b', w_iv = gcm_iv b'\<rparr>"
  let ?s2 = "?s1\<lparr>sendCount := sendCount s + 1\<rparr>" and ?s3 = "?s1\<lparr>sendCount := sendCount s + 2\<rparr>"
  have key: "seal_key W (s, r) = (Inr ?k, (s, r))"
    using s(3) chain_step(2) [OF laws(4) s(1)] truthy_chain_key [OF laws(4) s(1)]
    by (simp add: seal_key_def bindE_def getS_def)
  have box: "seal_box W t ?k (s, r) = (Inr b, (?s1, ?r))" "seal_box W u ?k (?s1, ?r) = (Inr b', (?s1, ?r'))"
    using b(1) b'(1) by (simp_all add: seal_box_def bindE_def modS_def onR_def)
  have fin: "seal_finish b (?s1, ?r') = (Inr (2, wire_json ?v), (?s2, ?r'))"
    "seal_finish b' (?s2, ?r') = (Inr (2, wire_json ?w), (?s3, ?r'))"
    using s(2,4) by (simp_all add: seal_finish_def bindE_def getS_def modS_def)
  note run = on_object_run [where m = "seal_key W", OF key] on_object_run [where m = "seal_box W t ?k", OF box(1)]
    on_object_run [where m = "seal_box W u ?k", OF box(2)] on_object_run [where m = "seal_finish b", OF fin(1)]
    on_object_run [where m = "seal_finish b'", OF fin(2)]
  have spec: "two_sends W (spec_store True) p t u (?c, r) = (Inr ((2, wire_json ?v), (2, wire_json ?w)), (put_session p ?s3 ?c, ?r'))"
    using assms(2) by (simp add: two_sends_def bindE_def run)
  obtain d' where d': "two_sends W InMemoryKeyStore p t u (d, r) = (Inr ((2, wire_json ?v), (2, wire_json ?w)), (d', ?r'))"
    "memory_view d' = put_session p ?s3 ?c"
    by (rule lift_phase [OF in_memory.two_sends_refines TrueI spec])
  have "sealed W (ourRatchetPublic s) ck ?v t" using b(2) s(2) by (simp add: sealed_def)
  with d' b'(2) show ?thesis
    by (intro exI [of _ ?v] exI [of _ ?w] exI [of _ d'] exI [of _ ?r'] exI [of _ ?s3]) simp
qed

end
