(* ===== verification/OverlapReceive.thy ===== *)
theory OverlapReceive
  imports Overlap
begin

text \<open>
  Calls of \<open>decrypt\<close> that overlap in time. A call opens the envelope and loads the session, works out the
  message key on the object it got, then stores the session and opens the message. \<open>decrypt_phases\<close> says
  that the three phases in a row are \<open>decrypt\<close>; the machine here runs the phases of any number of calls in
  any order, on a store whose loads are copies. A call for a type-1 envelope makes its session in the first
  phase.
\<close>

section \<open>The phases of a call\<close>

definition decrypt_load :: "('r, 'k) webcrypto \<Rightarrow> 'st key_store \<Rightarrow> jstr \<Rightarrow> EncryptedEnvelope \<Rightarrow>
    ('st \<times> 'r, error, WireMessage \<times> RatchetSession) eff" where
  "decrypt_load W ks peerId envelope =
     bindE (liftR (bindR (atob (env_ciphertext envelope)) json_parse)) (\<lambda>parsed.
     bindE (if env_type envelope = 1
            then bindE (liftR (to_prekey_wire parsed)) (initSessionFromPreKey W ks peerId)
            else bindE (onStore (loadSession ks peerId)) (\<lambda>session.
              case session of None \<Rightarrow> throwE (NoSession peerId) | Some s \<Rightarrow> retE s)) (\<lambda>session.
     bindE (liftR (to_wire parsed)) (\<lambda>w. retE (w, session))))"

type_synonym half_read = "WireMessage \<times> bytes \<times> RatchetSession"

definition decrypt_derive :: "('r, 'k) webcrypto \<Rightarrow> 'st key_store \<Rightarrow> jstr \<Rightarrow> WireMessage \<times> RatchetSession \<Rightarrow>
    ('st \<times> 'r, error, half_read) eff" where
  "decrypt_derive W ks peerId = (\<lambda>(w, session).
     bindE (withSession ks peerId session (receive W (w_h w))) (\<lambda>x. retE (w, x)))"

definition decrypt_store :: "('r, 'k) webcrypto \<Rightarrow> 'st key_store \<Rightarrow> jstr \<Rightarrow> half_read \<Rightarrow> ('st \<times> 'r, error, jstr) eff" where
  "decrypt_store W ks peerId = (\<lambda>(w, messageKey, session).
     bindE (onStore (storeSession ks peerId session)) (\<lambda>_.
     bindE (liftR (aesGcmDecrypt W messageKey (w_ct w) (w_iv w))) (\<lambda>pt. retE (text_decode pt))))"

lemma bindE_retE: "bindE (retE x) f = f x"
  by (rule ext) (simp add: bindE_def)

lemma decrypt_phases:
  "decrypt W ks p e = bindE (decrypt_load W ks p e) (\<lambda>x. bindE (decrypt_derive W ks p x) (decrypt_store W ks p))"
  unfolding decrypt_def decrypt_load_def decrypt_derive_def decrypt_store_def bindE_assoc bindE_retE prod.case
  by (auto intro!: bindE_cong split: prod.split)

section \<open>Calls under way\<close>

datatype read_job = Opened jstr EncryptedEnvelope "WireMessage \<times> RatchetSession" | Derived jstr EncryptedEnvelope half_read

record ('st, 'r) read_pool =
  rworld :: "'st \<times> 'r"
  reads :: "nat \<Rightarrow> read_job option"
  arrived :: "(jstr \<times> EncryptedEnvelope) list"
  texts :: "(jstr \<times> EncryptedEnvelope \<times> (error + jstr)) list"

datatype read_event = Arrive nat jstr EncryptedEnvelope | Derive nat | Keep nat

definition idle_reads :: "'st \<times> 'r \<Rightarrow> ('st, 'r) read_pool" where
  "idle_reads w = \<lparr>rworld = w, reads = Map.empty, arrived = [], texts = []\<rparr>"

definition read_on :: "nat \<Rightarrow> jstr \<Rightarrow> EncryptedEnvelope \<Rightarrow> (error + 'a) \<times> 'st \<times> 'r \<Rightarrow> ('a \<Rightarrow> read_job) \<Rightarrow>
    ('st, 'r) read_pool \<Rightarrow> ('st, 'r) read_pool" where
  "read_on i p e x next P = (case x of
     (Inr y, w) \<Rightarrow> P\<lparr>rworld := w, reads := (reads P)(i \<mapsto> next y)\<rparr>
   | (Inl er, w) \<Rightarrow> P\<lparr>rworld := w, reads := (reads P)(i := None), texts := texts P @ [(p, e, Inl er)]\<rparr>)"

fun read_handle :: "('r, 'k) webcrypto \<Rightarrow> 'st key_store \<Rightarrow> read_event \<Rightarrow> ('st, 'r) read_pool \<Rightarrow> ('st, 'r) read_pool" where
  "read_handle W ks (Arrive i p e) P =
     read_on i p e (decrypt_load W ks p e (rworld P)) (Opened p e) (P\<lparr>arrived := arrived P @ [(p, e)]\<rparr>)"
| "read_handle W ks (Derive i) P = (case reads P i of
     Some (Opened p e x) \<Rightarrow> read_on i p e (decrypt_derive W ks p x (rworld P)) (Derived p e) P | _ \<Rightarrow> P)"
| "read_handle W ks (Keep i) P = (case reads P i of
     Some (Derived p e x) \<Rightarrow> (let (t, w) = decrypt_store W ks p x (rworld P) in
       P\<lparr>rworld := w, reads := (reads P)(i := None), texts := texts P @ [(p, e, t)]\<rparr>) | _ \<Rightarrow> P)"

fun read_enabled :: "('st, 'r) read_pool \<Rightarrow> read_event \<Rightarrow> bool" where
  "read_enabled P (Arrive i p e) = (reads P i = None)"
| "read_enabled P (Derive i) = (\<exists>p e x. reads P i = Some (Opened p e x))"
| "read_enabled P (Keep i) = (\<exists>p e x. reads P i = Some (Derived p e x))"

section \<open>The machine over a store that keeps the contract\<close>

definition read_view :: "('st \<Rightarrow> 'c) \<Rightarrow> ('st, 'r) read_pool \<Rightarrow> ('c, 'r) read_pool" where
  "read_view view P = \<lparr>rworld = view_world view (rworld P), reads = reads P, arrived = arrived P, texts = texts P\<rparr>"

lemma read_view_simps [simp]:
  "rworld (read_view view P) = view_world view (rworld P)" "reads (read_view view P) = reads P"
  "arrived (read_view view P) = arrived P" "texts (read_view view P) = texts P"
  "read_view view (idle_reads (d, r)) = idle_reads (view d, r)"
  by (simp_all add: read_view_def idle_reads_def)

lemma read_view_arrived [simp]: "read_view view (P\<lparr>arrived := a\<rparr>) = (read_view view P)\<lparr>arrived := a\<rparr>"
  by (simp add: read_view_def)

lemma read_on_refines:
  assumes "refinesE (ok_world ok) (view_world view) m m'" and "ok_world ok (rworld P)"
  shows "ok_world ok (rworld (read_on i p e (m (rworld P)) next P)) \<and>
    read_view view (read_on i p e (m (rworld P)) next P) = read_on i p e (m' (view_world view (rworld P))) next (read_view view P)"
proof -
  obtain x w where m: "m (rworld P) = (x, w)" by (metis surj_pair)
  with refinesE_run [OF assms this] show ?thesis by (simp add: read_on_def read_view_def split: sum.split)
qed

context key_store_contract
begin

lemma read_phases_refine:
  "refinesE (ok_world ok) (view_world view) (decrypt_load W ks p e) (decrypt_load W (spec_store shared) p e)"
  "refinesE (ok_world ok) (view_world view) (decrypt_derive W ks p x) (decrypt_derive W (spec_store shared) p x)"
  "refinesE (ok_world ok) (view_world view) (decrypt_store W ks p y) (decrypt_store W (spec_store shared) p y)"
  unfolding decrypt_load_def decrypt_derive_def decrypt_store_def
  by (intro manager_refines initSessionFromPreKey_refines)+

lemma read_handle_refines:
  assumes "ok_world ok (rworld P)"
  shows "ok_world ok (rworld (read_handle W ks e P)) \<and>
    read_view view (read_handle W ks e P) = read_handle W (spec_store shared) e (read_view view P)"
proof (cases e)
  case (Keep i)
  show ?thesis
  proof (cases "\<exists>p env x. reads P i = Some (Derived p env x)")
    case True
    then obtain p env x where j: "reads P i = Some (Derived p env x)" by blast
    obtain y w where m: "decrypt_store W ks p x (rworld P) = (y, w)" by (metis surj_pair)
    from refinesE_run [OF read_phases_refine(3) assms this] m j show ?thesis by (simp add: read_view_def Keep)
  next
    case False
    then have "read_handle W ks e P = P" "read_handle W (spec_store shared) e (read_view view P) = read_view view P"
      by (auto simp: Keep split: option.split read_job.split)
    then show ?thesis using assms by simp
  qed
next
  case (Arrive i p env)
  show ?thesis using read_on_refines [OF read_phases_refine(1), of "P\<lparr>arrived := arrived P @ [(p, env)]\<rparr>"] assms
    by (simp add: Arrive)
next
  case (Derive i)
  show ?thesis by (simp add: Derive read_on_refines [OF read_phases_refine(2) assms] assms split: option.split read_job.split)
qed

end

lemma read_view_enabled [simp]: "read_enabled (read_view view P) e = read_enabled P e"
  by (cases e) simp_all

interpretation idb_reads: machine_simulation read_enabled "read_handle W IndexedDbKeyStore"
    read_enabled "read_handle W (spec_store False)" "\<lambda>P. ok_world idb_ok (rworld P)" "read_view idb_view" for W
  by unfold_locales (simp add: indexed_db.read_handle_refines)

section \<open>Messages of a chain that the session awaits\<close>

text \<open>What a call for another peer leaves of a session: everything.\<close>

definition keeps_session :: "jstr \<Rightarrow> RatchetSession option \<Rightarrow> key_contents \<Rightarrow> bool" where
  "keeps_session p s c \<longleftrightarrow> kc_sessions c p = s"

abbreviation other_peer :: "jstr \<Rightarrow> RatchetSession option \<Rightarrow> (key_contents \<times> 'r, error, 'a) eff \<Rightarrow> bool" where
  "other_peer p s m \<equiv> refinesE (ok_world (keeps_session p s)) (view_world (\<lambda>c. c)) m m"

lemma keeps_store:
  "refinesE (keeps_session p s) (\<lambda>c. c) (getIdentityKeyPair (spec_store a)) (getIdentityKeyPair (spec_store a))"
  "refinesE (keeps_session p s) (\<lambda>c. c) (loadSignedPreKey (spec_store a) i) (loadSignedPreKey (spec_store a) i)"
  "refinesE (keeps_session p s) (\<lambda>c. c) (loadPreKey (spec_store a) i) (loadPreKey (spec_store a) i)"
  "refinesE (keeps_session p s) (\<lambda>c. c) (removePreKey (spec_store a) i) (removePreKey (spec_store a) i)"
  "refinesE (keeps_session p s) (\<lambda>c. c) (loadSession (spec_store a) q) (loadSession (spec_store a) q)"
  "q \<noteq> p \<Longrightarrow> refinesE (keeps_session p s) (\<lambda>c. c) (storeSession (spec_store a) q u) (storeSession (spec_store a) q u)"
  by (simp_all add: refinesE_def spec_store_def readM_def writeM_def keeps_session_def)

lemma keeps_withSession: "other_peer p s (withSession (spec_store False) q u m)"
  by (auto simp: refinesE_def withSession_def spec_store_simps keeps_session_def split: prod.splits)

lemma phases_other_peer:
  assumes "q \<noteq> p"
  shows "other_peer p s (decrypt_load W (spec_store False) q e)" "other_peer p s (decrypt_derive W (spec_store False) q x)"
    "other_peer p s (decrypt_store W (spec_store False) q y)"
  unfolding decrypt_load_def decrypt_derive_def decrypt_store_def initSessionFromPreKey_def consumePreKey_def Let_def
  by (intro refinesE_cases refinesE_bindE refinesE_pure refinesE_onR keeps_withSession
    keeps_store [THEN refinesE_onStore] assms)+

lemma other_peer_D: "other_peer p s m \<Longrightarrow> kc_sessions (fst w) p = s \<Longrightarrow> kc_sessions (fst (snd (m w))) p = s"
  using refinesE_run [of "ok_world (keeps_session p s)" "view_world (\<lambda>c. c)" m m w]
  by (cases w; cases "m w") (auto simp: keeps_session_def)

text \<open>Every envelope for the peer is one of the chain, no number comes twice, and none is out of reach.\<close>

record plan =
  their_key :: jstr
  chain :: jstr
  todo :: "int set"
  start :: int
  num :: "EncryptedEnvelope \<Rightarrow> int"
  said :: "EncryptedEnvelope \<Rightarrow> jstr"

definition planned :: "('r, 'k) webcrypto \<Rightarrow> plan \<Rightarrow> EncryptedEnvelope \<Rightarrow> bool" where
  "planned W D e \<longleftrightarrow> (\<exists>pn. carries W (their_key D) (chain D) pn (num D e) (e, said D e)) \<and> num D e \<in> todo D \<and>
     0 \<le> num D e \<and> num D e \<le> start D + MAX_SKIP"

definition numbers :: "plan \<Rightarrow> jstr \<Rightarrow> (jstr \<times> EncryptedEnvelope) list \<Rightarrow> int list" where
  "numbers D p as = map (num D \<circ> snd) (filter (\<lambda>a. fst a = p) as)"

definition as_planned :: "('r, 'k) webcrypto \<Rightarrow> plan \<Rightarrow> jstr \<Rightarrow> (jstr \<times> EncryptedEnvelope) list \<Rightarrow> bool" where
  "as_planned W D p as \<longleftrightarrow> (\<forall>e. (p, e) \<in> set as \<longrightarrow> planned W D e) \<and> distinct (numbers D p as)"

text \<open>A session from which every number of a set can still be read.\<close>

definition reads_all :: "('r, 'k) webcrypto \<Rightarrow> plan \<Rightarrow> int set \<Rightarrow> RatchetSession \<Rightarrow> bool" where
  "reads_all W D T s \<longleftrightarrow> (\<exists>T'. T \<subseteq> T' \<and> awaiting W (their_key D) (chain D) T' s) \<and> start D \<le> recvCount s"

fun read_inv :: "('r, 'k) webcrypto \<Rightarrow> plan \<Rightarrow> int set \<Rightarrow> read_job \<Rightarrow> bool" where
  "read_inv W D T (Opened p e (w, s)) \<longleftrightarrow> planned W D e \<and> payload_of e = Inr (wire_json w) \<and> num D e \<notin> T \<and>
     reads_all W D (insert (num D e) T) s"
| "read_inv W D T (Derived p e (w, k, s)) \<longleftrightarrow> reads_all W D T s \<and>
     map_sum (\<lambda>x. x) text_decode (aesGcmDecrypt W k (w_ct w) (w_iv w)) = Inr (said D e)"

fun read_peer :: "read_job \<Rightarrow> jstr" where
  "read_peer (Opened p e x) = p"
| "read_peer (Derived p e x) = p"

definition still_to_come :: "plan \<Rightarrow> jstr \<Rightarrow> ('st, 'r) read_pool \<Rightarrow> int set" where
  "still_to_come D p P = todo D - set (numbers D p (arrived P))"

definition reading_inv :: "('r, 'k) webcrypto \<Rightarrow> plan \<Rightarrow> jstr \<Rightarrow> (key_contents, 'r) read_pool \<Rightarrow> bool" where
  "reading_inv W D p P \<longleftrightarrow> (\<exists>s. kc_sessions (fst (rworld P)) p = Some s \<and> reads_all W D (still_to_come D p P) s) \<and>
     (\<forall>i j. reads P i = Some j \<longrightarrow> read_peer j = p \<longrightarrow> read_inv W D (still_to_come D p P) j) \<and>
     (\<forall>e x. (p, e, x) \<in> set (texts P) \<longrightarrow> x = Inr (said D e))"

lemma reads_all_mono: "reads_all W D T s \<Longrightarrow> T' \<subseteq> T \<Longrightarrow> reads_all W D T' s"
  unfolding reads_all_def by blast

lemma read_inv_mono: "read_inv W D T j \<Longrightarrow> T' \<subseteq> T \<Longrightarrow> read_inv W D T' j"
  using reads_all_mono [of W D] by (cases "(W, D, T, j)" rule: read_inv.cases) (auto, meson insert_mono)

text \<open>The phases for an envelope that was planned.\<close>

lemma planned_wire:
  assumes "planned W D e"
  obtains w where "env_type e \<noteq> 1" "payload_of e = Inr (wire_json w)" "h_rk (w_h w) = their_key D" "h_n (w_h w) = num D e"
    "aesGcmDecrypt W (message_key W (chain D) (nat (num D e))) (w_ct w) (w_iv w) = Inr (text_encode (said D e))"
    "encodable (said D e)"
  using assms by (auto simp: planned_def carries_def sealed_def)

lemma load_planned:
  assumes "planned W D e" and "kc_sessions c p = Some s"
  obtains w where "payload_of e = Inr (wire_json w)" "decrypt_load W (spec_store False) p e (c, r) = (Inr (w, s), (c, r))"
proof -
  obtain w where "env_type e \<noteq> 1" "payload_of e = Inr (wire_json w)" using planned_wire [OF assms(1)] by metis
  with assms(2) show thesis
    by (intro that) (auto simp: decrypt_load_def bindE_def spec_store_simps payload_of_def)
qed

lemma derive_planned_full:
  assumes "key_laws W" and "read_inv W D T (Opened p e (w, s))"
  obtains k s' where "decrypt_derive W (spec_store False) p (w, s) (c, r) = (Inr (w, k, s'), (c, r))"
    "read_inv W D T (Derived p e (w, k, s'))"
    "s' = s\<lparr>skipped := skipped s', recvChainKey := recvChainKey s', recvCount := recvCount s'\<rparr>"
proof -
  have e: "planned W D e" and w: "payload_of e = Inr (wire_json w)" and s: "reads_all W D (insert (num D e) T) s"
    and new: "num D e \<notin> T" using assms(2) by simp_all
  obtain w' where w': "payload_of e = Inr (wire_json w')" "h_rk (w_h w') = their_key D" "h_n (w_h w') = num D e"
    "aesGcmDecrypt W (message_key W (chain D) (nat (num D e))) (w_ct w') (w_iv w') = Inr (text_encode (said D e))"
    "encodable (said D e)"
    by (rule planned_wire [OF e])
  have "w' = w" using w w'(1) by (metis sum.inject(2) to_wire_json(1))
  obtain T' where T': "insert (num D e) T \<subseteq> T'" "awaiting W (their_key D) (chain D) T' s" "start D \<le> recvCount s"
    using s by (auto simp: reads_all_def)
  have n: "num D e \<in> T'" "0 \<le> num D e" "num D e \<le> recvCount s + MAX_SKIP" using T' e by (auto simp: planned_def)
  obtain s' where s': "receive W (w_h w) (s, r) = (Inr (message_key W (chain D) (nat (h_n (w_h w)))), (s', r))"
    "awaiting W (their_key D) (chain D) (T' - {h_n (w_h w)}) s'" "recvCount s' = max (recvCount s) (h_n (w_h w) + 1)"
    "s' = s\<lparr>skipped := skipped s', recvChainKey := recvChainKey s', recvCount := recvCount s'\<rparr>"
    by (rule receive_known [OF assms(1) T'(2), of "w_h w" r]) (use n w' \<open>w' = w\<close> in auto)
  have "decrypt_derive W (spec_store False) p (w, s) (c, r) = (Inr (w, message_key W (chain D) (nat (num D e)), s'), (c, r))"
    using s'(1) w'(3) \<open>w' = w\<close> by (simp add: decrypt_derive_def bindE_def withSession_def spec_store_simps)
  moreover have "T \<subseteq> T' - {num D e}" using T'(1) new by blast
  then have "reads_all W D T s'"
    using s'(2,3) T'(3) w'(3) \<open>w' = w\<close> unfolding reads_all_def by auto
  then have "read_inv W D T (Derived p e (w, message_key W (chain D) (nat (num D e)), s'))"
    using w'(4,5) \<open>w' = w\<close> by (auto simp: text_roundtrip)
  ultimately show thesis using s'(4) by (rule that)
qed

lemma derive_planned:
  assumes "key_laws W" and "read_inv W D T (Opened p e (w, s))"
  obtains k s' where "decrypt_derive W (spec_store False) p (w, s) (c, r) = (Inr (w, k, s'), (c, r))"
    "read_inv W D T (Derived p e (w, k, s'))"
  by (rule derive_planned_full [OF assms]) (rule that)

lemma store_planned:
  assumes "read_inv W D T (Derived p e (w, k, s))"
  shows "decrypt_store W (spec_store False) p (w, k, s) (c, r) = (Inr (said D e), (put_session p s c, r))"
  using assms
  by (cases "aesGcmDecrypt W k (w_ct w) (w_iv w)") (simp_all add: decrypt_store_def bindE_def spec_store_simps)

section \<open>Every interleaving\<close>

lemma read_on_simps [simp]:
  "rworld (read_on i p e x next P) = snd x" "arrived (read_on i p e x next P) = arrived P"
  "reads (read_on i p e x next P) = (reads P)(i := (case fst x of Inr y \<Rightarrow> Some (next y) | Inl _ \<Rightarrow> None))"
  "texts (read_on i p e x next P) = texts P @ (case fst x of Inl er \<Rightarrow> [(p, e, Inl er)] | Inr _ \<Rightarrow> [])"
  by (auto simp: read_on_def split: prod.splits sum.splits)

lemma numbers_snoc [simp]: "numbers D p (as @ [(q, e)]) = numbers D p as @ (if q = p then [num D e] else [])"
  by (simp add: numbers_def)

lemma as_planned_snoc:
  "as_planned W D p (as @ [(q, e)]) \<longleftrightarrow> as_planned W D p as \<and> (q = p \<longrightarrow> planned W D e \<and> num D e \<notin> set (numbers D p as))"
  by (auto simp: as_planned_def)

lemma reading_invD:
  assumes "reading_inv W D p P"
  shows "\<exists>s. kc_sessions (fst (rworld P)) p = Some s \<and> reads_all W D (still_to_come D p P) s"
    "reads P i = Some j \<Longrightarrow> read_peer j = p \<Longrightarrow> read_inv W D (still_to_come D p P) j"
    "(p, e, x) \<in> set (texts P) \<Longrightarrow> x = Inr (said D e)"
  using assms unfolding reading_inv_def by blast+

lemma reading_next:
  assumes I: "reading_inv W D p P" and T: "still_to_come D p P' \<subseteq> still_to_come D p P"
    and s: "\<exists>s. kc_sessions (fst (rworld P')) p = Some s \<and> reads_all W D (still_to_come D p P') s"
    and r: "reads P' = (reads P)(i := x)" "case x of None \<Rightarrow> True | Some j \<Rightarrow> read_peer j = p \<longrightarrow> read_inv W D (still_to_come D p P') j"
    and t: "texts P' = texts P @ y" "\<And>e z. (p, e, z) \<in> set y \<Longrightarrow> z = Inr (said D e)"
  shows "reading_inv W D p P'"
  unfolding reading_inv_def
proof (intro conjI allI impI)
  fix k j assume "reads P' k = Some j" "read_peer j = p"
  then show "read_inv W D (still_to_come D p P') j"
    using r reading_invD(2) [OF I, of k j] read_inv_mono [OF _ T, of W D j] by (cases "k = i") auto
next
  fix e z assume "(p, e, z) \<in> set (texts P')"
  then show "z = Inr (said D e)" using t reading_invD(3) [OF I] by auto
qed (rule s)

lemma reading_other:
  assumes I: "reading_inv W D p P" and "q \<noteq> p" and "\<And>j. x = Some j \<Longrightarrow> read_peer j = q"
    and "kc_sessions (fst (rworld P')) p = kc_sessions (fst (rworld P)) p"
    and "reads P' = (reads P)(i := x)" and "texts P' = texts P @ y" and "p \<notin> fst ` set y"
    and "still_to_come D p P' = still_to_come D p P"
  shows "reading_inv W D p P'"
  by (rule reading_next [OF I, where i = i and x = x and y = y])
    (use assms reading_invD(1) [OF I] in \<open>force split: option.splits\<close>)+

lemma reading_on_other:
  assumes "reading_inv W D p P" and "q \<noteq> p" and "\<And>y. read_peer (next y) = q"
    and "kc_sessions (fst (snd x)) p = kc_sessions (fst (rworld P)) p"
    and "still_to_come D p P0 = still_to_come D p P" and "reads P0 = reads P" and "texts P0 = texts P"
  shows "reading_inv W D p (read_on i q e x next P0)"
  by (rule reading_other [OF assms(1,2), where i = i and x = "case fst x of Inr y \<Rightarrow> Some (next y) | Inl _ \<Rightarrow> None"])
    (use assms in \<open>auto simp: still_to_come_def split: sum.splits\<close>)

definition reading :: "('r, 'k) webcrypto \<Rightarrow> plan \<Rightarrow> jstr \<Rightarrow> (key_contents, 'r) read_pool \<Rightarrow> bool" where
  "reading W D p P \<longleftrightarrow> key_laws W \<and> (as_planned W D p (arrived P) \<longrightarrow> reading_inv W D p P)"

lemma reading_arrive:
  assumes I: "reading_inv W D p P" and ok: "planned W D e" "num D e \<notin> set (numbers D p (arrived P))"
  shows "reading_inv W D p (read_handle W (spec_store False) (Arrive i p e) P)"
proof -
  obtain c r where w: "rworld P = (c, r)" by (cases "rworld P")
  let ?T = "still_to_come D p P" and ?P = "P\<lparr>arrived := arrived P @ [(p, e)]\<rparr>"
  obtain s where s: "kc_sessions c p = Some s" "reads_all W D ?T s" using I w by (auto simp: reading_inv_def)
  obtain v where v: "payload_of e = Inr (wire_json v)" "decrypt_load W (spec_store False) p e (c, r) = (Inr (v, s), (c, r))"
    by (rule load_planned [OF ok(1) s(1)])
  have T: "still_to_come D p ?P = ?T - {num D e}" "num D e \<in> ?T"
    using ok by (auto simp: still_to_come_def planned_def)
  have "reads_all W D (?T - {num D e}) s" "insert (num D e) (?T - {num D e}) = ?T"
    using reads_all_mono [OF s(2)] T(2) by blast+
  moreover let ?Q = "read_handle W (spec_store False) (Arrive i p e) P"
  have "rworld ?Q = (c, r)" "reads ?Q = (reads P)(i := Some (Opened p e (v, s)))" "texts ?Q = texts P @ []"
    using v(2) w by simp_all
  moreover have "still_to_come D p ?Q = ?T - {num D e}" using T(1) by (simp add: still_to_come_def)
  ultimately show ?thesis
    by (intro reading_next [OF I, where i = i and x = "Some (Opened p e (v, s))" and y = "[]"])
      (use s v(1) ok(1) in simp_all)
qed

lemma reading_derive:
  assumes "key_laws W" and I: "reading_inv W D p P" and j: "reads P i = Some (Opened p e x)"
  shows "reading_inv W D p (read_handle W (spec_store False) (Derive i) P)"
proof -
  obtain c r where w: "rworld P = (c, r)" by (cases "rworld P")
  obtain v s where x: "x = (v, s)" by (cases x)
  have "read_inv W D (still_to_come D p P) (Opened p e (v, s))" using reading_invD(2) [OF I j] x by simp
  then obtain k s' where "decrypt_derive W (spec_store False) p (v, s) (c, r) = (Inr (v, k, s'), (c, r))"
    "read_inv W D (still_to_come D p P) (Derived p e (v, k, s'))"
    using derive_planned [OF assms(1)] by metis
  moreover have "still_to_come D p (read_handle W (spec_store False) (Derive i) P) = still_to_come D p P"
    using j by (simp add: still_to_come_def)
  ultimately show ?thesis
    by (intro reading_next [OF I, where i = i and x = "Some (Derived p e (v, k, s'))" and y = "[]"])
      (use reading_invD(1) [OF I] j x w in simp_all)
qed

lemma reading_keep:
  assumes I: "reading_inv W D p P" and j: "reads P i = Some (Derived p e x)"
  shows "reading_inv W D p (read_handle W (spec_store False) (Keep i) P)"
proof -
  obtain c r where w: "rworld P = (c, r)" by (cases "rworld P")
  obtain v k s where x: "x = (v, k, s)" by (cases x)
  have s: "read_inv W D (still_to_come D p P) (Derived p e (v, k, s))" using reading_invD(2) [OF I j] x by simp
  have same: "still_to_come D p (read_handle W (spec_store False) (Keep i) P) = still_to_come D p P"
    using j x w store_planned [OF s, of c r] by (simp add: still_to_come_def)
  show ?thesis
    by (rule reading_next [OF I, where i = i and x = None and y = "[(p, e, Inr (said D e))]"])
      (use same s j x w store_planned [OF s, of c r] in auto)
qed

lemma reading_handle:
  assumes I: "reading W D p P" and e: "read_enabled P ev"
  shows "reading W D p (read_handle W (spec_store False) ev P)"
proof -
  have laws: "key_laws W" using I by (simp add: reading_def)
  have "reading_inv W D p (read_handle W (spec_store False) ev P)"
    if ok: "as_planned W D p (arrived (read_handle W (spec_store False) ev P))"
  proof (cases ev)
    case (Arrive i q env)
    have "as_planned W D p (arrived P)" and new: "q = p \<longrightarrow> planned W D env \<and> num D env \<notin> set (numbers D p (arrived P))"
      using ok by (simp_all add: Arrive as_planned_snoc)
    then have inv: "reading_inv W D p P" using I by (simp add: reading_def)
    show ?thesis
    proof (cases "q = p")
      case True
      with new Arrive reading_arrive [OF inv] show ?thesis by simp
    next
      case False
      have "kc_sessions (fst (snd (decrypt_load W (spec_store False) q env (rworld P)))) p = kc_sessions (fst (rworld P)) p"
        by (rule other_peer_D [OF phases_other_peer(1) [OF False] refl])
      from reading_on_other [OF inv False _ this] show ?thesis by (simp add: Arrive still_to_come_def False)
    qed
  next
    case (Derive i)
    with e obtain q env x where j: "reads P i = Some (Opened q env x)" by auto
    then have inv: "reading_inv W D p P" using I ok by (simp add: reading_def Derive)
    show ?thesis
    proof (cases "q = p")
      case True
      with j Derive reading_derive [OF laws inv] show ?thesis by simp
    next
      case False
      have "kc_sessions (fst (snd (decrypt_derive W (spec_store False) q x (rworld P)))) p = kc_sessions (fst (rworld P)) p"
        by (rule other_peer_D [OF phases_other_peer(2) [OF False] refl])
      from reading_on_other [OF inv False _ this] j show ?thesis by (simp add: Derive still_to_come_def False)
    qed
  next
    case (Keep i)
    with e obtain q env x where j: "reads P i = Some (Derived q env x)" by auto
    obtain y w where st: "decrypt_store W (spec_store False) q x (rworld P) = (y, w)" by (metis surj_pair)
    have inv: "reading_inv W D p P" using I ok j st by (simp add: reading_def Keep)
    show ?thesis
    proof (cases "q = p")
      case True
      with j Keep reading_keep [OF inv] show ?thesis by simp
    next
      case False
      have "kc_sessions (fst w) p = kc_sessions (fst (rworld P)) p"
        using other_peer_D [OF phases_other_peer(3) [OF False] refl] st by (metis snd_conv)
      then show ?thesis unfolding Keep using False j st
        by (intro reading_other [OF inv False, of None _ i]) (auto simp: still_to_come_def)
    qed
  qed
  then show ?thesis using laws by (simp add: reading_def)
qed

interpretation reading: machine_invariant read_enabled "read_handle W (spec_store False)" "reading W D p" for W D p
  by unfold_locales (rule reading_handle)

lemma reading_idle:
  assumes "key_laws W" and "kc_sessions c p = Some s" and "awaiting W (their_key D) (chain D) (todo D) s" and "start D = recvCount s"
  shows "reading W D p (idle_reads (c, r))"
  using assms by (auto simp: reading_def reading_inv_def idle_reads_def reads_all_def still_to_come_def)

end
