(* ===== verification/ReceiveProperties.thy ===== *)
theory ReceiveProperties
  imports OverlapReceive DemoSession
begin

text \<open>
  What calls of \<open>decrypt\<close> give that overlap in time: no text is lost and none is read wrongly; but of the calls that
  loaded together only the last one to store leaves its mark on the session.
\<close>

section \<open>Reading a planned message\<close>

lemma decrypt_planned:
  assumes "key_laws W" and "reads_all W D T s" and "kc_sessions c p = Some s" and "planned W D e" and "num D e \<in> T"
  shows "fst (decrypt W (spec_store False) p e (c, r)) = Inr (said D e)"
proof -
  obtain T' where a: "awaiting W (their_key D) (chain D) T' s" "num D e \<in> T'" "start D \<le> recvCount s"
    using assms(2,5) by (auto simp: reads_all_def)
  obtain pn where e: "carries W (their_key D) (chain D) pn (num D e) (e, said D e)" "0 \<le> num D e" "num D e \<le> start D + MAX_SKIP"
    using assms(4) by (auto simp: planned_def)
  let ?h = "\<lparr>h_rk = their_key D, h_n = num D e, h_pn = pn\<rparr>"
  obtain s' where "receive W ?h (s, r) = (Inr (message_key W (chain D) (nat (num D e))), (s', r))"
    by (rule receive_known [OF assms(1) a(1), of ?h r]) (use a e in auto)
  from decrypt_carried [OF e(1) assms(3) this, where a = False] show ?thesis by simp
qed

text \<open>C10: calls of decrypt may overlap. For a session of IndexedDB that awaits a chain of the peer, in every
  interleaving of the phases of calls for envelopes of the chain (no number twice, none more than 500 ahead) with
  calls for other peers: every call for the peer that has returned gave the text of its envelope, and every envelope
  of the chain that has not arrived can still be decrypted.\<close>

theorem overlapping_decrypts_deliver:
  assumes "subtle_laws W" and "idb_ok d" and "kc_sessions (idb_view d) p = Some s"
    and "awaiting W (their_key D) (chain D) (todo D) s" and "start D = recvCount s"
    and "runs read_enabled (read_handle W IndexedDbKeyStore) (idle_reads (d, r)) es Q"
    and "as_planned W D p (arrived Q)"
  shows "(\<forall>e x. (p, e, x) \<in> set (texts Q) \<longrightarrow> x = Inr (said D e)) \<and>
    (\<forall>e. planned W D e \<and> num D e \<notin> set (numbers D p (arrived Q)) \<longrightarrow>
       fst (decrypt W IndexedDbKeyStore p e (rworld Q)) = Inr (said D e))"
proof -
  note laws = subtle_key_laws [OF assms(1)]
  have idb_decrypt: "idb_ok c \<Longrightarrow> fst (decrypt W IndexedDbKeyStore p e (c, r')) = fst (decrypt W (spec_store False) p e (idb_view c, r'))"
    for c r' e
    by (rule refinesE_fst [OF indexed_db.decrypt_refines])
  have sim: "ok_world idb_ok (rworld Q) \<and>
      runs read_enabled (read_handle W (spec_store False)) (idle_reads (idb_view d, r)) es (read_view idb_view Q)"
    using idb_reads.run_seen [OF assms(6)] assms(2) by (simp add: idle_reads_def read_view_def)
  then have "reading W D p (read_view idb_view Q)"
    using reading.run_keeps [OF _ reading_idle [OF laws assms(3-5)]] by blast
  then have I: "reading_inv W D p (read_view idb_view Q)" using assms(7) by (simp add: reading_def)
  obtain c r' where w: "rworld Q = (c, r')" by (cases "rworld Q")
  obtain u where u: "kc_sessions (idb_view c) p = Some u" "reads_all W D (todo D - set (numbers D p (arrived Q))) u"
    using reading_invD(1) [OF I] w by (auto simp: still_to_come_def)
  have "fst (decrypt W IndexedDbKeyStore p e (rworld Q)) = Inr (said D e)"
    if "planned W D e" "num D e \<notin> set (numbers D p (arrived Q))" for e
  proof -
    have "num D e \<in> todo D - set (numbers D p (arrived Q))" using that by (simp add: planned_def)
    from decrypt_planned [OF laws u(2,1) that(1) this] show ?thesis
      using idb_decrypt sim w by simp
  qed
  then show ?thesis using reading_invD(3) [OF I] by simp
qed

section \<open>Two calls that load together\<close>

lemma idb_execute:
  assumes "ok_world idb_ok (rworld P)"
    and "execute read_enabled (read_handle W (spec_store False)) es (read_view idb_view P) = Some R"
  shows "\<exists>Q. execute read_enabled (read_handle W IndexedDbKeyStore) es P = Some Q \<and> read_view idb_view Q = R \<and>
    ok_world idb_ok (rworld Q)"
  using assms
proof (induction es arbitrary: P)
  case (Cons e es)
  note step = indexed_db.read_handle_refines [OF Cons.prems(1), of W e]
  have "execute read_enabled (read_handle W (spec_store False)) es (read_view idb_view (read_handle W IndexedDbKeyStore e P)) = Some R"
    and "read_enabled P e"
    using Cons.prems(2) step by (simp_all split: if_splits)
  then show ?case using Cons.IH step by simp
qed simp

definition two_reads :: "jstr \<Rightarrow> EncryptedEnvelope \<Rightarrow> EncryptedEnvelope \<Rightarrow> read_event list" where
  "two_reads p e f = [Arrive 0 p e, Arrive 1 p f, Derive 0, Derive 1, Keep 0, Keep 1]"

lemma two_reads_run:
  assumes laws: "key_laws W" and "kc_sessions c p = Some s" and s: "reads_all W D (todo D) s"
    and e: "planned W D e" and f: "planned W D f" and "num D e \<noteq> num D f"
  obtains R s' where "execute read_enabled (read_handle W (spec_store False)) (two_reads p e f) (idle_reads (c, r)) = Some R"
    "arrived R = [(p, e), (p, f)]" "texts R = [(p, e, Inr (said D e)), (p, f, Inr (said D f))]"
    "kc_sessions (fst (rworld R)) p = Some s'" "reads_all W D (todo D - {num D f}) s'"
proof -
  obtain v where v: "payload_of e = Inr (wire_json v)" "decrypt_load W (spec_store False) p e (c, r) = (Inr (v, s), (c, r))"
    by (rule load_planned [OF e assms(2)])
  obtain w where w: "payload_of f = Inr (wire_json w)" "decrypt_load W (spec_store False) p f (c, r) = (Inr (w, s), (c, r))"
    by (rule load_planned [OF f assms(2)])
  have "insert (num D e) (todo D - {num D e}) = todo D" "insert (num D f) (todo D - {num D f}) = todo D"
    using e f by (auto simp: planned_def)
  then have "read_inv W D (todo D - {num D e}) (Opened p e (v, s))" "read_inv W D (todo D - {num D f}) (Opened p f (w, s))"
    using e f v(1) w(1) s by simp_all
  note both = this
  obtain k u where u: "decrypt_derive W (spec_store False) p (v, s) (c, r) = (Inr (v, k, u), (c, r))"
    "read_inv W D (todo D - {num D e}) (Derived p e (v, k, u))"
    by (rule derive_planned [OF laws both(1)])
  obtain k' u' where u': "decrypt_derive W (spec_store False) p (w, s) (c, r) = (Inr (w, k', u'), (c, r))"
    "read_inv W D (todo D - {num D f}) (Derived p f (w, k', u'))"
    by (rule derive_planned [OF laws both(2)])
  show thesis
    by (rule that [of "\<lparr>rworld = (put_session p u' (put_session p u c), r), reads = Map.empty,
          arrived = [(p, e), (p, f)], texts = [(p, e, Inr (said D e)), (p, f, Inr (said D f))]\<rparr>" u'])
      (use u' in \<open>simp_all add: two_reads_def idle_reads_def v(2) w(2) u(1) read_on_def store_planned [OF u(2)]
        store_planned [OF u'(2)] fun_eq_iff\<close>)
qed

text \<open>Of two calls that loaded together the last one to store decides: the number of the other one is awaited again,
  and its envelope, when it is sent once more, is read as if it were new.\<close>

theorem overlapping_decrypts_forget:
  assumes "subtle_laws W" and "idb_ok d" and "kc_sessions (idb_view d) p = Some s"
    and "awaiting W (their_key D) (chain D) (todo D) s" and "start D = recvCount s"
    and "planned W D e" and "planned W D f" and "num D e \<noteq> num D f"
  shows "\<exists>Q. runs read_enabled (read_handle W IndexedDbKeyStore) (idle_reads (d, r)) (two_reads p e f) Q \<and>
    arrived Q = [(p, e), (p, f)] \<and> texts Q = [(p, e, Inr (said D e)), (p, f, Inr (said D f))] \<and>
    fst (decrypt W IndexedDbKeyStore p e (rworld Q)) = Inr (said D e)"
proof -
  note laws = subtle_key_laws [OF assms(1)]
  have idb_decrypt: "idb_ok c \<Longrightarrow> fst (decrypt W IndexedDbKeyStore p e (c, r')) = fst (decrypt W (spec_store False) p e (idb_view c, r'))"
    for c r' e
    by (rule refinesE_fst [OF indexed_db.decrypt_refines])
  have "reads_all W D (todo D) s" using assms(4,5) by (auto simp: reads_all_def)
  then obtain R s' where R: "execute read_enabled (read_handle W (spec_store False)) (two_reads p e f) (idle_reads (idb_view d, r)) = Some R"
    "arrived R = [(p, e), (p, f)]" "texts R = [(p, e, Inr (said D e)), (p, f, Inr (said D f))]"
    "kc_sessions (fst (rworld R)) p = Some s'" "reads_all W D (todo D - {num D f}) s'"
    using two_reads_run [OF laws assms(3) _ assms(6-8)] by metis
  have "ok_world idb_ok (rworld (idle_reads (d, r)))" using assms(2) by (simp add: idle_reads_def)
  then obtain Q where Q: "execute read_enabled (read_handle W IndexedDbKeyStore) (two_reads p e f) (idle_reads (d, r)) = Some Q"
    "read_view idb_view Q = R" "ok_world idb_ok (rworld Q)"
    using idb_execute [where W = W and P = "idle_reads (d, r)" and es = "two_reads p e f" and R = R] R(1) by auto
  obtain c r' where w: "rworld Q = (c, r')" by (cases "rworld Q")
  have "num D e \<in> todo D - {num D f}" using assms(6,8) by (simp add: planned_def)
  moreover have "kc_sessions (idb_view c) p = Some s'" using R(4) Q(2) w by auto
  ultimately have "fst (decrypt W (spec_store False) p e (idb_view c, r')) = Inr (said D e)"
    using decrypt_planned [OF laws R(5) _ assms(6)] by blast
  then have "fst (decrypt W IndexedDbKeyStore p e (rworld Q)) = Inr (said D e)"
    using idb_decrypt [of c] Q(3) w by simp
  then show ?thesis using Q R(2,3) by (auto simp: runs_execute)
qed

section \<open>A message that is received while another one is sent\<close>

text \<open>A call of \<open>encrypt\<close> that loads, seals and stores between the first and the second phase of a call of
  \<open>decrypt\<close>.\<close>

definition sent_while_receiving :: "('r, 'k) webcrypto \<Rightarrow> 'st key_store \<Rightarrow> jstr \<Rightarrow> jstr \<Rightarrow> EncryptedEnvelope \<Rightarrow>
    ('st \<times> 'r, error, EncryptedEnvelope \<times> jstr) eff" where
  "sent_while_receiving W ks p t e =
     bindE (decrypt_load W ks p e) (\<lambda>x.
     bindE (encrypt W ks p t) (\<lambda>env.
     bindE (decrypt_derive W ks p x) (\<lambda>y.
     bindE (decrypt_store W ks p y) (\<lambda>got. retE (env, got)))))"

context key_store_contract
begin

lemma sent_while_receiving_refines:
  "refinesE (ok_world ok) (view_world view) (sent_while_receiving W ks p t e) (sent_while_receiving W (spec_store shared) p t e)"
  unfolding sent_while_receiving_def by (intro refinesE_bindE refinesE_pure encrypt_refines read_phases_refine)

end

lemma encrypt_sendable:
  assumes "key_laws W" and "sendable W ck s" and "kc_sessions c p = Some s"
  obtains env r' where "encrypt W (spec_store False) p t (c, r) = (Inr env, (put_session p (advanced W ck 1 s) c, r'))"
    "sent_as W ck s 0 (t, Inr env)"
proof -
  obtain x r' where x: "encrypt_seal W (spec_store False) p t s (c, r) = (Inr x, (c, r'))" "half_of W ck s t x"
    by (rule seal_half [OF assms(1,2)])
  have "0 \<le> sendCount s" using assms(2) by (simp add: sendable_def sending_def)
  then obtain e where e: "encrypt_store (spec_store False) p x (c, r') = (e, (put_session p (advanced W ck 1 s) c, r'))"
    "sent_as W ck s 0 (t, e)"
    using store_half [OF x(2)] by metis
  then obtain env where "e = Inr env" by (auto simp: sent_as_def)
  with e x(1) assms(3) show thesis
    by (intro that) (simp_all add: encrypt_phases bindE_def encrypt_load_def spec_store_simps)
qed

lemma sendable_received:
  "s' = s\<lparr>skipped := skipped s', recvChainKey := recvChainKey s', recvCount := recvCount s'\<rparr> \<Longrightarrow> sendable W ck s \<Longrightarrow>
    sendable W ck s' \<and> sent_as W ck s' n m = sent_as W ck s n m"
  by (erule ssubst) (simp add: sendable_def sending_def sent_as_def)

text \<open>a message that is sent while another one is received. When a call of encrypt runs between the first and the second
  phase of a call of decrypt for the same peer, both return what they should, but what encrypt stored is
  overwritten: the next message that is encrypted for the peer carries the same number as the first one and
  is sealed under the same key.\<close>

theorem sending_while_receiving_repeats_key:
  assumes "subtle_laws W" and "idb_ok d" and "kc_sessions (idb_view d) p = Some s"
    and "sendable W ck s" and "awaiting W (their_key D) (chain D) (todo D) s" and "start D = recvCount s" and "planned W D e"
  shows "\<exists>env env' w. sent_while_receiving W IndexedDbKeyStore p t e (d, r) = (Inr (env, said D e), w) \<and>
    fst (encrypt W IndexedDbKeyStore p t' w) = Inr env' \<and> sent_as W ck s 0 (t, Inr env) \<and> sent_as W ck s 0 (t', Inr env')"
proof -
  note laws = subtle_key_laws [OF assms(1)]
  let ?c = "idb_view d" and ?T = "todo D - {num D e}"
  obtain v where v: "payload_of e = Inr (wire_json v)" "decrypt_load W (spec_store False) p e (?c, r) = (Inr (v, s), (?c, r))"
    by (rule load_planned [OF assms(7,3)])
  obtain env r1 where env: "encrypt W (spec_store False) p t (?c, r) = (Inr env, (put_session p (advanced W ck 1 s) ?c, r1))"
    "sent_as W ck s 0 (t, Inr env)"
    by (rule encrypt_sendable [OF laws assms(4,3)])
  have "insert (num D e) ?T = todo D" using assms(7) by (auto simp: planned_def)
  then have "read_inv W D ?T (Opened p e (v, s))"
    using assms(5-7) v(1) by (auto simp: reads_all_def)
  then obtain k u where u: "decrypt_derive W (spec_store False) p (v, s) (put_session p (advanced W ck 1 s) ?c, r1) =
      (Inr (v, k, u), (put_session p (advanced W ck 1 s) ?c, r1))" "read_inv W D ?T (Derived p e (v, k, u))"
      "u = s\<lparr>skipped := skipped u, recvChainKey := recvChainKey u, recvCount := recvCount u\<rparr>"
    using derive_planned_full [OF laws] by metis
  let ?c' = "put_session p u (put_session p (advanced W ck 1 s) ?c)"
  have run: "sent_while_receiving W (spec_store False) p t e (?c, r) = (Inr (env, said D e), (?c', r1))"
    using v(2) env(1) u(1) store_planned [OF u(2)] by (simp add: sent_while_receiving_def bindE_def)
  have "sendable W ck u" "sent_as W ck u 0 = sent_as W ck s 0"
    using sendable_received [OF u(3) assms(4)] by auto
  then obtain env' r2 where env': "encrypt W (spec_store False) p t' (?c', r1) = (Inr env', (put_session p (advanced W ck 1 u) ?c', r2))"
    "sent_as W ck s 0 (t', Inr env')"
    using encrypt_sendable [OF laws, of ck u ?c' p t' r1] by auto
  obtain d' where d': "sent_while_receiving W IndexedDbKeyStore p t e (d, r) = (Inr (env, said D e), (d', r1))" "idb_ok d'" "idb_view d' = ?c'"
    by (rule lift_phase [OF indexed_db.sent_while_receiving_refines assms(2) run])
  obtain d2 where "encrypt W IndexedDbKeyStore p t' (d', r1) = (Inr env', (d2, r2))"
    by (rule lift_phase [OF indexed_db.encrypt_refines d'(2)]) (use d'(3) env'(1) in auto)
  with d'(1) env(2) env'(2) show ?thesis by (metis fst_conv)
qed

section \<open>Two envelopes of Alice\<close>

lemma carries_number:
  "carries W rk ck pn n (e, t) \<Longrightarrow> carries W rk' ck' pn' n' (e, t') \<Longrightarrow> n = n'"
  unfolding carries_def by (metis fst_conv sum.inject(2) to_wire_json(1))

lemma demo_two_envelopes:
  obtains e f where "carries demo_crypto (demo_pub 12) demo_ck 0 0 (e, js ''a'')"
    "carries demo_crypto (demo_pub 12) demo_ck 0 1 (f, js ''b'')" "e \<noteq> f"
proof -
  let ?s = "demo_session\<lparr>ourRatchetPublic := demo_pub 12, ourRatchetPrivate := demo_priv 12\<rparr>"
  let ?t = "?s\<lparr>sendChainKey := Some (chain_key demo_crypto demo_ck 1), sendCount := 1\<rparr>"
  let ?c = "\<lambda>s. demo_contents\<lparr>kc_sessions := [js ''bob'' \<mapsto> s]\<rparr>"
  have s: "sending demo_crypto demo_ck ?s" "sending demo_crypto demo_ck ?t"
    using demo_key32 by (simp_all add: sending_def demo_session_def)
  have kp: "dh_keypair demo_crypto (ourRatchetPublic ?s) (demo_priv 12)" "dh_keypair demo_crypto (ourRatchetPublic ?t) (demo_priv 12)"
    using demo_keypair by simp_all
  have start: "sendCount ?s = 0" "prevSendCount ?s = 0" "prevSendCount ?t = 0" "pendingPreKeyMsg ?s = None" "pendingPreKeyMsg ?t = None"
    by (simp_all add: demo_session_def)
  obtain e where e: "carries demo_crypto (ourRatchetPublic ?s) demo_ck (prevSendCount ?s) (sendCount ?s) (e, js ''a'')"
    by (rule encrypt_carries [OF demo_key_laws s(1) kp(1) start(4) _ encodable_js, where c = "?c ?s" and p = "js ''bob''"]) simp_all
  obtain f where f: "carries demo_crypto (ourRatchetPublic ?t) demo_ck (prevSendCount ?t) (sendCount ?t) (f, js ''b'')"
    by (rule encrypt_carries [OF demo_key_laws s(2) kp(2) start(5) _ encodable_js, where c = "?c ?t" and p = "js ''bob''"]) simp_all
  have c: "carries demo_crypto (demo_pub 12) demo_ck 0 0 (e, js ''a'')" "carries demo_crypto (demo_pub 12) demo_ck 0 1 (f, js ''b'')"
    using e f start by simp_all
  moreover have "e \<noteq> f" using carries_number [OF c(1)] c(2) by fastforce
  ultimately show thesis by (rule that)
qed

theorem overlapping_decrypts_deliver_witness:
  "\<exists>Q e f. runs read_enabled (read_handle demo_crypto IndexedDbKeyStore) (idle_reads (disk_of demo_talking, 20 :: nat))
      (two_reads (js ''alice'') e f) Q \<and> e \<noteq> f \<and> length (texts Q) = 2 \<and>
    list_all (\<lambda>(q, g, x). x = Inr (if g = e then js ''a'' else js ''b'')) (texts Q)"
proof -
  let ?p = "js ''alice''"
  obtain e f where ef: "carries demo_crypto (demo_pub 12) demo_ck 0 0 (e, js ''a'')"
    "carries demo_crypto (demo_pub 12) demo_ck 0 1 (f, js ''b'')" "e \<noteq> f"
    by (rule demo_two_envelopes)
  let ?D = "\<lparr>their_key = demo_pub 12, chain = demo_ck, todo = {0..}, start = 0, num = \<lambda>g. if g = e then 0 else 1,
    said = \<lambda>g. if g = e then js ''a'' else js ''b''\<rparr>"
  have pl: "planned demo_crypto ?D e" "planned demo_crypto ?D f" "num ?D e \<noteq> num ?D f"
    using ef by (auto simp: planned_def MAX_SKIP_def)
  have s: "kc_sessions (idb_view (disk_of demo_talking)) ?p = Some demo_session" by (simp add: demo_talking_def)
  have a: "awaiting demo_crypto (their_key ?D) (chain ?D) (todo ?D) demo_session" "start ?D = recvCount demo_session"
    using demo_awaiting by (simp_all add: demo_session_def)
  obtain Q where Q: "runs read_enabled (read_handle demo_crypto IndexedDbKeyStore) (idle_reads (disk_of demo_talking, 20 :: nat)) (two_reads ?p e f) Q"
    "arrived Q = [(?p, e), (?p, f)]" "map fst (texts Q) = [?p, ?p]"
    using overlapping_decrypts_forget [OF demo_laws disk_of(1) s a pl, of "20 :: nat"] by auto
  have "as_planned demo_crypto ?D ?p (arrived Q)"
    using pl Q(2) ef(3) by (auto simp: as_planned_def numbers_def)
  from overlapping_decrypts_deliver [OF demo_laws disk_of(1) s a Q(1) this]
  have "\<forall>g x. (?p, g, x) \<in> set (texts Q) \<longrightarrow> x = Inr (said ?D g)" by blast
  moreover have "length (texts Q) = 2" "\<forall>z \<in> set (texts Q). fst z = ?p"
    using Q(3) by (auto dest: arg_cong [where f = length] arg_cong [where f = set])
  ultimately have "list_all (\<lambda>(q, g, x). x = Inr (if g = e then js ''a'' else js ''b'')) (texts Q)" "length (texts Q) = 2"
    by (auto simp: list_all_iff)
  with Q(1) ef(3) show ?thesis by blast
qed

theorem sending_while_receiving_repeats_key_witness:
  "\<exists>e env env' w. sent_while_receiving demo_crypto IndexedDbKeyStore (js ''alice'') (js ''x'') e (disk_of demo_talking, 20 :: nat) =
      (Inr (env, js ''a''), w) \<and>
    fst (encrypt demo_crypto IndexedDbKeyStore (js ''alice'') (js ''y'') w) = Inr env' \<and>
    sent_as demo_crypto demo_ck demo_session 0 (js ''x'', Inr env) \<and> sent_as demo_crypto demo_ck demo_session 0 (js ''y'', Inr env')"
proof -
  obtain e f where e: "carries demo_crypto (demo_pub 12) demo_ck 0 0 (e, js ''a'')"
    by (rule demo_two_envelopes)
  let ?D = "\<lparr>their_key = demo_pub 12, chain = demo_ck, todo = {0..}, start = 0, num = \<lambda>g. 0, said = \<lambda>g. js ''a''\<rparr>"
  have pl: "planned demo_crypto ?D e" using e by (auto simp: planned_def MAX_SKIP_def)
  have s: "kc_sessions (idb_view (disk_of demo_talking)) (js ''alice'') = Some demo_session" by (simp add: demo_talking_def)
  have a: "awaiting demo_crypto (their_key ?D) (chain ?D) (todo ?D) demo_session" "start ?D = recvCount demo_session"
    using demo_awaiting by (simp_all add: demo_session_def)
  have snd: "sendable demo_crypto demo_ck demo_session"
    using demo_sending demo_keypair by (simp add: sendable_def) (simp add: demo_session_def)
  have "said ?D e = js ''a''" by simp
  then show ?thesis
    using sending_while_receiving_repeats_key [OF demo_laws disk_of(1) s snd a pl, of "js ''x''" "20 :: nat" "js ''y''"]
    by metis
qed

end
