(* ===== verification/CryptoProperties.thy ===== *)
theory CryptoProperties
  imports DemoSession
begin

text \<open>
  What crypto.ts and keystore.ts guarantee on their own: X3DH agrees, published signed pre-keys
  verify, the ranges and formats of registration ids and safety numbers, encodings that invert each
  other, and the behaviour of the IndexedDB store when the browser refuses.
\<close>

section \<open>Key agreement and signatures\<close>

text \<open>C4: X3DH agrees: for identity, ephemeral and pre-keys that generateDHKeyPair made, with or without a
  one-time pre-key, the initiator and the responder compute the same 32-byte secret.\<close>

theorem x3dh_agrees:
  assumes "subtle_laws W" and "dh_keypair W ikA ikA'" and "dh_keypair W ekA ekA'"
    and "dh_keypair W ikB ikB'" and "dh_keypair W spkB spkB'"
    and "rel_option (\<lambda>pub priv. dh_keypair W pub priv) opkB opkB'"
  shows "\<exists>sk. x3dh W ikA' ekA' ikB spkB opkB = Inr sk \<and> x3dhRespond W ikB' spkB' opkB' ikA ekA = Inr sk \<and> length sk = 32"
proof -
  have "jwk_law W" "ecdh_law W" "hkdf_law W" using assms(1) by (simp_all add: subtle_laws_def)
  from x3dh_shared [OF this assms(2-6)] show ?thesis by blast
qed

theorem x3dh_agrees_witness:
  "\<exists>sk. x3dh demo_crypto (demo_priv 1) (demo_priv 10) (demo_pub 2) (demo_pub 3) (Some (demo_pub 4)) = Inr sk \<and>
     x3dhRespond demo_crypto (demo_priv 2) (demo_priv 3) (Some (demo_priv 4)) (demo_pub 1) (demo_pub 10) = Inr sk"
  using x3dh_agrees [OF demo_laws demo_keypair demo_keypair demo_keypair demo_keypair,
      of "Some (demo_pub 4)" "Some (demo_priv 4)" 1 10 2 3]
  by (auto simp: demo_keypair)

text \<open>A signed pre-key made under an identity key pair verifies under the public half of that pair, so a
  bundle built from generated keys is never refused by initSessionFromBundle.\<close>

theorem generated_signed_prekey_verifies:
  assumes "subtle_laws W" and "generateIdentityKeyPair W r = (Inr ik, r1)"
    and "generateSignedPreKeyPair W i (ik_privateKey ik) r' = (Inr spk, r2)"
  shows "verifyPreKey W (ik_publicKey ik) (pk_publicKey spk) (spk_signature spk) \<and> pk_id spk = i \<and>
     dh_keypair W (ik_publicKey ik) (ik_privateKey ik) \<and> dh_keypair W (pk_publicKey spk) (pk_privateKey spk)"
proof -
  have laws: "jwk_law W" "ecdsa_law W" using assms(1) by (simp_all add: subtle_laws_def)
  have ik: "ik_publicKey ik = bufToBase64 (rawOf W r)" "ik_privateKey ik = json_stringify (jwkOf W r)"
    using assms(2) by (auto simp: generateIdentityKeyPair_def bindE_def generateDHKeyPair_eq)
  obtain S V where S: "importJwk W ECDSA_P256 (jwkOf W r) = Inr S" "importRaw W ECDSA_P256 (rawOf W r) = Inr V"
    "\<forall>data r'. verifyECDSA W V (fst (signECDSA W S data r')) data"
    using laws(2) unfolding ecdsa_law_def by blast
  have imp: "importSigningPrivate W (ik_privateKey ik) = Inr S"
    using laws(1) S(1) by (simp add: importSigningPrivate_def ik(2) json_roundtrip jwk_law_def)
  obtain sig r3 where sig: "signECDSA W S (rawOf W r') (snd (generateKey W r')) = (sig, r3)" by fastforce
  have spk: "spk = \<lparr>pk_id = i, pk_publicKey = bufToBase64 (rawOf W r'), pk_privateKey = json_stringify (jwkOf W r'),
      spk_signature = bufToBase64 sig\<rparr>"
    using assms(3) sig imp
    by (simp add: generateSignedPreKeyPair_def bindE_def generateDHKeyPair_eq signPreKey_def)
  have "verifyECDSA W V sig (rawOf W r')" using S(3) sig by (metis fst_conv)
  then have "verifyPreKey W (ik_publicKey ik) (pk_publicKey spk) (spk_signature spk)"
    using S(2) by (simp add: verifyPreKey_def importVerifyPublic_def ik(1) spk)
  then show ?thesis
    using generated_dh_keypair [of W r] generated_dh_keypair [of W r'] by (simp add: ik spk)
qed

theorem generated_signed_prekey_verifies_witness:
  "\<exists>ik spk. fst (generateIdentityKeyPair demo_crypto 2) = Inr ik \<and>
     fst (generateSignedPreKeyPair demo_crypto 7 (ik_privateKey ik) 3) = Inr spk \<and>
     verifyPreKey demo_crypto (ik_publicKey ik) (pk_publicKey spk) (spk_signature spk)"
proof -
  obtain ik r1 where ik: "generateIdentityKeyPair demo_crypto 2 = (Inr ik, r1)" "ik_privateKey ik = demo_priv 2"
    by (auto simp: generateIdentityKeyPair_def bindE_def generateDHKeyPair_eq demo_priv_def)
  have "importSigningPrivate demo_crypto (demo_priv 2) = Inr (replicate 32 2)"
    using demo_laws demo_import_jwk [of ECDSA_P256 2]
    by (simp add: importSigningPrivate_def demo_priv_def json_roundtrip subtle_laws_def jwk_law_def)
  moreover have sign: "signECDSA demo_crypto k d r = (k @ d, r)" for k d r by (simp add: demo_crypto_def)
  ultimately obtain spk r2 where spk: "generateSignedPreKeyPair demo_crypto 7 (ik_privateKey ik) 3 = (Inr spk, r2)"
    using ik(2) by (auto simp: generateSignedPreKeyPair_def bindE_def generateDHKeyPair_eq signPreKey_def
      split: prod.splits)
  from generated_signed_prekey_verifies [OF demo_laws ik(1) spk] ik(1) spk show ?thesis by force
qed

section \<open>Registration ids and safety numbers\<close>

text \<open>newRegistrationId never throws and its id lies between 1 and 16384, both included: 0x3FFF is
  masked to fourteen bits before the one is added.\<close>

theorem registration_id_range:
  "\<exists>i. fst (newRegistrationId W r) = Inr i \<and> 1 \<le> i \<and> i \<le> 16384 \<and>
     i = uint (fst (randomU16 W r)) mod 16384 + 1"
proof -
  obtain b r' where b: "randomU16 W r = (b, r')" by fastforce
  have "b AND 0x3FFF = take_bit 14 b" by (simp add: take_bit_eq_mask mask_eq_exp_minus_1)
  then have "uint (b AND 0x3FFF) = uint b mod 2 ^ 14"
    by (simp add: unsigned_take_bit_eq take_bit_eq_mod uint_mod)
  then show ?thesis using b by (simp add: newRegistrationId_def)
qed

lemma js_less_antisym: "a \<noteq> b \<Longrightarrow> js_less a b \<longleftrightarrow> \<not> js_less b a"
proof (induction a arbitrary: b)
  case Nil
  then show ?case by (cases b) simp_all
next
  case (Cons c a)
  then show ?case by (cases b) auto
qed

text \<open>C27: A safety number does not depend on which side computes it: two parties with different Winkd ids
  get the same digits, or the same error for a key that is not base64.\<close>

theorem safety_number_symmetric:
  assumes "idA \<noteq> idB"
  shows "computeSafetyNumber W idA keyA idB keyB = computeSafetyNumber W idB keyB idA keyA"
  using js_less_antisym [OF assms] by (auto simp: computeSafetyNumber_def)

theorem safety_number_symmetric_witness:
  "computeSafetyNumber demo_crypto (js ''alice'') (demo_pub 1) (js ''bob'') (demo_pub 2) =
   computeSafetyNumber demo_crypto (js ''bob'') (demo_pub 2) (js ''alice'') (demo_pub 1)"
  by (rule safety_number_symmetric) simp

lemma length_nat_digits: "n < 10 ^ k \<Longrightarrow> 0 < k \<Longrightarrow> length (nat_digits n) \<le> k"
proof (induction k arbitrary: n)
  case (Suc k)
  show ?case
  proof (cases "n < 10")
    case False
    then have "n div 10 < 10 ^ k" "0 < k" using Suc.prems(1) by (auto simp: less_mult_imp_div_less intro: Suc_leI gr0I)
    with Suc.IH False show ?thesis by (subst nat_digits.simps) simp
  qed (subst nat_digits.simps, simp)
qed simp

lemma five_digits:
  "length (pad_start 5 48 (nat_digits (n mod 100000))) = 5"
  "\<forall>c \<in> set (pad_start 5 48 (nat_digits (n mod 100000))). is_digit c"
proof -
  have "length (nat_digits (n mod 100000)) \<le> 5" by (rule length_nat_digits) simp_all
  then show "length (pad_start 5 48 (nat_digits (n mod 100000))) = 5" by (simp add: pad_start_def)
  show "\<forall>c \<in> set (pad_start 5 48 (nat_digits (n mod 100000))). is_digit c"
    using nat_digits_are_digits by (auto simp: pad_start_def is_digit_def)
qed

text \<open>C28: A safety number is twelve groups of exactly five decimal digits, leading zeros kept, separated by
  single spaces.\<close>

theorem safety_number_format:
  assumes "computeSafetyNumber W idA keyA idB keyB = Inr s"
  shows "\<exists>groups. s = join 32 groups \<and> length groups = 12 \<and>
     (\<forall>g \<in> set groups. length g = 5 \<and> (\<forall>c \<in> set g. is_digit c))"
proof -
  obtain hash where "s = join 32 (map (\<lambda>i. pad_start 5 48 (nat_digits (fold5 hash (i * 5)))) [0..<12])"
    using assms by (auto simp: computeSafetyNumber_def bindR_eq_Inr Let_def split: if_splits)
  moreover have "length (pad_start 5 48 (nat_digits (fold5 hash j))) = 5 \<and>
      (\<forall>c \<in> set (pad_start 5 48 (nat_digits (fold5 hash j))). is_digit c)" for j
    using five_digits by (simp add: fold5_def Let_def)
  ultimately show ?thesis
    by (intro exI [of _ "map (\<lambda>i. pad_start 5 48 (nat_digits (fold5 hash (i * 5)))) [0..<12]"]) auto
qed

theorem safety_number_format_witness:
  "\<exists>s groups. computeSafetyNumber demo_crypto (js ''alice'') (demo_pub 1) (js ''bob'') (demo_pub 2) = Inr s \<and>
     s = join 32 groups \<and> length groups = 12"
proof -
  obtain s where "computeSafetyNumber demo_crypto (js ''alice'') (demo_pub 1) (js ''bob'') (demo_pub 2) = Inr s"
    by (cases "js_less (js ''alice'') (js ''bob'')") (auto simp: computeSafetyNumber_def demo_pub_def)
  from safety_number_format [OF this] this show ?thesis by blast
qed

section \<open>Encodings\<close>

text \<open>Keys and messages survive the encodings they are stored and sent in: base64ToBuf inverts
  bufToBase64, hexToBuf inverts bufToHex, and concatBufs keeps every byte of its arguments in order.\<close>

theorem encodings_invert:
  "base64ToBuf (bufToBase64 buf) = Inr buf \<and> hexToBuf (bufToHex buf) = buf \<and>
   length (bufToHex buf) = 2 * length buf \<and> concatBufs [buf, buf'] = buf @ buf'"
  by (simp add: concatBufs_concat)

section \<open>IndexedDB\<close>

text \<open>When the browser refuses to open the database, every method of the IndexedDB store throws that
  error, the disk is untouched and no connection is cached, so the next call tries again; when a
  request fails, the method throws its error and the object stores are untouched.\<close>

theorem indexed_db_errors:
  assumes "db_cached d = False"
  shows "(open_error d = Some e \<longrightarrow>
      storeSession IndexedDbKeyStore p s d = (Inl (DOMExc e), d) \<and> loadSession IndexedDbKeyStore p d = (Inl (DOMExc e), d) \<and>
      removePreKey IndexedDbKeyStore i d = (Inl (DOMExc e), d) \<and>
      fst (loadSession IndexedDbKeyStore p (d\<lparr>open_error := None, request_error := None\<rparr>)) = Inr (kc_sessions (idb_view d) p)) \<and>
    (open_error d = None \<and> request_error d = Some e \<longrightarrow>
      (\<exists>d'. storeSession IndexedDbKeyStore p s d = (Inl (DOMExc e), d') \<and> idb_view d' = idb_view d \<and> db_cached d'))"
  using assms
  by (auto simp: IndexedDbKeyStore_def idbGet_def idbPut_def idbDelete_def idbRequest_def openDB_def bindE_def
    idb_view_def stores_of_def Let_def)

theorem indexed_db_errors_witness:
  "storeSession IndexedDbKeyStore (js ''bob'') demo_session ((disk_of demo_alice)\<lparr>open_error := Some ''UnknownError''\<rparr>) =
     (Inl (DOMExc ''UnknownError''), (disk_of demo_alice)\<lparr>open_error := Some ''UnknownError''\<rparr>)"
proof -
  have "db_cached ((disk_of demo_alice)\<lparr>open_error := Some ''UnknownError''\<rparr>) = False"
    "open_error ((disk_of demo_alice)\<lparr>open_error := Some ''UnknownError''\<rparr>) = Some ''UnknownError''"
    by (simp_all add: disk_of_def)
  from indexed_db_errors [OF this(1), of "''UnknownError''" "js ''bob''" demo_session 0] this(2) show ?thesis by simp
qed

text \<open>What an IndexedDB store was given is what it returns, for the same peer and no other, across the
  page being reloaded (the cached connection lost) in between.\<close>

theorem stored_session_survives_reload:
  assumes "idb_ok d" and "open_error d = None"
  shows "\<exists>d'. storeSession IndexedDbKeyStore p s d = (Inr (), d') \<and>
     fst (loadSession IndexedDbKeyStore q (d'\<lparr>db_cached := False\<rparr>)) =
       Inr (if q = p then Some s else kc_sessions (idb_view d) q)"
  using assms
  by (auto simp: IndexedDbKeyStore_def idbGet_def idbPut_def idbRequest_def openDB_def bindE_def idb_ok_def
    idb_view_def stores_of_def Let_def split: option.splits)

theorem stored_session_survives_reload_witness:
  "\<exists>d'. storeSession IndexedDbKeyStore (js ''bob'') demo_session (disk_of demo_alice) = (Inr (), d') \<and>
     fst (loadSession IndexedDbKeyStore (js ''bob'') (d'\<lparr>db_cached := False\<rparr>)) = Inr (Some demo_session)"
  using stored_session_survives_reload [OF disk_of(1), of demo_alice "js ''bob''" demo_session "js ''bob''"]
  by (simp add: disk_of_def)

end
