(* ===== verification/WinkdTypes.thy ===== *)
theory WinkdTypes
  imports Json
begin

text \<open>
  packages/types/src: the data the client, the stores and the socket hook share (user.ts,
  contact.ts, message.ts, session.ts). A string union is a datatype with one constructor per
  literal; its last constructor is a string outside the union, which the unchecked casts of the
  socket hook let in. An optional property is \<open>Absent\<close>, present with the value undefined (\<open>Undef\<close>)
  or present with a value: object spread tells the first two apart.
\<close>

section \<open>user.ts\<close>

datatype UserStatus = Online | Away | Busy | Invisible | OtherStatus jstr

definition status_of :: "jstr \<Rightarrow> UserStatus" where
  "status_of s = (if s = js ''online'' then Online else if s = js ''away'' then Away
     else if s = js ''busy'' then Busy else if s = js ''invisible'' then Invisible else OtherStatus s)"

record UserProfile =
  winkdId :: jstr
  displayName :: jstr
  moodMessage :: jstr
  status :: UserStatus
  avatarData :: "jstr option"

record OwnProfile = UserProfile +
  sessionToken :: jstr

section \<open>contact.ts\<close>

datatype ContactRequestStatus = PendingOutbound | PendingInbound | Accepted | Blocked | OtherRequest jstr

definition request_of :: "jstr \<Rightarrow> ContactRequestStatus" where
  "request_of s = (if s = js ''pending_outbound'' then PendingOutbound
     else if s = js ''pending_inbound'' then PendingInbound else if s = js ''accepted'' then Accepted
     else if s = js ''blocked'' then Blocked else OtherRequest s)"

record Contact = UserProfile +
  contact_id :: jstr
  requestStatus :: ContactRequestStatus
  unreadCount :: int
  lastMessageAt :: "jstr option"

record GroupedContacts =
  g_online :: "Contact list"
  g_away :: "Contact list"
  g_busy :: "Contact list"
  g_offline :: "Contact list"

section \<open>message.ts\<close>

datatype MessageType = TText | TWinkd | TNudge | TWink | TEmoticon | TSystem | OtherType jstr

definition type_of_message :: "jstr \<Rightarrow> MessageType" where
  "type_of_message s = (if s = js ''text'' then TText else if s = js ''winkd'' then TWinkd
     else if s = js ''nudge'' then TNudge else if s = js ''wink'' then TWink
     else if s = js ''emoticon'' then TEmoticon else if s = js ''system'' then TSystem else OtherType s)"

datatype 'a js_prop = Absent | Undef | Val 'a

text \<open>
  The union Message as one object: the properties of BaseMessage and those its members add. A size is
  a JSON number.
\<close>

record Message =
  msg_id :: jstr
  conversationId :: jstr
  senderId :: jstr
  msg_type :: MessageType
  sentAt :: jstr
  delivered :: bool
  msg_read :: bool
  m_body :: "jstr js_prop"
  mediaData :: "jstr js_prop"
  mediaUrl :: "jstr js_prop"
  mediaName :: "jstr js_prop"
  mediaMime :: "jstr js_prop"
  mediaSize :: "json js_prop"
  packId :: "jstr js_prop"
  animationId :: "jstr js_prop"

text \<open>Object spread \<open>{ ...m, ...message }\<close>: a present property of the second object wins.\<close>

definition spread_prop :: "'a js_prop \<Rightarrow> 'a js_prop \<Rightarrow> 'a js_prop" where
  "spread_prop a b = (case b of Absent \<Rightarrow> a | _ \<Rightarrow> b)"

definition spread_message :: "Message \<Rightarrow> Message \<Rightarrow> Message" where
  "spread_message m n = n\<lparr>
     m_body := spread_prop (m_body m) (m_body n),
     mediaData := spread_prop (mediaData m) (mediaData n),
     mediaUrl := spread_prop (mediaUrl m) (mediaUrl n),
     mediaName := spread_prop (mediaName m) (mediaName n),
     mediaMime := spread_prop (mediaMime m) (mediaMime n),
     mediaSize := spread_prop (mediaSize m) (mediaSize n),
     packId := spread_prop (packId m) (packId n),
     animationId := spread_prop (animationId m) (animationId n)\<rparr>"

lemma spread_message_id [simp]: "msg_id (spread_message m n) = msg_id n"
  by (simp add: spread_message_def)

section \<open>session.ts\<close>

datatype ServerEventType = EvMessage | EvPresenceUpdate | EvContactRequest | EvContactAccepted
  | EvWinkdReceived | EvNudgeReceived | EvTypingStart | EvTypingStop | EvDeliveryReceipt | EvReadReceipt

datatype ClientCommandType = CmdSendMessage | CmdSetStatus | CmdSetMood | CmdSetDisplayName | CmdAddContact
  | CmdAcceptContact | CmdBlockContact | CmdSendWinkd | CmdSendNudge | CmdSendWink | CmdTypingStart | CmdTypingStop

definition event_name :: "ServerEventType \<Rightarrow> jstr" where
  "event_name e = js (case e of EvMessage \<Rightarrow> ''message'' | EvPresenceUpdate \<Rightarrow> ''presence_update''
     | EvContactRequest \<Rightarrow> ''contact_request'' | EvContactAccepted \<Rightarrow> ''contact_accepted''
     | EvWinkdReceived \<Rightarrow> ''winkd_received'' | EvNudgeReceived \<Rightarrow> ''nudge_received''
     | EvTypingStart \<Rightarrow> ''typing_start'' | EvTypingStop \<Rightarrow> ''typing_stop''
     | EvDeliveryReceipt \<Rightarrow> ''delivery_receipt'' | EvReadReceipt \<Rightarrow> ''read_receipt'')"

definition command_name :: "ClientCommandType \<Rightarrow> jstr" where
  "command_name c = js (case c of CmdSendMessage \<Rightarrow> ''send_message'' | CmdSetStatus \<Rightarrow> ''set_status''
     | CmdSetMood \<Rightarrow> ''set_mood'' | CmdSetDisplayName \<Rightarrow> ''set_display_name'' | CmdAddContact \<Rightarrow> ''add_contact''
     | CmdAcceptContact \<Rightarrow> ''accept_contact'' | CmdBlockContact \<Rightarrow> ''block_contact''
     | CmdSendWinkd \<Rightarrow> ''send_winkd'' | CmdSendNudge \<Rightarrow> ''send_nudge'' | CmdSendWink \<Rightarrow> ''send_wink''
     | CmdTypingStart \<Rightarrow> ''typing_start'' | CmdTypingStop \<Rightarrow> ''typing_stop'')"

lemma event_name_inject [simp]: "event_name e = event_name e' \<longleftrightarrow> e = e'"
  by (cases e; cases e') (simp_all add: event_name_def)

section \<open>Objects with string keys\<close>

text \<open>
  \<open>Record<string, 'v>\<close>, in the order its keys were added (keys that are array indices, which JavaScript
  moves to the front, do not occur). \<open>{ ...o, [k]: v }\<close> replaces in place or appends.
\<close>

type_synonym 'v obj = "(jstr \<times> 'v) list"

definition obj_set :: "jstr \<Rightarrow> 'v \<Rightarrow> 'v obj \<Rightarrow> 'v obj" where
  "obj_set k v o' = (if k \<in> fst ` set o' then map (\<lambda>p. if fst p = k then (k, v) else p) o' else o' @ [(k, v)])"

definition obj_delete :: "jstr \<Rightarrow> 'v obj \<Rightarrow> 'v obj" where
  "obj_delete k o' = filter (\<lambda>(k', _). k' \<noteq> k) o'"

lemma map_of_obj_set [simp]: "map_of (obj_set k v o') = (map_of o')(k \<mapsto> v)"
proof -
  have "map_of (map (\<lambda>p. if fst p = k then (k, v) else p) o') x =
      (if x = k \<and> k \<in> fst ` set o' then Some v else map_of o' x)" for x
    by (induction o') (auto split: if_splits)
  moreover have "map_of (o' @ [(k, v)]) x = ((map_of o')(k \<mapsto> v)) x" if "k \<notin> fst ` set o'" for x
  proof (cases "x = k")
    case True
    with that have "map_of o' x = None" by (simp add: map_of_eq_None_iff)
    with True show ?thesis by (simp add: map_add_def)
  qed (simp add: map_add_def split: option.split)
  ultimately show ?thesis by (auto simp: obj_set_def fun_eq_iff)
qed

lemma map_of_obj_delete [simp]: "map_of (obj_delete k o') = (map_of o')(k := None)"
  by (induction o') (auto simp: obj_delete_def fun_eq_iff)

lemma keys_obj_set: "map fst (obj_set k v o') = (if k \<in> fst ` set o' then map fst o' else map fst o' @ [k])"
  by (auto simp: obj_set_def)

lemma distinct_obj [intro]:
  "distinct (map fst o') \<Longrightarrow> distinct (map fst (obj_set k v o'))"
  "distinct (map fst o') \<Longrightarrow> distinct (map fst (obj_delete k o'))"
  by (auto simp: keys_obj_set obj_delete_def distinct_map_filter)

end
