(* ===== verification/WinkdClient.thy ===== *)
theory WinkdClient
  imports WinkdTypes Machines
begin

text \<open>
  packages/core/src/protocol/client.ts: the class WinkdClient as a state machine. The state holds the
  fields of the object and what the browser keeps for it: every WebSocket it ever made (the field
  \<open>ws\<close> is an index into them), the timers that are pending, and logs of the handlers called and of
  the calls of onAuthFailure. Events are the calls of its methods and the browser's callbacks;
  handlers are numbers, and a handler that throws is caught by dispatch, so calling one is logging it.
\<close>

section \<open>State\<close>

datatype readyState = CONNECTING | OPEN | CLOSING | CLOSED

record websocket =
  ready :: readyState
  ws_sent :: "jstr list"

record client =
  ws :: "nat option"
  sockets :: "websocket list"
  handlers :: "jstr \<rightharpoonup> nat list"
  reconnectTimer :: "nat option"
  reconnectDelay :: int
  authenticated :: bool
  onAuthFailure :: bool
  timers :: "(nat \<times> int) list"
  next_timer :: nat
  dispatched :: "(nat \<times> json option) list"
  auth_failures :: nat

definition new_client :: "bool \<Rightarrow> client" where
  "new_client f = \<lparr>ws = None, sockets = [], handlers = Map.empty, reconnectTimer = None,
     reconnectDelay = 1000, authenticated = False, onAuthFailure = f, timers = [], next_timer = 1,
     dispatched = [], auth_failures = 0\<rparr>"

definition ready_at :: "client \<Rightarrow> nat \<Rightarrow> readyState" where
  "ready_at c i = (if i < length (sockets c) then ready (sockets c ! i) else CLOSED)"

definition set_ready :: "nat \<Rightarrow> readyState \<Rightarrow> client \<Rightarrow> client" where
  "set_ready i x c = (if i < length (sockets c)
     then c\<lparr>sockets := (sockets c)[i := (sockets c ! i)\<lparr>ready := x\<rparr>]\<rparr> else c)"

text \<open>\<open>WebSocket.send\<close>: throws while connecting, transmits when open, drops the data afterwards.\<close>

definition ws_send :: "nat \<Rightarrow> jstr \<Rightarrow> client \<Rightarrow> client" where
  "ws_send i data c = (if ready_at c i = OPEN
     then c\<lparr>sockets := (sockets c)[i := (sockets c ! i)\<lparr>ws_sent := ws_sent (sockets c ! i) @ [data]\<rparr>]\<rparr> else c)"

section \<open>Methods\<close>

definition auth_frame :: "jstr \<Rightarrow> jstr" where
  "auth_frame token = json_stringify (JObj [(js ''type'', JStr (js ''auth'')), (js ''token'', JStr token)])"

definition command_frame :: "ClientCommandType \<Rightarrow> json \<Rightarrow> jstr" where
  "command_frame command payload =
     json_stringify (JObj [(js ''command'', JStr (command_name command)), (js ''payload'', payload)])"

definition is_open :: "client \<Rightarrow> bool" where
  "is_open c \<longleftrightarrow> (case ws c of None \<Rightarrow> False | Some i \<Rightarrow> ready_at c i = OPEN)"

definition connect :: "client \<Rightarrow> client" where
  "connect c = (if is_open c then c
     else c\<lparr>sockets := sockets c @ [\<lparr>ready = CONNECTING, ws_sent = []\<rparr>], ws := Some (length (sockets c)),
       authenticated := False\<rparr>)"

definition scheduleReconnect :: "client \<Rightarrow> client" where
  "scheduleReconnect c = c\<lparr>timers := timers c @ [(next_timer c, reconnectDelay c)],
     reconnectTimer := Some (next_timer c), next_timer := next_timer c + 1\<rparr>"

definition reconnect_fires :: "nat \<Rightarrow> client \<Rightarrow> client" where
  "reconnect_fires k c = connect (c\<lparr>timers := filter (\<lambda>(j, _). j \<noteq> k) (timers c),
     reconnectDelay := min (reconnectDelay c * 2) 30000\<rparr>)"

definition disconnect :: "client \<Rightarrow> client" where
  "disconnect c = (let
     c1 = (case reconnectTimer c of None \<Rightarrow> c | Some t \<Rightarrow> c\<lparr>timers := filter (\<lambda>(j, _). j \<noteq> t) (timers c)\<rparr>);
     c2 = (case ws c1 of None \<Rightarrow> c1 | Some i \<Rightarrow>
       if ready_at c1 i = CONNECTING \<or> ready_at c1 i = OPEN then set_ready i CLOSING c1 else c1)
     in c2\<lparr>ws := None, authenticated := False\<rparr>)"

definition send :: "ClientCommandType \<Rightarrow> json \<Rightarrow> client \<Rightarrow> client" where
  "send command payload c = (if \<not> authenticated c \<or> \<not> is_open c then c
     else ws_send (the (ws c)) (command_frame command payload) c)"

definition on_event :: "ServerEventType \<Rightarrow> nat \<Rightarrow> client \<Rightarrow> client" where
  "on_event event handler c = (let hs = (case handlers c (event_name event) of None \<Rightarrow> [] | Some hs \<Rightarrow> hs) in
     c\<lparr>handlers := (handlers c)(event_name event \<mapsto> (if handler \<in> set hs then hs else hs @ [handler]))\<rparr>)"

definition off_event :: "ServerEventType \<Rightarrow> nat \<Rightarrow> client \<Rightarrow> client" where
  "off_event event handler c = (case handlers c (event_name event) of None \<Rightarrow> c
     | Some hs \<Rightarrow> c\<lparr>handlers := (handlers c)(event_name event \<mapsto> filter (\<lambda>h. h \<noteq> handler) hs)\<rparr>)"

section \<open>Callbacks\<close>

definition dispatch :: "json \<Rightarrow> client \<Rightarrow> client" where
  "dispatch envelope c = (case json_get envelope (js ''event'') of
     Some (JStr event) \<Rightarrow> (case handlers c event of None \<Rightarrow> c
       | Some hs \<Rightarrow> c\<lparr>dispatched := dispatched c @ map (\<lambda>h. (h, json_get envelope (js ''payload''))) hs\<rparr>)
   | _ \<Rightarrow> c)"

definition onopen :: "jstr \<Rightarrow> client \<Rightarrow> client" where
  "onopen token c = (let c1 = c\<lparr>reconnectDelay := 1000\<rparr> in
     case ws c1 of None \<Rightarrow> c1 | Some j \<Rightarrow> ws_send j (auth_frame token) c1)"

definition is_auth_ok :: "json \<Rightarrow> bool" where
  "is_auth_ok envelope \<longleftrightarrow> json_get envelope (js ''type'') = Some (JStr (js ''auth_ok''))"

definition onmessage :: "jstr \<Rightarrow> client \<Rightarrow> client" where
  "onmessage data c = (case json_parse data of
     Inl _ \<Rightarrow> c
   | Inr envelope \<Rightarrow>
       if \<not> authenticated c then (if is_auth_ok envelope then c\<lparr>authenticated := True\<rparr> else c)
       else dispatch envelope c)"

definition onclose :: "int \<Rightarrow> client \<Rightarrow> client" where
  "onclose code c = (let c1 = c\<lparr>authenticated := False\<rparr> in
     if code = 4001 then (if onAuthFailure c1 then c1\<lparr>auth_failures := auth_failures c1 + 1\<rparr> else c1)
     else scheduleReconnect c1)"

section \<open>Runs\<close>

datatype client_event = Connect | Disconnect | Send ClientCommandType json | On ServerEventType nat
  | Off ServerEventType nat | Opened nat | Received nat jstr | Closed nat int | Fire nat

text \<open>What the browser may do: open a socket that is connecting, deliver on an open one, close one that
  is not closed yet, fire a pending timer.\<close>

fun enabled :: "client \<Rightarrow> client_event \<Rightarrow> bool" where
  "enabled c (Opened i) \<longleftrightarrow> ready_at c i = CONNECTING"
| "enabled c (Received i _) \<longleftrightarrow> ready_at c i = OPEN"
| "enabled c (Closed i _) \<longleftrightarrow> ready_at c i \<noteq> CLOSED"
| "enabled c (Fire k) \<longleftrightarrow> k \<in> fst ` set (timers c)"
| "enabled c _ \<longleftrightarrow> True"

fun handle :: "jstr \<Rightarrow> client_event \<Rightarrow> client \<Rightarrow> client" where
  "handle token Connect c = connect c"
| "handle token Disconnect c = disconnect c"
| "handle token (Send cmd p) c = send cmd p c"
| "handle token (On e h) c = on_event e h c"
| "handle token (Off e h) c = off_event e h c"
| "handle token (Opened i) c = onopen token (set_ready i OPEN c)"
| "handle token (Received i d) c = onmessage d c"
| "handle token (Closed i code) c = onclose code (set_ready i CLOSED c)"
| "handle token (Fire k) c = reconnect_fires k c"

abbreviation client_run :: "jstr \<Rightarrow> bool \<Rightarrow> client_event list \<Rightarrow> client \<Rightarrow> bool" where
  "client_run token f \<equiv> runs enabled (handle token) (new_client f)"

abbreviation drive :: "jstr \<Rightarrow> client_event list \<Rightarrow> client \<Rightarrow> client option" where
  "drive token \<equiv> execute enabled (handle token)"

lemmas drive_append = execute_append [of enabled "handle token" for token]
lemmas drive_run = execute_run [of enabled "handle token" for token]
lemmas client_run_drive = runs_execute [of enabled "handle token" for token]

lemmas client_defs = connect_def scheduleReconnect_def reconnect_fires_def disconnect_def send_def on_event_def
  off_event_def dispatch_def onopen_def onmessage_def onclose_def set_ready_def ws_send_def

section \<open>Invariants\<close>

definition delay_ok :: "int \<Rightarrow> bool" where
  "delay_ok d \<longleftrightarrow> 1000 \<le> d \<and> d \<le> 30000"

definition client_inv :: "jstr \<Rightarrow> client \<Rightarrow> bool" where
  "client_inv token c \<longleftrightarrow>
     delay_ok (reconnectDelay c) \<and> (\<forall>t \<in> set (timers c). delay_ok (snd t)) \<and>
     (\<forall>s \<in> set (sockets c). ws_sent s = [] \<or> hd (ws_sent s) = auth_frame token) \<and>
     (\<forall>i. ws c = Some i \<longrightarrow> i < length (sockets c) \<and>
        (ready (sockets c ! i) = OPEN \<longrightarrow> ws_sent (sockets c ! i) \<noteq> []))"

lemma client_inv_new: "client_inv token (new_client f)"
  by (simp add: client_inv_def new_client_def delay_ok_def)

lemma ready_at_OPEN: "ready_at c i = OPEN \<Longrightarrow> i < length (sockets c)"
  by (simp add: ready_at_def split: if_splits)

lemma client_inv_ws_send:
  assumes "client_inv token c" and "ws c = Some i" and "ws_sent (sockets c ! i) \<noteq> [] \<or> d = auth_frame token"
  shows "client_inv token (ws_send i d c)"
proof (cases "ready_at c i = OPEN")
  case True
  then have i: "i < length (sockets c)" by (rule ready_at_OPEN)
  then have "ws_sent (sockets c ! i) = [] \<or> hd (ws_sent (sockets c ! i)) = auth_frame token"
    using assms(1) by (auto simp: client_inv_def)
  with assms i True show ?thesis
    by (auto simp: client_inv_def ws_send_def nth_list_update hd_append split: if_splits
      dest!: set_update_subset_insert [THEN subsetD])
qed (simp add: ws_send_def assms(1))

lemma client_inv_connect: "client_inv token c \<Longrightarrow> client_inv token (connect c)"
  by (auto simp: client_inv_def connect_def nth_append)

lemma client_inv_set_ready:
  "client_inv token c \<Longrightarrow> x \<noteq> OPEN \<Longrightarrow> client_inv token (set_ready i x c)"
  by (auto simp: client_inv_def set_ready_def nth_list_update dest!: set_update_subset_insert [THEN subsetD] split: if_splits)

lemma client_inv_opened:
  assumes "client_inv token c" and "ready_at c i = CONNECTING"
  shows "client_inv token (onopen token (set_ready i OPEN c))"
proof -
  have i: "i < length (sockets c)" using assms(2) by (simp add: ready_at_def split: if_splits)
  let ?c = "(set_ready i OPEN c)\<lparr>reconnectDelay := 1000\<rparr>"
  have base: "delay_ok 1000" by (simp add: delay_ok_def)
  have sent: "\<forall>s \<in> set (sockets ?c). ws_sent s = [] \<or> hd (ws_sent s) = auth_frame token"
    using assms(1) i by (auto simp: client_inv_def set_ready_def dest!: set_update_subset_insert [THEN subsetD])
  show ?thesis
  proof (cases "ws c")
    case None
    with assms(1) sent base show ?thesis
      by (auto simp: onopen_def client_inv_def set_ready_def)
  next
    case (Some j)
    have j: "j < length (sockets c)" using assms(1) Some by (simp add: client_inv_def)
    have len: "length (sockets ?c) = length (sockets c)" "ws ?c = Some j" "timers ?c = timers c"
      using Some by (auto simp: set_ready_def)
    show ?thesis
    proof (cases "ready_at ?c j = OPEN")
      case True
      have "ws_sent (sockets ?c ! j) = [] \<or> hd (ws_sent (sockets ?c ! j)) = auth_frame token"
        using sent j len by simp
      then show ?thesis
        using assms(1) sent base j len True
        by (auto simp: onopen_def Some client_inv_def ws_send_def nth_list_update hd_append set_ready_def
          dest!: set_update_subset_insert [THEN subsetD] split: if_splits)
    next
      case False
      then have "onopen token (set_ready i OPEN c) = ?c"
        using len(2) by (simp add: onopen_def ws_send_def)
      moreover have "ready (sockets ?c ! j) \<noteq> OPEN" using False j len(1) by (simp add: ready_at_def)
      ultimately show ?thesis using assms(1) sent base j len by (simp add: client_inv_def)
    qed
  qed
qed

lemma client_inv_handle:
  assumes inv: "client_inv token c" and en: "enabled c e"
  shows "client_inv token (handle token e c)"
proof (cases e)
  case Connect
  with inv show ?thesis by (simp add: client_inv_connect)
next
  case Disconnect
  have "client_inv token (c\<lparr>timers := filter P (timers c)\<rparr>)" for P
    using inv by (auto simp: client_inv_def)
  then have "client_inv token (case reconnectTimer c of None \<Rightarrow> c | Some t \<Rightarrow> c\<lparr>timers := filter (\<lambda>(j, _). j \<noteq> t) (timers c)\<rparr>)"
    using inv by (simp split: option.split)
  moreover have "client_inv token (c1\<lparr>ws := None, authenticated := False\<rparr>)" if "client_inv token c1" for c1
    using that by (simp add: client_inv_def)
  ultimately show ?thesis
    using Disconnect by (auto simp: disconnect_def Let_def client_inv_set_ready split: option.split)
next
  case (Send cmd p)
  then show ?thesis
    using inv client_inv_ws_send [OF inv]
    by (auto simp: send_def is_open_def client_inv_def ready_at_def split: option.splits if_splits)
next
  case (On ev h)
  with inv show ?thesis by (simp add: on_event_def client_inv_def Let_def)
next
  case (Off ev h)
  with inv show ?thesis by (simp add: off_event_def client_inv_def split: option.split)
next
  case (Opened i)
  with inv en show ?thesis by (simp add: client_inv_opened)
next
  case (Received i d)
  with inv show ?thesis
    by (simp add: onmessage_def dispatch_def client_inv_def split: sum.split option.split json.split)
next
  case (Closed i code)
  with client_inv_set_ready [OF inv, of CLOSED i] show ?thesis
    by (simp add: onclose_def scheduleReconnect_def client_inv_def Let_def)
next
  case (Fire k)
  have "client_inv token (c\<lparr>timers := filter (\<lambda>(j, _). j \<noteq> k) (timers c), reconnectDelay := min (reconnectDelay c * 2) 30000\<rparr>)"
    using inv by (auto simp: client_inv_def delay_ok_def)
  with Fire show ?thesis by (simp add: reconnect_fires_def client_inv_connect)
qed

interpretation client_machine: machine_invariant enabled "handle token" "client_inv token" for token
  by unfold_locales (rule client_inv_handle)

lemma client_run_inv: "client_run token f es c \<Longrightarrow> client_inv token c"
  by (rule client_machine.run_keeps [OF _ client_inv_new])

section \<open>Before auth_ok\<close>

definition auth_ok_data :: "jstr \<Rightarrow> bool" where
  "auth_ok_data d \<longleftrightarrow> (case json_parse d of Inl _ \<Rightarrow> False | Inr envelope \<Rightarrow> is_auth_ok envelope)"

fun grants :: "client_event \<Rightarrow> bool" where
  "grants (Received i d) = auth_ok_data d"
| "grants _ = False"

fun drops :: "client_event \<Rightarrow> bool" where
  "drops (Closed i code) = True"
| "drops Disconnect = True"
| "drops _ = False"

text \<open>The events since the last close or disconnect, latest first.\<close>

definition recent :: "client_event list \<Rightarrow> client_event list" where
  "recent es = takeWhile (\<lambda>e. \<not> drops e) (rev es)"

definition silent :: "jstr \<Rightarrow> client \<Rightarrow> bool" where
  "silent token c \<longleftrightarrow> \<not> authenticated c \<and> dispatched c = [] \<and>
     (\<forall>s \<in> set (sockets c). set (ws_sent s) \<subseteq> {auth_frame token})"

lemma all_update:
  assumes "\<forall>x \<in> set xs. P x" and "i < length xs \<Longrightarrow> P (xs ! i) \<Longrightarrow> P y"
  shows "\<forall>x \<in> set (xs[i := y]). P x"
proof (cases "i < length xs")
  case True
  with assms have "P y" by simp
  with assms(1) show ?thesis by (auto dest!: set_update_subset_insert [THEN subsetD])
qed (use assms(1) in \<open>simp add: list_update_beyond\<close>)

lemma silent_set_ready: "silent token c \<Longrightarrow> silent token (set_ready i x c)"
  using all_update [where xs = "sockets c" and P = "\<lambda>s. set (ws_sent s) \<subseteq> {auth_frame token}"
      and i = i and y = "(sockets c ! i)\<lparr>ready := x\<rparr>"]
  by (simp add: silent_def set_ready_def)

lemma silent_ws_send: "silent token c \<Longrightarrow> silent token (ws_send i (auth_frame token) c)"
  using all_update [where xs = "sockets c" and P = "\<lambda>s. set (ws_sent s) \<subseteq> {auth_frame token}"
      and i = i and y = "(sockets c ! i)\<lparr>ws_sent := ws_sent (sockets c ! i) @ [auth_frame token]\<rparr>"]
  by (simp add: silent_def ws_send_def)

lemma silent_connect: "silent token c \<Longrightarrow> silent token (connect c)"
  by (auto simp: silent_def connect_def)

lemma silent_handle:
  assumes "silent token c" and "\<not> grants e"
  shows "silent token (handle token e c)"
proof (cases e)
  case Disconnect
  have "silent token (case reconnectTimer c of None \<Rightarrow> c | Some t \<Rightarrow> c\<lparr>timers := filter (\<lambda>(j, _). j \<noteq> t) (timers c)\<rparr>)"
    using assms(1) by (simp add: silent_def split: option.split)
  moreover have "silent token (c1\<lparr>ws := None, authenticated := False\<rparr>)" if "silent token c1" for c1
    using that by (simp add: silent_def)
  ultimately show ?thesis
    using Disconnect by (auto simp: disconnect_def Let_def silent_set_ready split: option.split)
next
  case (Opened i)
  have "silent token ((set_ready i OPEN c)\<lparr>reconnectDelay := 1000\<rparr>)"
    using silent_set_ready [OF assms(1), of i OPEN] by (simp add: silent_def)
  with Opened silent_ws_send [OF this] show ?thesis by (simp add: onopen_def Let_def split: option.split)
next
  case (Received i d)
  with assms show ?thesis
    by (auto simp: onmessage_def auth_ok_data_def silent_def split: sum.splits)
next
  case (Closed i code)
  with silent_set_ready [OF assms(1), of i CLOSED] show ?thesis
    by (simp add: onclose_def scheduleReconnect_def silent_def Let_def)
next
  case (Fire k)
  have "silent token (c\<lparr>timers := ts, reconnectDelay := d\<rparr>)" for ts d
    using assms(1) by (simp add: silent_def)
  with Fire show ?thesis by (simp add: reconnect_fires_def silent_connect)
qed (use assms in \<open>auto simp: silent_connect send_def on_event_def off_event_def Let_def split: option.split\<close>,
  (simp add: silent_def)+)

lemma silent_run: "client_run token f es c \<Longrightarrow> \<not> list_ex grants es \<Longrightarrow> silent token c"
  by (induction rule: runs.induct) (simp_all add: silent_handle, simp add: silent_def new_client_def)

lemma authenticated_handle: "authenticated (handle token e c) \<Longrightarrow> \<not> drops e \<and> (authenticated c \<or> grants e)"
  by (cases e) (auto simp: client_defs is_open_def auth_ok_data_def Let_def
    split: option.splits if_splits sum.splits json.splits)

lemma authenticated_recent: "client_run token f es c \<Longrightarrow> authenticated c \<Longrightarrow> list_ex grants (recent es)"
  by (induction rule: runs.induct) (auto simp: new_client_def recent_def dest: authenticated_handle)

end
