(* ===== verification/ClientProperties.thy ===== *)
theory ClientProperties
  imports WinkdClient
begin

text \<open>
  What the protocol client promises: authentication comes first, reconnection backs off, handlers are
  called once each; and what it does not keep: a disconnect on purpose reconnects.
\<close>

section \<open>Handlers\<close>

text \<open>The handlers registered for an event by the calls so far, in order.\<close>

fun register :: "jstr \<Rightarrow> client_event \<Rightarrow> nat list \<Rightarrow> nat list" where
  "register ev (On e h) hs = (if event_name e = ev \<and> h \<notin> set hs then hs @ [h] else hs)"
| "register ev (Off e h) hs = (if event_name e = ev then filter (\<lambda>x. x \<noteq> h) hs else hs)"
| "register ev _ hs = hs"

definition registered :: "jstr \<Rightarrow> client_event list \<Rightarrow> nat list" where
  "registered ev es = fold (register ev) es []"

definition handlers_for :: "client \<Rightarrow> jstr \<Rightarrow> nat list" where
  "handlers_for c ev = (case handlers c ev of None \<Rightarrow> [] | Some hs \<Rightarrow> hs)"

lemma handlers_other: "handlers (ws_send i d c) = handlers c" "handlers (set_ready i x c) = handlers c"
  "handlers (connect c) = handlers c" "handlers (scheduleReconnect c) = handlers c"
  by (simp_all add: client_defs)

lemma handlers_for_handle: "handlers_for (handle token e c) ev = register ev e (handlers_for c ev)"
  by (cases e) (auto simp: handlers_for_def handlers_other disconnect_def send_def on_event_def off_event_def
    onopen_def onmessage_def dispatch_def onclose_def reconnect_fires_def Let_def
    split: option.split sum.split json.split)

lemma handlers_for_run: "client_run token f es c \<Longrightarrow> handlers_for c ev = registered ev es"
  by (induction rule: runs.induct)
    (simp_all add: handlers_for_handle registered_def, simp add: new_client_def handlers_for_def)

lemma distinct_register: "distinct hs \<Longrightarrow> distinct (register ev e hs)"
  by (cases e) simp_all

lemma distinct_registered: "distinct (registered ev es)"
proof -
  have "distinct (fold (register ev) es hs)" if "distinct hs" for hs
    using that by (induction es arbitrary: hs) (simp_all add: distinct_register)
  then show ?thesis by (simp add: registered_def)
qed

section \<open>After a refused session\<close>

lemma ready_at_update [simp]:
  "ready_at (c\<lparr>ws := a\<rparr>) i = ready_at c i" "ready_at (c\<lparr>timers := b\<rparr>) i = ready_at c i"
  "ready_at (c\<lparr>authenticated := d\<rparr>) i = ready_at c i" "ready_at (c\<lparr>handlers := e\<rparr>) i = ready_at c i"
  by (simp_all add: ready_at_def)




section \<open>An outage\<close>

text \<open>The socket closes without an authentication failure, and the timer of that close fires.\<close>

definition failed_attempt :: "jstr \<Rightarrow> client \<Rightarrow> client" where
  "failed_attempt token c = handle token (Fire (next_timer c)) (handle token (Closed (the (ws c)) 1006) c)"

fun outage :: "jstr \<Rightarrow> nat \<Rightarrow> client \<Rightarrow> client_event list" where
  "outage token 0 c = []"
| "outage token (Suc n) c = Closed (the (ws c)) 1006 # Fire (next_timer c) # outage token n (failed_attempt token c)"

definition holds_socket :: "client \<Rightarrow> bool" where
  "holds_socket c \<longleftrightarrow> (\<exists>i. ws c = Some i \<and> ready_at c i \<noteq> CLOSED)"

lemma failed_attempt_state:
  assumes "holds_socket c"
  shows "enabled c (Closed (the (ws c)) 1006)"
    and "enabled (handle token (Closed (the (ws c)) 1006) c) (Fire (next_timer c))"
    and "holds_socket (failed_attempt token c)"
    and "reconnectDelay (failed_attempt token c) = min (reconnectDelay c * 2) 30000"
    and "length (sockets (failed_attempt token c)) = length (sockets c) + 1"
    and "(next_timer c, reconnectDelay c) \<in> set (timers (handle token (Closed (the (ws c)) 1006) c))"
proof -
  obtain i where i: "ws c = Some i" "ready_at c i \<noteq> CLOSED" using assms by (auto simp: holds_socket_def)
  then have len: "i < length (sockets c)" by (simp add: ready_at_def split: if_splits)
  let ?c = "handle token (Closed (the (ws c)) 1006) c"
  have c: "ws ?c = Some i" "ready_at ?c i = CLOSED" "reconnectDelay ?c = reconnectDelay c"
    "length (sockets ?c) = length (sockets c)" "(next_timer c, reconnectDelay c) \<in> set (timers ?c)"
    using i len by (auto simp: onclose_def scheduleReconnect_def set_ready_def ready_at_def Let_def)
  have r: "failed_attempt token c = connect (?c\<lparr>timers := filter (\<lambda>(j, _). j \<noteq> next_timer c) (timers ?c),
      reconnectDelay := min (reconnectDelay c * 2) 30000\<rparr>)"
    using c(3) by (simp add: failed_attempt_def reconnect_fires_def)
  have "\<not> is_open (?c\<lparr>timers := ts, reconnectDelay := d\<rparr>)" for ts d
    using c(1,2) by (simp add: is_open_def ready_at_def split: if_splits)
  then show "holds_socket (failed_attempt token c)"
    "reconnectDelay (failed_attempt token c) = min (reconnectDelay c * 2) 30000"
    "length (sockets (failed_attempt token c)) = length (sockets c) + 1"
    using c(4) by (simp_all add: r connect_def holds_socket_def ready_at_def nth_append)
  show "enabled c (Closed (the (ws c)) 1006)" using i by simp
  show "enabled ?c (Fire (next_timer c))" using c(5) by (force simp: image_iff)
  show "(next_timer c, reconnectDelay c) \<in> set (timers ?c)" by (rule c(5))
qed

lemma outage_drive:
  "holds_socket c \<Longrightarrow> \<exists>c'. drive token (outage token n c) c = Some c' \<and> holds_socket c' \<and>
     length (sockets c') = length (sockets c) + n \<and>
     (reconnectDelay c \<le> 30000 \<longrightarrow> reconnectDelay c' = min (reconnectDelay c * 2 ^ n) 30000)"
proof (induction n arbitrary: c)
  case (Suc n)
  note st = failed_attempt_state(1) [OF Suc.prems] failed_attempt_state(2-5) [OF Suc.prems, of token]
  obtain c' where c': "drive token (outage token n (failed_attempt token c)) (failed_attempt token c) = Some c'"
      "holds_socket c'" "length (sockets c') = length (sockets (failed_attempt token c)) + n"
      "reconnectDelay c' = min (min (reconnectDelay c * 2) 30000 * 2 ^ n) 30000"
    using Suc.IH [OF st(3)] st(4) by auto
  have "min (min (reconnectDelay c * 2) 30000 * 2 ^ n) 30000 = min (reconnectDelay c * 2 ^ Suc n) 30000"
  proof (cases "reconnectDelay c * 2 \<le> 30000")
    case False
    have "(30000 :: int) \<le> 30000 * 2 ^ n" "30000 * 2 ^ n \<le> reconnectDelay c * 2 * 2 ^ n"
      using False by simp_all
    moreover have "reconnectDelay c * 2 * 2 ^ n = reconnectDelay c * 2 ^ Suc n" by simp
    ultimately show ?thesis using False by linarith
  qed simp
  then show ?case using st(1,2,5) c' by (simp add: failed_attempt_def)
qed simp

section \<open>A session that is used as a witness\<close>

definition demo_auth_ok :: jstr where
  "demo_auth_ok = js ''{\"type\":\"auth_ok\"}''"

definition demo_event :: jstr where
  "demo_event = js ''{\"event\":\"message\",\"payload\":1}''"

definition demo_opened :: "client_event list" where
  "demo_opened = [Connect, On EvMessage 7, On EvMessage 8, Opened 0]"

definition demo_signed_in :: "client_event list" where
  "demo_signed_in = demo_opened @ [Received 0 demo_auth_ok, Received 0 demo_event]"

definition demo_client :: "client_event list \<Rightarrow> client" where
  "demo_client es = the (drive (js ''t'') es (new_client True))"

lemma demo_auth_ok_parse: "json_parse demo_auth_ok = Inr (JObj [(js ''type'', JStr (js ''auth_ok''))])"
  by code_simp

lemma demo_event_parse:
  "json_parse demo_event = Inr (JObj [(js ''event'', JStr (js ''message'')), (js ''payload'', JInt 1)])"
  by code_simp

lemma demo_fields:
  "is_auth_ok (JObj [(js ''type'', JStr (js ''auth_ok''))])"
  "\<not> is_auth_ok (JObj [(js ''event'', JStr (js ''message'')), (js ''payload'', JInt 1)])"
  "json_get (JObj [(js ''event'', JStr (js ''message'')), (js ''payload'', JInt 1)]) (js ''event'') = Some (JStr (js ''message''))"
  "json_get (JObj [(js ''event'', JStr (js ''message'')), (js ''payload'', JInt 1)]) (js ''payload'') = Some (JInt 1)"
  by code_simp+

lemmas demo_simps = demo_fields demo_signed_in_def demo_opened_def demo_client_def demo_auth_ok_parse demo_event_parse
  new_client_def connect_def is_open_def on_event_def onopen_def onmessage_def dispatch_def ready_at_def
  set_ready_def ws_send_def event_name_def Let_def

lemma demo_opened_drive: "drive (js ''t'') demo_opened (new_client True) = Some (demo_client demo_opened)"
  by (simp add: demo_simps)

lemma demo_signed_in_drive: "drive (js ''t'') demo_signed_in (new_client True) = Some (demo_client demo_signed_in)"
  by (simp add: demo_simps)

lemma demo_runs:
  "client_run (js ''t'') True demo_opened (demo_client demo_opened)"
  "client_run (js ''t'') True demo_signed_in (demo_client demo_signed_in)"
  using demo_opened_drive demo_signed_in_drive by (simp_all add: client_run_drive)

section \<open>Properties\<close>

text \<open>C13: nothing happens before auth_ok. In every run of the client, if it is authenticated then an
  auth_ok message arrived after the last close or disconnect; and as long as no auth_ok message ever
  arrived, no handler was called and no socket carried anything but the auth frame with the session
  token.\<close>

theorem client_waits_for_auth_ok:
  assumes "client_run token f es c"
  shows "(authenticated c \<longrightarrow> list_ex grants (recent es)) \<and>
    (\<not> list_ex grants es \<longrightarrow> dispatched c = [] \<and> (\<forall>s \<in> set (sockets c). set (ws_sent s) \<subseteq> {auth_frame token}))"
  using authenticated_recent [OF assms] silent_run [OF assms] by (auto simp: silent_def)

theorem client_waits_for_auth_ok_witness:
  "list_ex grants (recent demo_signed_in) \<and> dispatched (demo_client demo_opened) = [] \<and>
   dispatched (demo_client demo_signed_in) = [(7, Some (JInt 1)), (8, Some (JInt 1))]"
proof -
  have "authenticated (demo_client demo_signed_in)" by (simp add: demo_simps)
  moreover have "\<not> list_ex grants demo_opened" by (simp add: demo_opened_def)
  ultimately show ?thesis
    using client_waits_for_auth_ok [OF demo_runs(1)] client_waits_for_auth_ok [OF demo_runs(2)]
    by (simp add: demo_simps)
qed

text \<open>C14: authentication is the first thing on every socket, and the delay of every reconnection, the
  next one and each that is pending, is between one and thirty seconds.\<close>

theorem client_auth_first_delay_bounded:
  assumes "client_run token f es c"
  shows "(\<forall>s \<in> set (sockets c). ws_sent s = [] \<or> hd (ws_sent s) = auth_frame token) \<and>
    (\<forall>d \<in> insert (reconnectDelay c) (snd ` set (timers c)). 1000 \<le> d \<and> d \<le> 30000)"
  using client_run_inv [OF assms] by (auto simp: client_inv_def delay_ok_def)

theorem client_auth_first_delay_bounded_witness:
  "map ws_sent (sockets (demo_client demo_opened)) = [[auth_frame (js ''t'')]] \<and>
   1000 \<le> reconnectDelay (demo_client demo_opened)"
  using client_auth_first_delay_bounded [OF demo_runs(1)] by (simp add: demo_simps)

text \<open>C15: an outage backs off. A client with an unclosed socket can go through any number n of
  failures in a row (the socket closes, the timer of that close fires): each opens one more socket, and
  after n of them the delay is the first one times 2 to the n, but at most thirty seconds.\<close>

theorem client_backs_off:
  assumes "client_run token f es c" and "holds_socket c"
  shows "\<exists>c'. client_run token f (es @ outage token n c) c' \<and> holds_socket c' \<and>
    length (sockets c') = length (sockets c) + n \<and>
    reconnectDelay c' = min (reconnectDelay c * 2 ^ n) 30000"
proof -
  have "reconnectDelay c \<le> 30000"
    using client_run_inv [OF assms(1)] by (simp add: client_inv_def delay_ok_def)
  with outage_drive [OF assms(2), of token n] obtain c' where "drive token (outage token n c) c = Some c'"
      "holds_socket c'" "length (sockets c') = length (sockets c) + n"
      "reconnectDelay c' = min (reconnectDelay c * 2 ^ n) 30000" by auto
  with drive_run [OF this(1) assms(1)] show ?thesis by auto
qed

theorem client_backs_off_witness:
  "\<exists>c'. client_run (js ''t'') True (demo_opened @ outage (js ''t'') 4 (demo_client demo_opened)) c' \<and>
     reconnectDelay c' = 16000 \<and> length (sockets c') = 5"
proof -
  have "holds_socket (demo_client demo_opened)" by (simp add: holds_socket_def demo_simps)
  from client_backs_off [OF demo_runs(1) this, of 4] show ?thesis by (auto simp: demo_simps)
qed



text \<open>C17: an event reaches its handlers. In every run, an event that arrives after authentication calls
  exactly the handlers that were registered for it and not taken back, in the order of registration,
  each once, with the event's payload; any other message calls none.\<close>

theorem client_dispatches_once:
  assumes "client_run token f es c" and "authenticated c" and "json_parse d = Inr envelope"
    and "json_get envelope (js ''event'') = Some (JStr ev)"
  shows "dispatched (handle token (Received i d) c) =
      dispatched c @ map (\<lambda>h. (h, json_get envelope (js ''payload''))) (registered ev es) \<and>
    distinct (registered ev es)"
proof
  show "dispatched (handle token (Received i d) c) =
      dispatched c @ map (\<lambda>h. (h, json_get envelope (js ''payload''))) (registered ev es)"
    using handlers_for_run [OF assms(1), of ev] assms(2-4)
    by (simp add: onmessage_def dispatch_def handlers_for_def split: option.splits)
  show "distinct (registered ev es)" by (rule distinct_registered)
qed

theorem client_dispatches_once_witness:
  "dispatched (handle (js ''t'') (Received 0 demo_event) (demo_client demo_signed_in)) =
     [(7, Some (JInt 1)), (8, Some (JInt 1)), (7, Some (JInt 1)), (8, Some (JInt 1))]"
proof -
  let ?e = "JObj [(js ''event'', JStr (js ''message'')), (js ''payload'', JInt 1)]"
  have "authenticated (demo_client demo_signed_in)" by (simp add: demo_simps)
  moreover have "json_get ?e (js ''event'') = Some (JStr (js ''message''))" by (rule demo_fields)
  ultimately show ?thesis
    using client_dispatches_once [OF demo_runs(2) _ demo_event_parse, of "js ''message''" 0]
    by (simp add: demo_simps registered_def)
qed

text \<open>C36: disconnect does not stay disconnected. After disconnect() on an open connection, the close
  event of that socket schedules a reconnection like any other, and when its timer fires the client
  connects again and authenticates with the same token.\<close>

theorem client_disconnect_reconnects:
  assumes "client_run token f es c" and "ws c = Some i" and "ready_at c i = OPEN"
  shows "\<exists>c'. client_run token f (es @ [Disconnect, Closed i 1005, Fire (next_timer c), Opened (length (sockets c))]) c' \<and>
    ws c' = Some (length (sockets c)) \<and> is_open c' \<and>
    ws_sent (sockets c' ! length (sockets c)) = [auth_frame token]"
proof -
  have i: "i < length (sockets c)" using assms(3) by (rule ready_at_OPEN)
  let ?n = "length (sockets c)" and ?t = "next_timer c"
  define c1 where "c1 = handle token Disconnect c"
  define c2 where "c2 = handle token (Closed i 1005) c1"
  define c3 where "c3 = handle token (Fire ?t) c2"
  define c4 where "c4 = handle token (Opened ?n) c3"
  have c1: "ws c1 = None" "length (sockets c1) = ?n" "next_timer c1 = ?t" "ready_at c1 i = CLOSING"
    using i assms(2,3) by (auto simp: c1_def disconnect_def set_ready_def ready_at_def Let_def split: option.split)
  have c2: "ws c2 = None" "length (sockets c2) = ?n" "?t \<in> fst ` set (timers c2)"
    using c1 by (auto simp: c2_def onclose_def scheduleReconnect_def set_ready_def Let_def)
  have c3: "ws c3 = Some ?n" "sockets c3 = sockets c2 @ [\<lparr>ready = CONNECTING, ws_sent = []\<rparr>]"
    using c2 by (simp_all add: c3_def reconnect_fires_def connect_def is_open_def)
  have en3: "ready_at c3 ?n = CONNECTING" using c2(2) c3(2) by (simp add: ready_at_def nth_append)
  have c4: "ws c4 = Some ?n" "is_open c4" "ws_sent (sockets c4 ! ?n) = [auth_frame token]"
    using c2(2) c3 by (simp_all add: c4_def onopen_def set_ready_def ws_send_def ready_at_def is_open_def nth_append Let_def)
  have "drive token [Disconnect, Closed i 1005, Fire ?t, Opened ?n] c = Some c4"
    using c1(4) c2(3) en3 by (simp add: c4_def c3_def c2_def c1_def)
  from drive_run [OF this assms(1)] c4 show ?thesis by blast
qed

theorem client_disconnect_reconnects_witness:
  "\<exists>c'. client_run (js ''t'') True (demo_signed_in @ [Disconnect, Closed 0 1005, Fire 1, Opened 1]) c' \<and> is_open c'"
proof -
  have "ws (demo_client demo_signed_in) = Some 0" "ready_at (demo_client demo_signed_in) 0 = OPEN"
    by (simp_all add: demo_simps)
  from client_disconnect_reconnects [OF demo_runs(2) this] show ?thesis by (auto simp: demo_simps)
qed

end
