(* ===== verification/Tables.thy ===== *)
theory Tables
  imports WinkdPrelude
begin

text \<open>
  Tables: what the stores promise of the lists and maps they keep by a key. The contract says what a
  lookup gives after an entry was put or deleted; its clients get the behaviour of any sequence of such
  operations.
\<close>

datatype ('k, 'a) table_op = Put 'a | Del 'k

text \<open>The contract's meaning: a finite map.\<close>

fun map_op :: "('a \<Rightarrow> 'k) \<Rightarrow> ('k, 'a) table_op \<Rightarrow> ('k \<rightharpoonup> 'a) \<Rightarrow> ('k \<rightharpoonup> 'a)" where
  "map_op key (Put x) m = m(key x \<mapsto> x)"
| "map_op key (Del k) m = m(k := None)"

locale table =
  fixes sane :: "'t \<Rightarrow> bool" and look :: "'t \<Rightarrow> 'k \<rightharpoonup> 'a" and key :: "'a \<Rightarrow> 'k"
    and put :: "'a \<Rightarrow> 't \<Rightarrow> 't" and del :: "'k \<Rightarrow> 't \<Rightarrow> 't"
  assumes sane_put: "sane t \<Longrightarrow> sane (put x t)" and look_put: "sane t \<Longrightarrow> look (put x t) = (look t)(key x \<mapsto> x)"
    and sane_del: "sane t \<Longrightarrow> sane (del k t)" and look_del: "sane t \<Longrightarrow> look (del k t) = (look t)(k := None)"
begin

lemmas laws = sane_put look_put sane_del look_del

lemma put_twice: "sane t \<Longrightarrow> key x = key y \<Longrightarrow> look (put y (put x t)) = look (put y t)"
  by (simp add: laws)

lemma put_commute: "sane t \<Longrightarrow> key x \<noteq> key y \<Longrightarrow> look (put y (put x t)) = look (put x (put y t))"
  by (simp add: laws fun_upd_twist)

lemma del_put: "sane t \<Longrightarrow> look (del (key x) (put x t)) = look (del (key x) t)"
  by (simp add: laws)

lemma run_ops:
  "sane t \<Longrightarrow> sane (fold (case_table_op put del) ops t) \<and>
    look (fold (case_table_op put del) ops t) = fold (map_op key) ops (look t)"
proof (induction ops arbitrary: t)
  case (Cons p ops)
  then show ?case by (cases p) (simp_all add: laws del: fun_upd_apply)
qed simp

end

section \<open>Lists by key\<close>

text \<open>The entry of a key in a list.\<close>

definition entry :: "('a \<Rightarrow> 'k) \<Rightarrow> 'a list \<Rightarrow> 'k \<rightharpoonup> 'a" where
  "entry key xs k = find (\<lambda>x. key x = k) xs"

lemma entry_simps [simp]:
  "entry key [] k = None"
  "entry key (x # xs) k = (if key x = k then Some x else entry key xs k)"
  by (simp_all add: entry_def)

lemma entry_append: "entry key (xs @ ys) k = (case entry key xs k of None \<Rightarrow> entry key ys k | r \<Rightarrow> r)"
  by (induction xs) auto

lemma entry_None: "entry key xs k = None \<longleftrightarrow> k \<notin> key ` set xs"
  by (induction xs) auto

lemma entry_filter:
  "distinct (map key xs) \<Longrightarrow> entry key (filter P xs) k = (case entry key xs k of None \<Rightarrow> None | Some x \<Rightarrow> if P x then Some x else None)"
proof (induction xs)
  case (Cons x xs)
  then show ?case using entry_None [of key xs k] by (auto split: option.split)
qed simp

lemma entry_filter_key: "entry key (filter (\<lambda>x. key x \<noteq> i) xs) = (entry key xs)(i := None)"
  by (rule ext) (induction xs; auto)

lemma entry_map:
  "(\<And>x. key (f x) = key x) \<Longrightarrow> entry key (map f xs) k = map_option f (entry key xs k)"
  by (induction xs) auto

text \<open>The two ways the stores put an entry: replaced where it is or appended; or taken out and appended.\<close>

definition put_in_place :: "('a \<Rightarrow> 'k) \<Rightarrow> 'a \<Rightarrow> 'a list \<Rightarrow> 'a list" where
  "put_in_place key x xs = (if \<exists>y \<in> set xs. key y = key x then map (\<lambda>y. if key y = key x then x else y) xs else xs @ [x])"

definition put_last :: "('a \<Rightarrow> 'k) \<Rightarrow> 'a \<Rightarrow> 'a list \<Rightarrow> 'a list" where
  "put_last key x xs = filter (\<lambda>y. key y \<noteq> key x) xs @ [x]"

definition del_key :: "('a \<Rightarrow> 'k) \<Rightarrow> 'k \<Rightarrow> 'a list \<Rightarrow> 'a list" where
  "del_key key k xs = filter (\<lambda>y. key y \<noteq> k) xs"

lemma map_key_replace: "map key (map (\<lambda>y. if key y = key x then x else y) xs) = map key xs"
  by (induction xs) simp_all

lemma distinct_keys:
  assumes "distinct (map key xs)"
  shows "distinct (map key (put_in_place key x xs))" "distinct (map key (put_last key x xs))" "distinct (map key (del_key key k xs))"
proof -
  show "distinct (map key (put_in_place key x xs))"
    using assms map_key_replace [of key x xs] by (auto simp: put_in_place_def simp del: map_map)
qed (use assms in \<open>auto simp: put_last_def del_key_def distinct_map_filter\<close>)

lemma entry_put_in_place: "entry key (put_in_place key x xs) = (entry key xs)(key x \<mapsto> x)"
proof (cases "\<exists>y \<in> set xs. key y = key x")
  case True
  have "entry key (map (\<lambda>y. if key y = key x then x else y) xs) k =
      (if k = key x \<and> (\<exists>y \<in> set xs. key y = key x) then Some x else entry key xs k)" for k
    by (induction xs) auto
  with True show ?thesis by (auto simp: put_in_place_def)
next
  case False
  then have "entry key xs (key x) = None" by (auto simp: entry_None)
  then show ?thesis using False by (auto simp: put_in_place_def entry_append fun_eq_iff split: option.split)
qed

lemma entry_put_last: "entry key (put_last key x xs) = (entry key xs)(key x \<mapsto> x)"
  by (auto simp: put_last_def entry_append entry_filter_key fun_eq_iff split: option.split)

lemma entry_del_key: "entry key (del_key key k xs) = (entry key xs)(k := None)"
  by (simp add: del_key_def entry_filter_key)

end
