(* ===== verification/ContactManager.thy ===== *)
theory ContactManager
  imports WinkdTypes Tables
begin

text \<open>
  packages/core/src/contacts/index.ts: the class ContactManager, whose state is a Map from ids to
  contacts in insertion order, and the QR payload with the encodeURIComponent and
  decodeURIComponent it uses. The URL constructor is a parameter (\<open>parseURL\<close>: protocol, host name and
  path name, or \<open>None\<close> where it throws); what the round trip needs of it is \<open>url_law\<close>.
\<close>

section \<open>Contacts\<close>

type_synonym contacts = "Contact obj"

definition addOrUpdate :: "Contact \<Rightarrow> contacts \<Rightarrow> contacts" where
  "addOrUpdate contact m = obj_set (contact_id contact) contact m"

definition remove_contact :: "jstr \<Rightarrow> contacts \<Rightarrow> contacts" where
  "remove_contact i m = obj_delete i m"

definition get_contact :: "contacts \<Rightarrow> jstr \<Rightarrow> Contact option" where
  "get_contact m i = map_of m i"

text \<open>The Map is a table by the contacts' ids.\<close>

interpretation manager: table "\<lambda>m. distinct (map fst m)" get_contact contact_id addOrUpdate remove_contact
  by unfold_locales (simp_all add: get_contact_def [abs_def] addOrUpdate_def remove_contact_def distinct_obj fun_eq_iff)

definition getAll :: "contacts \<Rightarrow> Contact list" where
  "getAll m = filter (\<lambda>c. requestStatus c = Accepted) (map snd m)"

definition activeStatuses :: "UserStatus list" where
  "activeStatuses = [Online, Away, Busy]"

definition getGrouped :: "contacts \<Rightarrow> GroupedContacts" where
  "getGrouped m = (let accepted = getAll m in
     \<lparr>g_online = filter (\<lambda>c. status c = Online) accepted,
      g_away = filter (\<lambda>c. status c = Away) accepted,
      g_busy = filter (\<lambda>c. status c = Busy) accepted,
      g_offline = filter (\<lambda>c. status c \<notin> set activeStatuses) accepted\<rparr>)"

definition getPendingInbound :: "contacts \<Rightarrow> Contact list" where
  "getPendingInbound m = filter (\<lambda>c. requestStatus c = PendingInbound) (map snd m)"

section \<open>encodeURIComponent and decodeURIComponent\<close>

definition uri_unreserved :: "nat \<Rightarrow> bool" where
  "uri_unreserved n \<longleftrightarrow> (48 \<le> n \<and> n \<le> 57) \<or> (65 \<le> n \<and> n \<le> 90) \<or> (97 \<le> n \<and> n \<le> 122) \<or>
     n \<in> {45, 95, 46, 33, 126, 42, 39, 40, 41}"

definition hex_upper :: "nat \<Rightarrow> u16" where
  "hex_upper n = of_nat (if n < 10 then 48 + n else 55 + n)"

definition pct :: "nat \<Rightarrow> jstr" where
  "pct b = [37, hex_upper (b div 16), hex_upper (b mod 16)]"

definition uri_char :: "nat \<Rightarrow> jstr" where
  "uri_char cp = (if uri_unreserved cp then [of_nat cp] else concat (map pct (utf8_encode cp)))"

definition encodeURIComponent :: "jstr \<Rightarrow> error + jstr" where
  "encodeURIComponent s = (if well_formed s then Inr (concat (map uri_char (utf16_decode s))) else Inl URIErr)"

fun pct_bytes :: "nat \<Rightarrow> jstr \<Rightarrow> (nat list \<times> jstr) option" where
  "pct_bytes 0 s = Some ([], s)"
| "pct_bytes (Suc k) (p # a # b # s) = (if p = 37 then
     (case (hex_val a, hex_val b) of
        (Some x, Some y) \<Rightarrow> map_option (\<lambda>(bs, r). ((x * 16 + y) # bs, r)) (pct_bytes k s)
      | _ \<Rightarrow> None) else None)"
| "pct_bytes (Suc k) _ = None"

definition octet_count :: "nat \<Rightarrow> nat" where
  "octet_count b = (if b < 0x80 then 1 else if b < 0xC0 then 0 else if b < 0xE0 then 2
     else if b < 0xF0 then 3 else if b < 0xF8 then 4 else 0)"

text \<open>One code point at the front of a text that starts with a percent sign, and the rest.\<close>

definition uri_octets :: "jstr \<Rightarrow> (nat \<times> jstr) option" where
  "uri_octets s = (case pct_bytes 1 s of
     Some ([b], _) \<Rightarrow> (if octet_count b = 0 then None else case pct_bytes (octet_count b) s of
       Some (bs, r) \<Rightarrow> (case utf8_decode 0 0 0x80 0xBF bs of
           [cp] \<Rightarrow> if utf8_encode cp = bs then Some (cp, r) else None
         | _ \<Rightarrow> None)
     | None \<Rightarrow> None)
   | _ \<Rightarrow> None)"

lemma pct_bytes_length: "pct_bytes k s = Some (bs, r) \<Longrightarrow> length s = length r + 3 * k"
  by (induction k s arbitrary: bs rule: pct_bytes.induct) (auto split: if_splits option.splits)

lemma uri_octets_length: "uri_octets s = Some (cp, r) \<Longrightarrow> length r < length s"
proof -
  assume "uri_octets s = Some (cp, r)"
  then obtain k bs where "pct_bytes k s = Some (bs, r)" "0 < k"
    unfolding uri_octets_def by (fastforce split: option.splits list.splits if_splits prod.splits)
  then show ?thesis using pct_bytes_length by fastforce
qed

function decodeURIComponent :: "jstr \<Rightarrow> error + jstr" where
  "decodeURIComponent [] = Inr []"
| "decodeURIComponent (c # s) = (if c \<noteq> 37 then bindR (decodeURIComponent s) (\<lambda>t. Inr (c # t))
     else (case uri_octets (c # s) of
         None \<Rightarrow> Inl URIErr
       | Some (cp, r) \<Rightarrow> bindR (decodeURIComponent r) (\<lambda>t. Inr (utf16_encode cp @ t))))"
  by pat_completeness auto
termination
  by (relation "measure length") (auto dest: uri_octets_length)

section \<open>QR payloads\<close>

definition qrPayload :: "jstr \<Rightarrow> error + jstr" where
  "qrPayload wid = bindR (encodeURIComponent wid) (\<lambda>e. Inr (js ''winkd://add/'' @ e))"

definition parseQrPayload :: "(jstr \<Rightarrow> (jstr \<times> jstr \<times> jstr) option) \<Rightarrow> jstr \<Rightarrow> jstr option" where
  "parseQrPayload parseURL raw = (case parseURL raw of
     None \<Rightarrow> None
   | Some (protocol, hostname, pathname) \<Rightarrow>
       if protocol \<noteq> js ''winkd:'' \<or> hostname \<noteq> js ''add'' then None
       else (case decodeURIComponent (drop 1 pathname) of Inl _ \<Rightarrow> None | Inr s \<Rightarrow> Some s))"

text \<open>
  The URL standard on a URL of the non-special scheme winkd: host and path are what stands between the
  slashes, for a path of one segment made of unreserved characters and percent escapes that is not a
  dot segment (a dot may also be escaped, in either case).
\<close>

definition path_char :: "u16 \<Rightarrow> bool" where
  "path_char c \<longleftrightarrow> uri_unreserved (unat c) \<or> c = 37"

definition dots :: "jstr list" where
  "dots = [js ''.'', js ''%2e'', js ''%2E'']"

definition dot_segments :: "jstr list" where
  "dot_segments = dots @ map (\<lambda>(a, b). a @ b) (List.product dots dots)"

definition url_law :: "(jstr \<Rightarrow> (jstr \<times> jstr \<times> jstr) option) \<Rightarrow> bool" where
  "url_law parseURL \<longleftrightarrow> (\<forall>p. (\<forall>c \<in> set p. path_char c) \<and> p \<notin> set dot_segments \<longrightarrow>
     parseURL (js ''winkd://add/'' @ p) = Some (js ''winkd:'', js ''add'', 47 # p))"

section \<open>Decoding inverts encoding\<close>

lemma unat_hex_upper: "n < 16 \<Longrightarrow> unat (hex_upper n) = (if n < 10 then 48 + n else 55 + n)"
  by (simp add: hex_upper_def unat_of_nat_u16)

lemma hex_val_upper [simp]: "n < 16 \<Longrightarrow> hex_val (hex_upper n) = Some n"
  by (auto simp: hex_val_def unat_hex_upper Let_def)

lemma pct_bytes_pct:
  "\<forall>b \<in> set bs. b < 256 \<Longrightarrow> pct_bytes (length bs) (concat (map pct bs) @ s) = Some (bs, s)"
  by (induction bs) (auto simp: pct_def less_mult_imp_div_less)

lemma octet_count_utf8:
  "cp < 0x110000 \<Longrightarrow> octet_count (hd (utf8_encode cp)) = length (utf8_encode cp)"
  by (auto simp: octet_count_def utf8_encode_def less_mult_imp_div_less)

lemma uri_octets_utf8:
  assumes "scalar_value cp"
  shows "uri_octets (concat (map pct (utf8_encode cp)) @ s) = Some (cp, s)"
proof -
  have less: "\<forall>b \<in> set (utf8_encode cp). b < 256"
    using assms utf8_encode_bytes by (auto simp: scalar_value_def)
  obtain b bs where u: "utf8_encode cp = b # bs" by (cases "utf8_encode cp") (auto simp: utf8_encode_def split: if_splits)
  have "pct_bytes 1 (concat (map pct (utf8_encode cp)) @ s) = Some ([b], concat (map pct bs) @ s)"
    using pct_bytes_pct [of "[b]" "concat (map pct bs) @ s"] less u by simp
  moreover have "octet_count b = length (utf8_encode cp)"
    using octet_count_utf8 [of cp] assms u by (simp add: scalar_value_def)
  moreover have "utf8_decode 0 0 0x80 0xBF (utf8_encode cp) = [cp]"
    using utf8_decode_encode [OF assms, of "[]"] by simp
  ultimately show ?thesis
    using pct_bytes_pct [OF less, of s] u by (simp add: uri_octets_def)
qed

lemma decode_uri_char:
  assumes "scalar_value cp"
  shows "decodeURIComponent (uri_char cp @ s) = bindR (decodeURIComponent s) (\<lambda>t. Inr (utf16_encode cp @ t))"
proof (cases "uri_unreserved cp")
  case True
  then have cp: "cp < 128" "cp \<noteq> 37" by (auto simp: uri_unreserved_def)
  then have "(of_nat cp :: u16) \<noteq> 37" using unat_of_nat_u16 [of cp] by auto
  with True cp show ?thesis by (simp add: uri_char_def utf16_encode_def)
next
  case False
  obtain r where r: "concat (map pct (utf8_encode cp)) @ s = 37 # r"
    by (cases "utf8_encode cp") (auto simp: utf8_encode_def pct_def split: if_splits)
  then show ?thesis
    using False uri_octets_utf8 [OF assms, of s] by (simp add: uri_char_def)
qed

lemma decode_uri_roundtrip:
  assumes "well_formed s" and "encodeURIComponent s = Inr e"
  shows "decodeURIComponent e = Inr s"
proof -
  have dec: "decodeURIComponent (concat (map uri_char cps)) = Inr (concat (map utf16_encode cps))"
    if "\<forall>cp \<in> set cps. scalar_value cp" for cps
    using that by (induction cps) (simp_all add: decode_uri_char)
  from dec [OF utf16_decode_scalar [of s]] assms show ?thesis
    by (auto simp: encodeURIComponent_def utf16_roundtrip)
qed

lemma uri_char_path: "cp < 0x110000 \<Longrightarrow> c \<in> set (uri_char cp) \<Longrightarrow> path_char c"
proof -
  have hex: "path_char (hex_upper n)" if "n < 16" for n
    using that by (simp add: path_char_def unat_hex_upper uri_unreserved_def)
  assume cp: "cp < 0x110000" and c: "c \<in> set (uri_char cp)"
  show ?thesis
  proof (cases "uri_unreserved cp")
    case True
    moreover then have "cp < 65536" by (auto simp: uri_unreserved_def)
    ultimately show ?thesis using c by (simp add: uri_char_def path_char_def unat_of_nat_u16)
  next
    case False
    with c obtain b where "b \<in> set (utf8_encode cp)" "c \<in> set (pct b)" by (auto simp: uri_char_def)
    moreover from this(1) have "b div 16 < 16" using utf8_encode_bytes [OF cp] by fastforce
    ultimately show ?thesis using hex [of "b div 16"] hex [of "b mod 16"]
      by (auto simp: pct_def) (simp add: path_char_def)
  qed
qed

end
