(* ===== verification/ContactsStore.thy ===== *)
theory ContactsStore
  imports WinkdTypes Tables
begin

text \<open>
  apps/web/src/stores/contactsStore.ts: the buddy list, unread counts, invitations and blocked users
  of the web client. A partial contact is the function that overwrites its properties.
\<close>

record PendingInvitation =
  requestId :: jstr
  fromWinkdId :: jstr
  fromDisplayName :: jstr
  fromAvatarData :: "jstr option"

record BlockedUser =
  bu_userId :: jstr
  bu_winkdId :: jstr
  bu_displayName :: jstr
  bu_avatarData :: "jstr option"
  blockedAt :: jstr

record ContactsState =
  contacts :: "Contact list"
  unreadCounts :: "int obj"
  pendingInvitations :: "PendingInvitation list"
  blockedUsers :: "BlockedUser list"

definition new_contacts :: ContactsState where
  "new_contacts = \<lparr>contacts = [], unreadCounts = [], pendingInvitations = [], blockedUsers = []\<rparr>"

definition setContacts :: "Contact list \<Rightarrow> ContactsState \<Rightarrow> ContactsState" where
  "setContacts cs s = s\<lparr>contacts := cs\<rparr>"

definition removeContact :: "jstr \<Rightarrow> ContactsState \<Rightarrow> ContactsState" where
  "removeContact i s = s\<lparr>contacts := filter (\<lambda>c. contact_id c \<noteq> i) (contacts s)\<rparr>"

definition updateContact :: "jstr \<Rightarrow> (Contact \<Rightarrow> Contact) \<Rightarrow> ContactsState \<Rightarrow> ContactsState" where
  "updateContact i partial s = s\<lparr>contacts := map (\<lambda>c. if contact_id c = i then partial c else c) (contacts s)\<rparr>"

definition updateContactStatus :: "jstr \<Rightarrow> UserStatus \<Rightarrow> ContactsState \<Rightarrow> ContactsState" where
  "updateContactStatus i st s = s\<lparr>contacts := map (\<lambda>c. if contact_id c = i then c\<lparr>status := st\<rparr> else c) (contacts s)\<rparr>"

text \<open>A whole contact has every property, so \<open>{ ...c, ...contact }\<close> is the new contact.\<close>

definition addAcceptedContact :: "Contact \<Rightarrow> ContactsState \<Rightarrow> ContactsState" where
  "addAcceptedContact contact s = s\<lparr>contacts :=
     (if \<exists>c \<in> set (contacts s). contact_id c = contact_id contact
      then map (\<lambda>c. if contact_id c = contact_id contact then contact else c) (contacts s)
      else contacts s @ [contact])\<rparr>"

definition unread :: "jstr \<Rightarrow> ContactsState \<Rightarrow> int" where
  "unread i s = (case map_of (unreadCounts s) i of None \<Rightarrow> 0 | Some n \<Rightarrow> n)"

definition incrementUnread :: "jstr \<Rightarrow> ContactsState \<Rightarrow> ContactsState" where
  "incrementUnread i s = s\<lparr>unreadCounts := obj_set i (unread i s + 1) (unreadCounts s)\<rparr>"

definition clearUnread :: "jstr \<Rightarrow> ContactsState \<Rightarrow> ContactsState" where
  "clearUnread i s = s\<lparr>unreadCounts := obj_delete i (unreadCounts s)\<rparr>"

definition upsertPendingInvitation :: "PendingInvitation \<Rightarrow> ContactsState \<Rightarrow> ContactsState" where
  "upsertPendingInvitation invitation s = s\<lparr>pendingInvitations :=
     filter (\<lambda>i. requestId i \<noteq> requestId invitation) (pendingInvitations s) @ [invitation]\<rparr>"

definition removePendingInvitation :: "jstr \<Rightarrow> ContactsState \<Rightarrow> ContactsState" where
  "removePendingInvitation r s = s\<lparr>pendingInvitations := filter (\<lambda>i. requestId i \<noteq> r) (pendingInvitations s)\<rparr>"

definition clearPendingFromUser :: "jstr \<Rightarrow> ContactsState \<Rightarrow> ContactsState" where
  "clearPendingFromUser wid s = s\<lparr>pendingInvitations := filter (\<lambda>i. fromWinkdId i \<noteq> wid) (pendingInvitations s)\<rparr>"

definition setBlockedUsers :: "BlockedUser list \<Rightarrow> ContactsState \<Rightarrow> ContactsState" where
  "setBlockedUsers us s = s\<lparr>blockedUsers := us\<rparr>"

definition upsertBlockedUser :: "BlockedUser \<Rightarrow> ContactsState \<Rightarrow> ContactsState" where
  "upsertBlockedUser blocked s = s\<lparr>blockedUsers :=
     filter (\<lambda>u. bu_userId u \<noteq> bu_userId blocked) (blockedUsers s) @ [blocked]\<rparr>"

definition removeBlockedUser :: "jstr \<Rightarrow> ContactsState \<Rightarrow> ContactsState" where
  "removeBlockedUser i s = s\<lparr>blockedUsers := filter (\<lambda>u. bu_userId u \<noteq> i) (blockedUsers s)\<rparr>"

section \<open>One entry per key\<close>

text \<open>Contacts by id, unread counts by id, invitations by request and blocked users by user.\<close>

definition contacts_inv :: "ContactsState \<Rightarrow> bool" where
  "contacts_inv s \<longleftrightarrow> distinct (map contact_id (contacts s)) \<and> distinct (map fst (unreadCounts s)) \<and>
     distinct (map requestId (pendingInvitations s)) \<and> distinct (map bu_userId (blockedUsers s))"

lemma distinct_upsert: "distinct (map f xs) \<Longrightarrow> distinct (map f (filter (\<lambda>y. f y \<noteq> f x) xs @ [x]))"
  by (auto simp: distinct_map_filter)

lemma map_key_update: "(\<And>c. f (g c) = f c) \<Longrightarrow> map f (map (\<lambda>c. if P c then g c else c) xs) = map f xs"
  by (induction xs) simp_all

lemma contacts_inv_new: "contacts_inv new_contacts"
  by (simp add: contacts_inv_def new_contacts_def)

lemma contacts_inv_ops:
  assumes "contacts_inv s"
  shows "distinct (map contact_id cs) \<Longrightarrow> contacts_inv (setContacts cs s)"
    and "contacts_inv (removeContact i s)"
    and "(\<And>c. contact_id (partial c) = contact_id c) \<Longrightarrow> contacts_inv (updateContact i partial s)"
    and "contacts_inv (updateContactStatus i st s)"
    and "contacts_inv (addAcceptedContact contact s)"
    and "contacts_inv (incrementUnread i s)" and "contacts_inv (clearUnread i s)"
    and "contacts_inv (upsertPendingInvitation iv s)" and "contacts_inv (removePendingInvitation i s)"
    and "contacts_inv (clearPendingFromUser i s)"
    and "distinct (map bu_userId us) \<Longrightarrow> contacts_inv (setBlockedUsers us s)"
    and "contacts_inv (upsertBlockedUser u s)" and "contacts_inv (removeBlockedUser i s)"
proof -
  have "map contact_id (map (\<lambda>c. if contact_id c = contact_id contact then contact else c) cs) = map contact_id cs" for cs
    by (induction cs) simp_all
  then have "distinct (map contact_id (contacts (addAcceptedContact contact s)))"
    using assms by (simp add: contacts_inv_def addAcceptedContact_def del: map_map) auto
  then show "contacts_inv (addAcceptedContact contact s)"
    using assms by (simp add: contacts_inv_def addAcceptedContact_def)
  show "contacts_inv (updateContact i partial s)" if "\<And>c. contact_id (partial c) = contact_id c"
    using assms that by (simp add: contacts_inv_def updateContact_def map_key_update del: map_map)
  show "contacts_inv (updateContactStatus i st s)"
    using assms by (simp add: contacts_inv_def updateContactStatus_def map_key_update del: map_map)
qed (use assms in \<open>auto simp: contacts_inv_def setContacts_def removeContact_def incrementUnread_def clearUnread_def
    upsertPendingInvitation_def removePendingInvitation_def clearPendingFromUser_def setBlockedUsers_def
    upsertBlockedUser_def removeBlockedUser_def distinct_map_filter\<close>)

section \<open>Tables\<close>

text \<open>The buddy list, the invitations and the blocked users are tables by their keys.\<close>

lemma store_tables:
  "contacts (addAcceptedContact c s) = put_in_place contact_id c (contacts s)"
  "contacts (removeContact i s) = del_key contact_id i (contacts s)"
  "pendingInvitations (upsertPendingInvitation iv s) = put_last requestId iv (pendingInvitations s)"
  "pendingInvitations (removePendingInvitation r s) = del_key requestId r (pendingInvitations s)"
  "blockedUsers (upsertBlockedUser u s) = put_last bu_userId u (blockedUsers s)"
  "blockedUsers (removeBlockedUser i s) = del_key bu_userId i (blockedUsers s)"
  by (simp_all add: addAcceptedContact_def removeContact_def upsertPendingInvitation_def removePendingInvitation_def
    upsertBlockedUser_def removeBlockedUser_def put_in_place_def put_last_def del_key_def)

interpretation buddy_list: table contacts_inv "\<lambda>s. entry contact_id (contacts s)" contact_id addAcceptedContact removeContact
  by unfold_locales (simp_all add: contacts_inv_ops store_tables entry_put_in_place entry_del_key)

interpretation invitations: table contacts_inv "\<lambda>s. entry requestId (pendingInvitations s)" requestId
    upsertPendingInvitation removePendingInvitation
  by unfold_locales (simp_all add: contacts_inv_ops store_tables entry_put_last entry_del_key)

interpretation blocked_users: table contacts_inv "\<lambda>s. entry bu_userId (blockedUsers s)" bu_userId
    upsertBlockedUser removeBlockedUser
  by unfold_locales (simp_all add: contacts_inv_ops store_tables entry_put_last entry_del_key)

end
