(* ===== verification/ContactsRefinement.thy ===== *)
theory ContactsRefinement
  imports ContactsStore
begin

text \<open>
  The contacts store and what it promises: finite maps from ids to contacts, requests to invitations and
  users to blocked users, and a count per id. Every sequence of the store's actions does to the store what
  it does to the maps.
\<close>

record contacts_spec =
  sp_contacts :: "jstr \<rightharpoonup> Contact"
  sp_unread :: "jstr \<Rightarrow> int"
  sp_invitations :: "jstr \<rightharpoonup> PendingInvitation"
  sp_blocked :: "jstr \<rightharpoonup> BlockedUser"

definition contacts_abs :: "ContactsState \<Rightarrow> contacts_spec" where
  "contacts_abs s = \<lparr>sp_contacts = entry contact_id (contacts s), sp_unread = (\<lambda>i. unread i s),
     sp_invitations = entry requestId (pendingInvitations s), sp_blocked = entry bu_userId (blockedUsers s)\<rparr>"

datatype contacts_action =
    SetContacts "Contact list" | RemoveContact jstr | UpdateContact jstr "Contact \<Rightarrow> Contact"
  | UpdateContactStatus jstr UserStatus | AddAcceptedContact Contact | IncrementUnread jstr | ClearUnread jstr
  | UpsertInvitation PendingInvitation | RemoveInvitation jstr | ClearPendingFromUser jstr
  | SetBlocked "BlockedUser list" | UpsertBlocked BlockedUser | RemoveBlocked jstr

fun contacts_do :: "contacts_action \<Rightarrow> ContactsState \<Rightarrow> ContactsState" where
  "contacts_do (SetContacts cs) = setContacts cs"
| "contacts_do (RemoveContact i) = removeContact i"
| "contacts_do (UpdateContact i f) = updateContact i f"
| "contacts_do (UpdateContactStatus i st) = updateContactStatus i st"
| "contacts_do (AddAcceptedContact c) = addAcceptedContact c"
| "contacts_do (IncrementUnread i) = incrementUnread i"
| "contacts_do (ClearUnread i) = clearUnread i"
| "contacts_do (UpsertInvitation v) = upsertPendingInvitation v"
| "contacts_do (RemoveInvitation r) = removePendingInvitation r"
| "contacts_do (ClearPendingFromUser w) = clearPendingFromUser w"
| "contacts_do (SetBlocked us) = setBlockedUsers us"
| "contacts_do (UpsertBlocked u) = upsertBlockedUser u"
| "contacts_do (RemoveBlocked i) = removeBlockedUser i"

text \<open>The same on maps.\<close>

fun spec_do :: "contacts_action \<Rightarrow> contacts_spec \<Rightarrow> contacts_spec" where
  "spec_do (SetContacts cs) m = m\<lparr>sp_contacts := map_of (map (\<lambda>c. (contact_id c, c)) cs)\<rparr>"
| "spec_do (RemoveContact i) m = m\<lparr>sp_contacts := (sp_contacts m)(i := None)\<rparr>"
| "spec_do (UpdateContact i f) m = m\<lparr>sp_contacts := (sp_contacts m)(i := map_option f (sp_contacts m i))\<rparr>"
| "spec_do (UpdateContactStatus i st) m =
     m\<lparr>sp_contacts := (sp_contacts m)(i := map_option (\<lambda>c. c\<lparr>status := st\<rparr>) (sp_contacts m i))\<rparr>"
| "spec_do (AddAcceptedContact c) m = m\<lparr>sp_contacts := (sp_contacts m)(contact_id c \<mapsto> c)\<rparr>"
| "spec_do (IncrementUnread i) m = m\<lparr>sp_unread := (sp_unread m)(i := sp_unread m i + 1)\<rparr>"
| "spec_do (ClearUnread i) m = m\<lparr>sp_unread := (sp_unread m)(i := 0)\<rparr>"
| "spec_do (UpsertInvitation v) m = m\<lparr>sp_invitations := (sp_invitations m)(requestId v \<mapsto> v)\<rparr>"
| "spec_do (RemoveInvitation r) m = m\<lparr>sp_invitations := (sp_invitations m)(r := None)\<rparr>"
| "spec_do (ClearPendingFromUser w) m = m\<lparr>sp_invitations := (\<lambda>r. case sp_invitations m r of
     Some v \<Rightarrow> if fromWinkdId v = w then None else Some v | None \<Rightarrow> None)\<rparr>"
| "spec_do (SetBlocked us) m = m\<lparr>sp_blocked := map_of (map (\<lambda>u. (bu_userId u, u)) us)\<rparr>"
| "spec_do (UpsertBlocked u) m = m\<lparr>sp_blocked := (sp_blocked m)(bu_userId u \<mapsto> u)\<rparr>"
| "spec_do (RemoveBlocked i) m = m\<lparr>sp_blocked := (sp_blocked m)(i := None)\<rparr>"

text \<open>A list that is set as a whole has one entry per key, and an update keeps the id.\<close>

fun proper :: "contacts_action \<Rightarrow> bool" where
  "proper (SetContacts cs) = distinct (map contact_id cs)"
| "proper (UpdateContact i f) = (\<forall>c. contact_id (f c) = contact_id c)"
| "proper (SetBlocked us) = distinct (map bu_userId us)"
| "proper _ = True"

lemma contacts_do_inv: "contacts_inv s \<Longrightarrow> proper a \<Longrightarrow> contacts_inv (contacts_do a s)"
  by (cases a) (simp_all add: contacts_inv_ops)

lemma entry_map_of: "entry key xs = map_of (map (\<lambda>x. (key x, x)) xs)"
  by (rule ext) (induction xs; auto)

lemma entry_map_if: "(\<And>x. key (f x) = key x) \<Longrightarrow>
    entry key (map (\<lambda>x. if key x = i then f x else x) xs) = (entry key xs)(i := map_option f (entry key xs i))"
  by (rule ext) (induction xs; auto)

lemma unread_simps:
  "unread j (incrementUnread i s) = (if j = i then unread i s + 1 else unread j s)"
  "unread j (clearUnread i s) = (if j = i then 0 else unread j s)"
  "unread j (s\<lparr>contacts := cs\<rparr>) = unread j s" "unread j (s\<lparr>pendingInvitations := vs\<rparr>) = unread j s"
  "unread j (s\<lparr>blockedUsers := us\<rparr>) = unread j s"
  by (simp_all add: unread_def incrementUnread_def clearUnread_def)

lemma contacts_do_abs:
  assumes "contacts_inv s" and "proper a"
  shows "contacts_abs (contacts_do a s) = spec_do a (contacts_abs s)"
proof (cases a)
  case (ClearPendingFromUser w)
  have "distinct (map requestId (pendingInvitations s))" using assms(1) by (simp add: contacts_inv_def)
  from entry_filter [OF this] show ?thesis
    by (auto simp: ClearPendingFromUser contacts_abs_def clearPendingFromUser_def unread_simps fun_eq_iff split: option.split)
next
  case (UpdateContact i f)
  then show ?thesis using assms entry_map_if [of contact_id f i "contacts s"]
    by (simp add: contacts_abs_def updateContact_def unread_simps)
next
  case (UpdateContactStatus i st)
  then show ?thesis using entry_map_if [of contact_id "\<lambda>c. c\<lparr>status := st\<rparr>" i "contacts s"]
    by (simp add: contacts_abs_def updateContactStatus_def unread_simps)
next
  case (IncrementUnread i)
  then show ?thesis by (simp add: contacts_abs_def unread_simps fun_eq_iff) (simp add: incrementUnread_def)
next
  case (ClearUnread i)
  then show ?thesis by (simp add: contacts_abs_def unread_simps fun_eq_iff) (simp add: clearUnread_def)
next
  case (AddAcceptedContact c)
  then show ?thesis using buddy_list.look_put [OF assms(1), of c]
    by (simp add: contacts_abs_def del: fun_upd_apply) (simp add: addAcceptedContact_def unread_simps)
next
  case (RemoveContact i)
  then show ?thesis using buddy_list.look_del [OF assms(1), of i]
    by (simp add: contacts_abs_def del: fun_upd_apply) (simp add: removeContact_def unread_simps)
next
  case (UpsertInvitation v)
  then show ?thesis using invitations.look_put [OF assms(1), of v]
    by (simp add: contacts_abs_def del: fun_upd_apply) (simp add: upsertPendingInvitation_def unread_simps)
next
  case (RemoveInvitation r)
  then show ?thesis using invitations.look_del [OF assms(1), of r]
    by (simp add: contacts_abs_def del: fun_upd_apply) (simp add: removePendingInvitation_def unread_simps)
next
  case (UpsertBlocked u)
  then show ?thesis using blocked_users.look_put [OF assms(1), of u]
    by (simp add: contacts_abs_def del: fun_upd_apply) (simp add: upsertBlockedUser_def unread_simps)
next
  case (RemoveBlocked i)
  then show ?thesis using blocked_users.look_del [OF assms(1), of i]
    by (simp add: contacts_abs_def del: fun_upd_apply) (simp add: removeBlockedUser_def unread_simps)
next
  case (SetContacts cs)
  then show ?thesis by (simp add: contacts_abs_def setContacts_def unread_simps entry_map_of)
next
  case (SetBlocked us)
  then show ?thesis by (simp add: contacts_abs_def setBlockedUsers_def unread_simps entry_map_of)
qed

end
