(* ===== verification/ContactProperties.thy ===== *)
theory ContactProperties
  imports ContactManager ContactsStore "HOL-Library.Multiset" ContactsRefinement
begin

text \<open>
  The contact list: the groups the list shows and the QR payload.
\<close>

section \<open>Groups\<close>

text \<open>the groups of the contact list. Every accepted contact is in exactly one of the groups online,
  away, busy and offline, as often as it is in the list; the first three hold the contacts of that status,
  offline all others, each group in the order of the list, and no contact that is not accepted is shown.\<close>

theorem getGrouped_partitions:
  shows "mset (g_online (getGrouped m)) + mset (g_away (getGrouped m)) + mset (g_busy (getGrouped m)) +
      mset (g_offline (getGrouped m)) = mset (filter (\<lambda>c. requestStatus c = Accepted) (map snd m)) \<and>
    status ` set (g_online (getGrouped m)) \<subseteq> {Online} \<and> status ` set (g_away (getGrouped m)) \<subseteq> {Away} \<and>
    status ` set (g_busy (getGrouped m)) \<subseteq> {Busy} \<and>
    status ` set (g_offline (getGrouped m)) \<inter> {Online, Away, Busy} = {}"
proof -
  have "mset (filter (\<lambda>c. status c = Online) xs) + mset (filter (\<lambda>c. status c = Away) xs) +
      mset (filter (\<lambda>c. status c = Busy) xs) + mset (filter (\<lambda>c. status c \<notin> {Online, Away, Busy}) xs) = mset xs"
    for xs :: "Contact list"
    by (induction xs) auto
  from this [of "getAll m"] show ?thesis
    by (auto simp: getGrouped_def Let_def activeStatuses_def getAll_def)
qed

section \<open>QR payloads\<close>

lemma encode_uri_path: "encodeURIComponent s = Inr e \<Longrightarrow> c \<in> set e \<Longrightarrow> path_char c"
  using utf16_decode_scalar [of s]
  by (auto simp: encodeURIComponent_def scalar_value_def split: if_splits dest!: uri_char_path [rotated])

lemma decode_dot: "decodeURIComponent (46 # s) = bindR (decodeURIComponent s) (\<lambda>t. Inr (46 # t))"
  by simp

lemma decode_escaped_dot:
  assumes "c = 101 \<or> c = 69"
  shows "decodeURIComponent (37 # 50 # c # s) = bindR (decodeURIComponent s) (\<lambda>t. Inr (46 # t))"
proof -
  have "uri_octets (37 # 50 # c # s) = Some (46, s)"
  proof -
    have hex: "hex_val 50 = Some 2" "hex_val c = Some 14" using assms by (auto simp: hex_val_def)
    have enc: "utf8_encode 46 = [46]" by (simp add: utf8_encode_def)
    have "utf8_decode 0 0 0x80 0xBF [46] = [46]"
      using utf8_decode_encode [of 46 "[]"] by (simp add: enc scalar_value_def)
    with hex enc show ?thesis by (simp add: uri_octets_def octet_count_def)
  qed
  then show ?thesis by (simp add: utf16_encode_def)
qed

lemma decode_dot_segments: "p \<in> set dot_segments \<Longrightarrow> decodeURIComponent p \<in> {Inr (js ''.''), Inr (js ''..'')}"
  by (auto simp: dot_segments_def dots_def js_def decode_dot decode_escaped_dot simp del: decodeURIComponent.simps(2))

lemma encode_uri_dots:
  "well_formed s \<Longrightarrow> encodeURIComponent s = Inr e \<Longrightarrow> e \<in> set dot_segments \<Longrightarrow> s = js ''.'' \<or> s = js ''..''"
  using decode_uri_roundtrip [of s e] decode_dot_segments [of e] by auto

text \<open>The URL standard on the URLs at hand: everything after the prefix is the path.\<close>

definition demo_parseURL :: "jstr \<Rightarrow> (jstr \<times> jstr \<times> jstr) option" where
  "demo_parseURL u = (if take 12 u = js ''winkd://add/''
     then Some (js ''winkd:'', js ''add'', 47 # drop 12 u) else None)"

lemma demo_url_law: "url_law demo_parseURL"
proof -
  have "length (js ''winkd://add/'') = 12" by (simp add: js_def)
  then show ?thesis by (simp add: url_law_def demo_parseURL_def )
qed

text \<open>A scanned QR code gives the id back. For every Winkd ID that is a well-formed string other than
  a dot segment, the payload is built, and parsing it returns that id, under the URL standard.\<close>

theorem qr_payload_roundtrip:
  assumes "url_law parseURL" and "well_formed wid" and "wid \<noteq> js ''.''" and "wid \<noteq> js ''..''"
  shows "\<exists>raw. qrPayload wid = Inr raw \<and> parseQrPayload parseURL raw = Some wid"
proof -
  obtain e where e: "encodeURIComponent wid = Inr e"
    using assms(2) by (simp add: encodeURIComponent_def)
  have "e \<notin> set dot_segments" using encode_uri_dots [OF assms(2) e] assms(3,4) by auto
  with assms(1) encode_uri_path [OF e] have "parseURL (js ''winkd://add/'' @ e) = Some (js ''winkd:'', js ''add'', 47 # e)"
    by (simp add: url_law_def)
  with decode_uri_roundtrip [OF assms(2) e] e show ?thesis
    by (simp add: qrPayload_def parseQrPayload_def)
qed

theorem qr_payload_roundtrip_witness:
  "\<exists>raw. qrPayload (js ''ana#1234'') = Inr raw \<and> parseQrPayload demo_parseURL raw = Some (js ''ana#1234'')"
proof -
  have "well_formed (js ''ana#1234'')" "js ''ana#1234'' \<noteq> js ''.''" "js ''ana#1234'' \<noteq> js ''..''"
    using encodable_js [of "''ana#1234''"] by (simp_all add: encodable_def)
  from qr_payload_roundtrip [OF demo_url_law this] show ?thesis .
qed

section \<open>The contacts store\<close>

text \<open>C26: the contacts store keeps what it promises. From a store with one entry per key, every sequence of its
  actions does to it exactly what the sequence does to the maps it stands for: contacts by id, invitations by
  request, blocked users by user and a count per id that is zero when it was cleared. And it still has one
  entry per key.\<close>

theorem contacts_store_refines_maps:
  assumes "contacts_inv s" and "list_all proper as"
  shows "contacts_abs (fold contacts_do as s) = fold spec_do as (contacts_abs s) \<and> contacts_inv (fold contacts_do as s)"
  using assms by (induction as arbitrary: s) (simp_all add: contacts_do_abs contacts_do_inv)

definition demo_invitation :: PendingInvitation where
  "demo_invitation = \<lparr>requestId = js ''r1'', fromWinkdId = js ''bo#0001'', fromDisplayName = js ''Bo'', fromAvatarData = None\<rparr>"

theorem contacts_store_refines_maps_witness:
  "let s = fold contacts_do [UpsertInvitation demo_invitation, IncrementUnread (js ''bo''), IncrementUnread (js ''bo''),
      ClearPendingFromUser (js ''bo#0001'')] new_contacts in
   sp_invitations (contacts_abs s) (js ''r1'') = None \<and> sp_unread (contacts_abs s) (js ''bo'') = 2"
proof -
  let ?as = "[UpsertInvitation demo_invitation, IncrementUnread (js ''bo''), IncrementUnread (js ''bo''),
      ClearPendingFromUser (js ''bo#0001'')]"
  have run: "contacts_abs (fold contacts_do ?as new_contacts) = fold spec_do ?as (contacts_abs new_contacts)"
    by (rule contacts_store_refines_maps [THEN conjunct1, OF contacts_inv_new]) simp
  have "sp_invitations (fold spec_do ?as (contacts_abs new_contacts)) (js ''r1'') = None \<and>
      sp_unread (fold spec_do ?as (contacts_abs new_contacts)) (js ''bo'') = 2"
    by (simp add: contacts_abs_def new_contacts_def unread_def demo_invitation_def)
  then show ?thesis unfolding Let_def run .
qed

end
