(* ===== verification/JsText.thy ===== *)
theory JsText
  imports Encoding
begin

text \<open>
  The string methods the user interface uses: trim, toLowerCase, startsWith, includes, split on one
  character. \<open>js_lower\<close> is exact on every character whose lower case is or contains an ASCII
  character (A to Z, the Kelvin sign, I with a dot); other letters are left as they are, which no test
  the model makes on its results can see.
\<close>

definition js_trim :: "jstr \<Rightarrow> jstr" where
  "js_trim s = rev (dropWhile js_ws (rev (dropWhile js_ws s)))"

definition js_lower :: "jstr \<Rightarrow> jstr" where
  "js_lower s = concat (map (\<lambda>c. if 65 \<le> unat c \<and> unat c \<le> 90 then [c + 32]
     else if c = 0x212A then [107] else if c = 0x130 then [105, 0x307] else [c]) s)"

definition starts_with :: "jstr \<Rightarrow> jstr \<Rightarrow> bool" where
  "starts_with p s \<longleftrightarrow> take (length p) s = p"

fun js_includes :: "jstr \<Rightarrow> jstr \<Rightarrow> bool" where
  "js_includes sub [] = (sub = [])"
| "js_includes sub (c # s) = (starts_with sub (c # s) \<or> js_includes sub s)"

fun split_on :: "u16 \<Rightarrow> jstr \<Rightarrow> jstr list" where
  "split_on c [] = [[]]"
| "split_on c (x # xs) = (if x = c then [] # split_on c xs
     else (case split_on c xs of [] \<Rightarrow> [[x]] | p # ps \<Rightarrow> (x # p) # ps))"

text \<open>Line terminators, which a dot in a regular expression does not match.\<close>

definition js_newline :: "u16 \<Rightarrow> bool" where
  "js_newline c \<longleftrightarrow> c = 10 \<or> c = 13 \<or> c = 0x2028 \<or> c = 0x2029"

lemma starts_with_append [simp]: "starts_with p (p @ s)"
  by (simp add: starts_with_def)

lemma starts_with_iff: "starts_with p s \<longleftrightarrow> (\<exists>r. s = p @ r)"
  unfolding starts_with_def by (metis append_eq_conv_conj append_take_drop_id)

lemma js_trim_Nil [simp]: "js_trim [] = []"
  by (simp add: js_trim_def)

lemma trim_plain:
  assumes "\<forall>c \<in> set s. \<not> js_ws c"
  shows "js_trim s = s"
proof -
  have drop: "dropWhile js_ws t = t" if "\<forall>c \<in> set t. \<not> js_ws c" for t
    using that by (cases t) simp_all
  show ?thesis using assms by (simp add: js_trim_def drop)
qed

lemma js_lower_append: "js_lower (s @ t) = js_lower s @ js_lower t"
  by (simp add: js_lower_def)

lemma js_trim_ends: "js_trim s \<noteq> [] \<Longrightarrow> \<not> js_ws (hd (js_trim s)) \<and> \<not> js_ws (last (js_trim s))"
proof -
  let ?t = "dropWhile js_ws s" and ?u = "dropWhile js_ws (rev (dropWhile js_ws s))"
  assume ne: "js_trim s \<noteq> []"
  then have u: "?u \<noteq> []" by (simp add: js_trim_def)
  then have "\<not> js_ws (hd ?u)" by (rule hd_dropWhile)
  then have last: "\<not> js_ws (last (js_trim s))" using u by (simp add: js_trim_def last_rev)
  have t: "?t \<noteq> []" using u by (metis dropWhile.simps(1) rev.simps(1))
  obtain w where w: "rev ?t = w @ ?u" by (metis takeWhile_dropWhile_id)
  then have "?t = rev ?u @ rev w" by (metis rev_append rev_rev_ident)
  then have "hd (rev ?u) = hd ?t" using u by (metis hd_append rev_is_Nil_conv)
  then have "\<not> js_ws (hd (js_trim s))" using hd_dropWhile [OF t] by (simp add: js_trim_def)
  with last show ?thesis by simp
qed

lemma js_trim_infix: "\<exists>a b. s = a @ js_trim s @ b \<and> (\<forall>c \<in> set a \<union> set b. js_ws c)"
proof -
  let ?t = "dropWhile js_ws s" and ?u = "dropWhile js_ws (rev (dropWhile js_ws s))"
  have "s = takeWhile js_ws s @ ?t" by simp
  moreover have "?t = rev ?u @ rev (takeWhile js_ws (rev ?t))"
    by (metis rev_append rev_rev_ident takeWhile_dropWhile_id)
  ultimately have "s = takeWhile js_ws s @ js_trim s @ rev (takeWhile js_ws (rev ?t))"
    by (simp add: js_trim_def)
  then show ?thesis by (metis (no_types, lifting) Un_iff set_rev set_takeWhileD)
qed

lemma split_on_not_Nil [simp]: "split_on c s \<noteq> []"
  by (cases s) (auto split: list.split)

end
