(* ===== verification/JsonValues.thy ===== *)
theory JsonValues
  imports Json JsText
begin

text \<open>
  What the sources do with the values they read out of JSON: \<open>??\<close>, \<open>String\<close>, \<open>Boolean\<close> and the typeof tests.
\<close>

text \<open>\<open>a ?? b\<close>, \<open>String(x)\<close> and \<open>Boolean(x)\<close>. (A number literal that is not an integer keeps its text.)\<close>

definition nullish :: "json option \<Rightarrow> bool" where
  "nullish v \<longleftrightarrow> v = None \<or> v = Some JNull"

definition coalesce :: "json option \<Rightarrow> json option \<Rightarrow> json option" where
  "coalesce a b = (if nullish a then b else a)"

fun js_String :: "json \<Rightarrow> jstr" where
  "js_String JNull = js ''null''"
| "js_String (JBool b) = js (if b then ''true'' else ''false'')"
| "js_String (JInt i) = js_int i"
| "js_String (JNum t) = t"
| "js_String (JStr s) = s"
| "js_String (JArr vs) = join 44 (map (\<lambda>v. if v = JNull then [] else js_String v) vs)"
| "js_String (JObj fs) = js ''[object Object]''"

definition num_zero :: "jstr \<Rightarrow> bool" where
  "num_zero t \<longleftrightarrow> (\<forall>c \<in> set (takeWhile (\<lambda>c. c \<noteq> 101 \<and> c \<noteq> 69) t). c = 48 \<or> c = 46 \<or> c = 45)"

definition js_Boolean :: "json option \<Rightarrow> bool" where
  "js_Boolean v = (case v of None \<Rightarrow> False | Some JNull \<Rightarrow> False | Some (JBool b) \<Rightarrow> b | Some (JInt i) \<Rightarrow> i \<noteq> 0
     | Some (JNum t) \<Rightarrow> \<not> num_zero t | Some (JStr s) \<Rightarrow> s \<noteq> [] | _ \<Rightarrow> True)"

definition string_of :: "json option \<Rightarrow> jstr option" where
  "string_of v = (case v of Some (JStr s) \<Rightarrow> Some s | _ \<Rightarrow> None)"

definition number_of :: "json option \<Rightarrow> json option" where
  "number_of v = (case v of Some (JInt i) \<Rightarrow> Some (JInt i) | Some (JNum t) \<Rightarrow> Some (JNum t) | _ \<Rightarrow> None)"

text \<open>Optional chaining: \<open>v?.k\<close>.\<close>

definition json_chain :: "json option \<Rightarrow> string \<Rightarrow> json option" where
  "json_chain v k = (case v of None \<Rightarrow> None | Some j \<Rightarrow> json_get j (js k))"

end
