(* ===== verification/AuthStore.thy ===== *)
theory AuthStore
  imports WinkdTypes
begin

text \<open>
  apps/web/src/stores/authStore.ts: the session of the signed-in user. React compares the session
  object by identity, so the state also numbers the objects: \<open>session_obj\<close> changes exactly when
  \<open>set\<close> puts a newly built object there. (The persist middleware, which mirrors the state to local
  storage, is a library and not modelled.)
\<close>

datatype tier = Free | Plus

record SupporterState =
  supporter_tier :: tier
  purchasedExtras :: "jstr list"
  buddyCap :: "json option"
  buddyUsed :: json
  groupChatUnlocked :: bool
  supporterExpiresAt :: "jstr option"

record Session =
  token :: jstr
  profile :: OwnProfile
  supporter :: SupporterState

record AuthState =
  session :: "Session option"
  session_obj :: nat

definition defaultSupporterState :: SupporterState where
  "defaultSupporterState = \<lparr>supporter_tier = Free, purchasedExtras = [], buddyCap = None, buddyUsed = JInt 0,
     groupChatUnlocked = False, supporterExpiresAt = None\<rparr>"

definition set_session :: "Session option \<Rightarrow> AuthState \<Rightarrow> AuthState" where
  "set_session x s = s\<lparr>session := x, session_obj := session_obj s + 1\<rparr>"

definition login :: "jstr \<Rightarrow> OwnProfile \<Rightarrow> AuthState \<Rightarrow> AuthState" where
  "login t p s = set_session (Some \<lparr>token = t, profile = p, supporter = defaultSupporterState\<rparr>) s"

definition logout :: "AuthState \<Rightarrow> AuthState" where
  "logout s = set_session None s"

text \<open>A partial object is the function that overwrites its properties.\<close>

definition updateProfile :: "(OwnProfile \<Rightarrow> OwnProfile) \<Rightarrow> AuthState \<Rightarrow> AuthState" where
  "updateProfile partial s = (case session s of None \<Rightarrow> s
     | Some x \<Rightarrow> set_session (Some (x\<lparr>profile := partial (profile x)\<rparr>)) s)"

definition setSupporterState :: "(SupporterState \<Rightarrow> SupporterState) \<Rightarrow> AuthState \<Rightarrow> AuthState" where
  "setSupporterState partial s = (case session s of None \<Rightarrow> s
     | Some x \<Rightarrow> set_session (Some (x\<lparr>supporter := partial (supporter x)\<rparr>)) s)"

end
