(* ===== verification/ChatStore.thy ===== *)
theory ChatStore
  imports WinkdTypes
begin

text \<open>
  apps/web/src/stores/chatStore.ts: the conversations and which one is open. The actions that send
  return the command they hand to the socket; the identifier and the time of a new message, which
  crypto.randomUUID and Date supply, are arguments.

  A conversation is a plain object. The spread of a missing conversation is empty, so an action on an
  unknown id leaves an object without the other properties; a property that is not there is \<open>None\<close>.
\<close>

record Conversation =
  conv_id :: "jstr option"
  conv_contactId :: "jstr option"
  conv_messages :: "Message list option"
  isShaking :: "bool option"

record ChatState =
  conversations :: "Conversation obj"
  activeConversationId :: "jstr option"

definition empty_conversation :: Conversation where
  "empty_conversation = \<lparr>conv_id = None, conv_contactId = None, conv_messages = None, isShaking = None\<rparr>"

definition new_chat :: ChatState where
  "new_chat = \<lparr>conversations = [], activeConversationId = None\<rparr>"

definition find_conv :: "jstr \<Rightarrow> ChatState \<Rightarrow> Conversation option" where
  "find_conv cid s = map_of (conversations s) cid"

definition spread_conv :: "jstr \<Rightarrow> ChatState \<Rightarrow> Conversation" where
  "spread_conv cid s = (case find_conv cid s of None \<Rightarrow> empty_conversation | Some c \<Rightarrow> c)"

definition messages_of :: "jstr \<Rightarrow> ChatState \<Rightarrow> Message list" where
  "messages_of cid s = (case conv_messages (spread_conv cid s) of None \<Rightarrow> [] | Some ms \<Rightarrow> ms)"

section \<open>Opening and closing\<close>

definition openConversation :: "jstr \<Rightarrow> ChatState \<Rightarrow> ChatState" where
  "openConversation contactId s =
     (case find (\<lambda>c. conv_contactId c = Some contactId) (map snd (conversations s)) of
        Some existing \<Rightarrow> s\<lparr>activeConversationId := conv_id existing\<rparr>
      | None \<Rightarrow> s\<lparr>conversations := obj_set contactId
            \<lparr>conv_id = Some contactId, conv_contactId = Some contactId, conv_messages = Some [], isShaking = Some False\<rparr>
            (conversations s), activeConversationId := Some contactId\<rparr>)"

definition closeConversation :: "ChatState \<Rightarrow> ChatState" where
  "closeConversation s = s\<lparr>activeConversationId := None\<rparr>"

section \<open>Sending\<close>

definition append_message :: "Message \<Rightarrow> ChatState \<Rightarrow> ChatState" where
  "append_message msg s = s\<lparr>conversations := obj_set (conversationId msg)
     ((spread_conv (conversationId msg) s)\<lparr>conv_messages := Some (messages_of (conversationId msg) s @ [msg])\<rparr>)
     (conversations s)\<rparr>"

definition base_message :: "jstr \<Rightarrow> jstr \<Rightarrow> jstr \<Rightarrow> jstr \<Rightarrow> MessageType \<Rightarrow> Message" where
  "base_message i now cid sender ty = \<lparr>msg_id = i, conversationId = cid, senderId = sender, msg_type = ty,
     sentAt = now, delivered = False, msg_read = False, m_body = Absent, mediaData = Absent, mediaUrl = Absent,
     mediaName = Absent, mediaMime = Absent, mediaSize = Absent, packId = Absent, animationId = Absent\<rparr>"

definition sendText :: "jstr \<Rightarrow> jstr \<Rightarrow> jstr \<Rightarrow> jstr \<Rightarrow> jstr \<Rightarrow> ChatState \<Rightarrow> (ClientCommandType \<times> Message) \<times> ChatState" where
  "sendText i now cid sender body s = (let msg = (base_message i now cid sender TText)\<lparr>m_body := Val body\<rparr> in
     ((CmdSendMessage, msg), append_message msg s))"

record Attachment =
  a_mediaData :: jstr
  a_mediaName :: jstr
  a_mediaMime :: jstr
  a_mediaSize :: json
  a_body :: "jstr option"

text \<open>The default body: a paper clip (U+1F4CE), a space and the file name.\<close>

definition paperclip :: "jstr \<Rightarrow> jstr" where
  "paperclip name = [0xD83D, 0xDCCE, 32] @ name"

definition sendAttachment :: "jstr \<Rightarrow> jstr \<Rightarrow> jstr \<Rightarrow> jstr \<Rightarrow> Attachment \<Rightarrow> ChatState \<Rightarrow> (ClientCommandType \<times> Message) \<times> ChatState" where
  "sendAttachment i now cid sender a s = (let msg = (base_message i now cid sender TText)\<lparr>
       m_body := Val (case a_body a of None \<Rightarrow> paperclip (a_mediaName a) | Some b \<Rightarrow> b),
       mediaData := Val (a_mediaData a), mediaName := Val (a_mediaName a), mediaMime := Val (a_mediaMime a),
       mediaSize := Val (a_mediaSize a)\<rparr> in
     ((CmdSendMessage, msg), append_message msg s))"

definition sendWinkd :: "jstr \<Rightarrow> jstr \<Rightarrow> jstr \<Rightarrow> jstr \<Rightarrow> ChatState \<Rightarrow> (ClientCommandType \<times> Message) \<times> ChatState" where
  "sendWinkd i now cid sender s = (let msg = base_message i now cid sender TWinkd in
     ((CmdSendMessage, msg), append_message msg s))"

definition sendNudge :: "jstr \<Rightarrow> jstr \<Rightarrow> jstr \<Rightarrow> jstr \<Rightarrow> ChatState \<Rightarrow> (ClientCommandType \<times> Message) \<times> ChatState" where
  "sendNudge i now cid sender s = (let msg = base_message i now cid sender TNudge in
     ((CmdSendMessage, msg), append_message msg s))"

section \<open>Receiving\<close>

fun replace_first :: "('a \<Rightarrow> bool) \<Rightarrow> ('a \<Rightarrow> 'a) \<Rightarrow> 'a list \<Rightarrow> 'a list" where
  "replace_first p f [] = []"
| "replace_first p f (x # xs) = (if p x then f x # xs else x # replace_first p f xs)"

definition merge_message :: "Message \<Rightarrow> Message list \<Rightarrow> Message list" where
  "merge_message message ms = (if \<exists>m \<in> set ms. msg_id m = msg_id message
     then replace_first (\<lambda>m. msg_id m = msg_id message) (\<lambda>m. spread_message m message) ms
     else ms @ [message])"

definition receiveMessage :: "Message \<Rightarrow> ChatState \<Rightarrow> ChatState" where
  "receiveMessage message s = (let cid = conversationId message in
     s\<lparr>conversations := obj_set cid
       \<lparr>conv_id = Some cid,
        conv_contactId = (case conv_contactId (spread_conv cid s) of None \<Rightarrow> Some (senderId message) | x \<Rightarrow> x),
        conv_messages = Some (merge_message message (messages_of cid s)),
        isShaking = Some (msg_type message = TWinkd)\<rparr> (conversations s)\<rparr>)"

text \<open>Throws (a TypeError) when the conversation is there without its list of messages.\<close>

definition markMessageDelivered :: "jstr \<Rightarrow> jstr \<Rightarrow> ChatState \<Rightarrow> error + ChatState" where
  "markMessageDelivered cid mid s = (case find_conv cid s of None \<Rightarrow> Inr s
     | Some conv \<Rightarrow> (case conv_messages conv of None \<Rightarrow> Inl TypeErr
       | Some ms \<Rightarrow> Inr (s\<lparr>conversations := obj_set cid
           (conv\<lparr>conv_messages := Some (map (\<lambda>m. if msg_id m = mid then m\<lparr>delivered := True\<rparr> else m) ms)\<rparr>)
           (conversations s)\<rparr>)))"

definition clearShaking :: "jstr \<Rightarrow> ChatState \<Rightarrow> ChatState" where
  "clearShaking cid s = s\<lparr>conversations := obj_set cid ((spread_conv cid s)\<lparr>isShaking := Some False\<rparr>) (conversations s)\<rparr>"

end
