(* ===== verification/UseSocket.thy ===== *)
theory UseSocket
  imports JsonValues WinkdClient AuthStore ChatStore ContactsStore
begin

text \<open>
  apps/web/src/hooks/useSocket.ts: the React hook that owns the web client's WebSocket. Its state is
  every socket it made, the ref \<open>wsRef\<close>, which socket the last effect will clean up and for which
  session it ran, and the three stores. Each socket keeps what its handlers closed over: the session
  object and the open conversation at the time its effect ran. \<open>commit\<close> is a render whose effects run.

  The server's payloads are cast without a check. The model reads the fields at their declared types
  and drops an event whose fields have others. In the message event, where the code itself tests and
  converts, the tests are modelled as they are.
\<close>

section \<open>State\<close>

record hook_socket = websocket +
  authed :: bool
  cl_session :: Session
  cl_active :: "jstr option"

record hook =
  hook_sockets :: "hook_socket list"
  wsRef :: "nat option"
  mounted :: "nat option"
  last_dep :: "nat option option"
  auth :: AuthState
  chat :: ChatState
  buddies :: ContactsState

definition hook_ready :: "hook \<Rightarrow> nat \<Rightarrow> readyState" where
  "hook_ready h i = (if i < length (hook_sockets h) then ready (hook_sockets h ! i) else CLOSED)"

definition upd_socket :: "nat \<Rightarrow> (hook_socket \<Rightarrow> hook_socket) \<Rightarrow> hook \<Rightarrow> hook" where
  "upd_socket i f h = (if i < length (hook_sockets h)
     then h\<lparr>hook_sockets := (hook_sockets h)[i := f (hook_sockets h ! i)]\<rparr> else h)"

definition hook_ws_send :: "nat \<Rightarrow> jstr \<Rightarrow> hook \<Rightarrow> hook" where
  "hook_ws_send i data h = (if hook_ready h i = OPEN then upd_socket i (\<lambda>so. so\<lparr>ws_sent := ws_sent so @ [data]\<rparr>) h else h)"

definition close_socket :: "nat \<Rightarrow> hook \<Rightarrow> hook" where
  "close_socket i h = (if hook_ready h i = CONNECTING \<or> hook_ready h i = OPEN
     then upd_socket i (ready_update (\<lambda>_. CLOSING)) h else h)"

section \<open>send and the effect\<close>

definition hook_send :: "json \<Rightarrow> hook \<Rightarrow> hook" where
  "hook_send payload h = (case wsRef h of None \<Rightarrow> h | Some i \<Rightarrow> hook_ws_send i (json_stringify payload) h)"

text \<open>The dependency that changes: the session object, or null.\<close>

definition session_dep :: "AuthState \<Rightarrow> nat option" where
  "session_dep a = (case session a of None \<Rightarrow> None | Some _ \<Rightarrow> Some (session_obj a))"

definition cleanup :: "hook \<Rightarrow> hook" where
  "cleanup h = (case mounted h of None \<Rightarrow> h | Some i \<Rightarrow> (close_socket i h)\<lparr>wsRef := None, mounted := None\<rparr>)"

definition run_effect :: "hook \<Rightarrow> hook" where
  "run_effect h = (case session (auth h) of None \<Rightarrow> h
     | Some s \<Rightarrow> (let n = length (hook_sockets h) in
         h\<lparr>hook_sockets := hook_sockets h @ [\<lparr>ready = CONNECTING, ws_sent = [], authed = False, cl_session = s,
             cl_active = activeConversationId (chat h)\<rparr>],
           wsRef := Some n, mounted := Some n\<rparr>))"

definition commit :: "hook \<Rightarrow> hook" where
  "commit h = (if last_dep h = Some (session_dep (auth h)) then h
     else (run_effect (cleanup h))\<lparr>last_dep := Some (session_dep (auth h))\<rparr>)"

section \<open>Reading payloads\<close>

text \<open>A string property, by its camel case name or else by its snake case name.\<close>

definition either_name :: "(json option \<Rightarrow> 'a option) \<Rightarrow> json \<Rightarrow> string \<Rightarrow> string \<Rightarrow> 'a js_prop" where
  "either_name f raw a b = (case f (json_get raw (js a)) of Some x \<Rightarrow> Val x
     | None \<Rightarrow> (case f (json_get raw (js b)) of Some x \<Rightarrow> Val x | None \<Rightarrow> Undef))"

definition text_field :: "json \<Rightarrow> string \<Rightarrow> string \<Rightarrow> jstr \<Rightarrow> jstr" where
  "text_field raw a b d = (case coalesce (json_get raw (js a)) (json_get raw (js b)) of
     None \<Rightarrow> d | Some JNull \<Rightarrow> d | Some v \<Rightarrow> js_String v)"

section \<open>auth_ok\<close>

definition auth_supporter :: "json \<Rightarrow> SupporterState" where
  "auth_supporter p = \<lparr>
     supporter_tier = (case string_of (json_get p (js ''tier'')) of
         Some t \<Rightarrow> if js_lower (js_trim t) = js ''plus'' then Plus else Free | None \<Rightarrow> Free),
     purchasedExtras = (case json_get p (js ''purchased_extras'') of
         Some (JArr vs) \<Rightarrow> List.map_filter (\<lambda>v. string_of (Some v)) vs | _ \<Rightarrow> []),
     buddyCap = number_of (json_get p (js ''buddy_cap'')),
     buddyUsed = (case number_of (json_get p (js ''buddy_used'')) of None \<Rightarrow> JInt 0 | Some n \<Rightarrow> n),
     groupChatUnlocked = js_Boolean (json_get p (js ''group_chat_unlocked'')),
     supporterExpiresAt = string_of (json_get p (js ''supporter_expires_at''))\<rparr>"

section \<open>Messages\<close>

definition message_of :: "json \<Rightarrow> jstr \<Rightarrow> Message" where
  "message_of raw now = \<lparr>
     msg_id = text_field raw ''id'' ''id'' [],
     conversationId = text_field raw ''conversationId'' ''conversation_id'' [],
     senderId = text_field raw ''senderId'' ''sender_id'' [],
     msg_type = type_of_message (text_field raw ''type'' ''type'' []),
     sentAt = text_field raw ''sentAt'' ''sent_at'' now,
     delivered = js_Boolean (json_get raw (js ''delivered'')),
     msg_read = js_Boolean (json_get raw (js ''read'')),
     m_body = either_name string_of raw ''body'' ''body'',
     mediaData = either_name string_of raw ''mediaData'' ''media_data'',
     mediaUrl = either_name string_of raw ''mediaUrl'' ''media_url'',
     mediaName = either_name string_of raw ''mediaName'' ''media_name'',
     mediaMime = either_name string_of raw ''mediaMime'' ''media_mime'',
     mediaSize = either_name number_of raw ''mediaSize'' ''media_size'',
     packId = Absent, animationId = Absent\<rparr>"

definition on_message_event :: "hook_socket \<Rightarrow> json \<Rightarrow> jstr \<Rightarrow> hook \<Rightarrow> hook" where
  "on_message_event so raw now h = (let msg = message_of raw now in
     if msg_id msg = [] \<or> conversationId msg = [] \<or> senderId msg = [] then h
     else let h1 = h\<lparr>chat := receiveMessage msg (chat h)\<rparr> in
       if senderId msg \<noteq> winkdId (profile (cl_session so)) \<and> cl_active so \<noteq> Some (conversationId msg)
       then h1\<lparr>buddies := incrementUnread (senderId msg) (buddies h1)\<rparr> else h1)"

section \<open>Contact events\<close>

definition sfield :: "json \<Rightarrow> string \<Rightarrow> jstr option" where
  "sfield p k = string_of (json_get p (js k))"

text \<open>An optional nullable string, \<open>?? null\<close>, and one with a default, \<open>?? ''\<close>.\<close>

definition nfield :: "json \<Rightarrow> string \<Rightarrow> jstr option option" where
  "nfield p k = (case json_get p (js k) of None \<Rightarrow> Some None | Some JNull \<Rightarrow> Some None
     | Some (JStr s) \<Rightarrow> Some (Some s) | _ \<Rightarrow> None)"

definition contact_of :: "jstr \<Rightarrow> jstr \<Rightarrow> jstr \<Rightarrow> UserStatus \<Rightarrow> jstr option \<Rightarrow> ContactRequestStatus \<Rightarrow> Contact" where
  "contact_of wid name mood st avatar rs = \<lparr>winkdId = wid, displayName = name, moodMessage = mood, status = st,
     avatarData = avatar, contact_id = wid, requestStatus = rs, unreadCount = 0, lastMessageAt = None\<rparr>"

definition invitation_of :: "json \<Rightarrow> PendingInvitation option" where
  "invitation_of p = (case (sfield p ''request_id'', sfield p ''from_winkd_id'', sfield p ''from_display_name'', nfield p ''from_avatar_data'') of
     (Some r, Some w, Some d, Some a) \<Rightarrow> Some \<lparr>requestId = r, fromWinkdId = w, fromDisplayName = d, fromAvatarData = a\<rparr>
   | _ \<Rightarrow> None)"

definition accepted_of :: "json \<Rightarrow> Contact option" where
  "accepted_of p = (case (sfield p ''winkd_id'', sfield p ''display_name'', nfield p ''mood_message'', nfield p ''avatar_data'') of
     (Some w, Some d, Some m, Some a) \<Rightarrow>
        Some (contact_of w d (case m of None \<Rightarrow> [] | Some t \<Rightarrow> t) Online a Accepted)
   | _ \<Rightarrow> None)"

definition snapshot_contact :: "json \<Rightarrow> Contact option" where
  "snapshot_contact p = (case (sfield p ''winkd_id'', sfield p ''display_name'', nfield p ''mood_message'', nfield p ''avatar_data'', sfield p ''request_status'') of
     (Some w, Some d, Some m, Some a, Some r) \<Rightarrow>
        Some (contact_of w d (case m of None \<Rightarrow> [] | Some t \<Rightarrow> t)
          (if r = js ''accepted'' then Online else Invisible) a (request_of r))
   | _ \<Rightarrow> None)"

definition sent_contact :: "json \<Rightarrow> Contact option" where
  "sent_contact p = (case (sfield p ''to_winkd_id'', sfield p ''to_display_name'', nfield p ''to_avatar_data'') of
     (Some w, Some d, Some a) \<Rightarrow> Some (contact_of w d [] Invisible a PendingOutbound) | _ \<Rightarrow> None)"

definition blocked_of :: "json \<Rightarrow> BlockedUser option" where
  "blocked_of p = (case (sfield p ''user_id'', sfield p ''winkd_id'', sfield p ''display_name'', nfield p ''avatar_data'', sfield p ''blocked_at'') of
     (Some u, Some w, Some d, Some a, Some b) \<Rightarrow>
        Some \<lparr>bu_userId = u, bu_winkdId = w, bu_displayName = d, bu_avatarData = a, blockedAt = b\<rparr>
   | _ \<Rightarrow> None)"

definition all_of :: "(json \<Rightarrow> 'a option) \<Rightarrow> json \<Rightarrow> string \<Rightarrow> 'a list option" where
  "all_of f p k = (case json_get p (js k) of
     Some (JArr vs) \<Rightarrow> (if \<forall>v \<in> set vs. f v \<noteq> None then Some (map (\<lambda>v. the (f v)) vs) else None)
   | _ \<Rightarrow> None)"

definition on_buddies :: "(ContactsState \<Rightarrow> ContactsState) \<Rightarrow> hook \<Rightarrow> hook" where
  "on_buddies f h = h\<lparr>buddies := f (buddies h)\<rparr>"

definition on_contact_blocked :: "hook_socket \<Rightarrow> json \<Rightarrow> hook \<Rightarrow> hook" where
  "on_contact_blocked so p h = (case (nfield p ''request_id'', blocked_of p) of
     (Some r, Some u) \<Rightarrow> (let
        h1 = (case r of Some x \<Rightarrow> if x \<noteq> [] then on_buddies (removePendingInvitation x) h else h | None \<Rightarrow> h);
        h2 = on_buddies (upsertBlockedUser u) h1;
        h3 = (if cl_active so = Some (bu_winkdId u) then h2\<lparr>chat := closeConversation (chat h2)\<rparr> else h2)
        in on_buddies (removeContact (bu_winkdId u)) h3)
   | _ \<Rightarrow> h)"

definition on_delivery_receipt :: "json \<Rightarrow> hook \<Rightarrow> hook" where
  "on_delivery_receipt p h = (case (sfield p ''message_id'', sfield p ''conversation_id'') of
     (Some m, Some c) \<Rightarrow> (if m = [] \<or> c = [] then h
        else case markMessageDelivered c m (chat h) of Inl _ \<Rightarrow> h | Inr s \<Rightarrow> h\<lparr>chat := s\<rparr>)
   | _ \<Rightarrow> h)"

definition handle_event :: "hook_socket \<Rightarrow> jstr \<Rightarrow> json \<Rightarrow> jstr \<Rightarrow> hook \<Rightarrow> hook" where
  "handle_event so ev p now h =
     (if ev = js ''message'' then on_message_event so p now h
      else if ev = js ''presence'' then (case (sfield p ''userId'', sfield p ''status'') of
          (Some u, Some st) \<Rightarrow> on_buddies (updateContactStatus u (status_of st)) h | _ \<Rightarrow> h)
      else if ev = js ''contact_request'' then (case invitation_of p of
          Some x \<Rightarrow> on_buddies (upsertPendingInvitation x) h | None \<Rightarrow> h)
      else if ev = js ''contact_accepted'' then (case accepted_of p of
          Some c \<Rightarrow> on_buddies (\<lambda>b. addAcceptedContact c (clearPendingFromUser (winkdId c) b)) h | None \<Rightarrow> h)
      else if ev = js ''contacts_snapshot'' then (case all_of snapshot_contact p ''contacts'' of
          Some cs \<Rightarrow> on_buddies (setContacts cs) h | None \<Rightarrow> h)
      else if ev = js ''contact_request_rejected'' then (case sfield p ''request_id'' of
          Some r \<Rightarrow> on_buddies (removePendingInvitation r) h | None \<Rightarrow> h)
      else if ev = js ''blocked_list'' then (case all_of blocked_of p ''users'' of
          Some us \<Rightarrow> on_buddies (setBlockedUsers us) h | None \<Rightarrow> h)
      else if ev = js ''contact_blocked'' then on_contact_blocked so p h
      else if ev = js ''contact_unblocked'' then (case sfield p ''user_id'' of
          Some u \<Rightarrow> on_buddies (removeBlockedUser u) h | None \<Rightarrow> h)
      else if ev = js ''contact_request_sent'' then (case sent_contact p of
          Some c \<Rightarrow> on_buddies (addAcceptedContact c) h | None \<Rightarrow> h)
      else if ev = js ''delivery_receipt'' then on_delivery_receipt p h
      else h)"

section \<open>The socket's callbacks\<close>

definition hook_onopen :: "nat \<Rightarrow> hook \<Rightarrow> hook" where
  "hook_onopen i h = hook_ws_send i (auth_frame (token (cl_session (hook_sockets h ! i)))) h"

definition hook_onmessage :: "nat \<Rightarrow> jstr \<Rightarrow> jstr \<Rightarrow> hook \<Rightarrow> hook" where
  "hook_onmessage i data now h = (case json_parse data of
     Inl _ \<Rightarrow> h
   | Inr envelope \<Rightarrow> (let so = hook_sockets h ! i in
       if \<not> authed so then
         (if is_auth_ok envelope
          then (upd_socket i (authed_update (\<lambda>_. True)) h)\<lparr>auth := setSupporterState (\<lambda>_. auth_supporter envelope) (auth h)\<rparr>
          else h)
       else (case json_get envelope (js ''event'') of
          Some (JStr ev) \<Rightarrow> handle_event so ev
            (case json_get envelope (js ''payload'') of None \<Rightarrow> JNull | Some p \<Rightarrow> p) now h
        | _ \<Rightarrow> h)))"

definition hook_onclose :: "nat \<Rightarrow> int \<Rightarrow> hook \<Rightarrow> hook" where
  "hook_onclose i code h = (let h1 = h\<lparr>wsRef := None\<rparr> in
     if code = 4001 then h1\<lparr>auth := logout (auth h1)\<rparr> else h1)"

definition hook_onerror :: "nat \<Rightarrow> hook \<Rightarrow> hook" where
  "hook_onerror i h = h\<lparr>wsRef := None\<rparr>"

section \<open>Runs\<close>

text \<open>The component that uses the hook stays mounted. The time is the one \<open>new Date\<close> would give; other code may change the stores between events.\<close>

datatype hook_event = Commit | HSend json | HOpened nat | HReceived nat jstr jstr | HClosed nat int | HError nat
  | StoreAuth AuthState | StoreChat ChatState | StoreContacts ContactsState

fun hook_enabled :: "hook \<Rightarrow> hook_event \<Rightarrow> bool" where
  "hook_enabled h (HOpened i) \<longleftrightarrow> hook_ready h i = CONNECTING"
| "hook_enabled h (HReceived i _ _) \<longleftrightarrow> hook_ready h i = OPEN"
| "hook_enabled h (HClosed i _) \<longleftrightarrow> i < length (hook_sockets h) \<and> hook_ready h i \<noteq> CLOSED"
| "hook_enabled h (HError i) \<longleftrightarrow> i < length (hook_sockets h) \<and> hook_ready h i \<noteq> CLOSED"
| "hook_enabled h _ \<longleftrightarrow> True"

fun hook_handle :: "hook_event \<Rightarrow> hook \<Rightarrow> hook" where
  "hook_handle Commit h = commit h"
| "hook_handle (HSend p) h = hook_send p h"
| "hook_handle (HOpened i) h = hook_onopen i (upd_socket i (ready_update (\<lambda>_. OPEN)) h)"
| "hook_handle (HReceived i d now) h = hook_onmessage i d now h"
| "hook_handle (HClosed i code) h = hook_onclose i code (upd_socket i (ready_update (\<lambda>_. CLOSED)) h)"
| "hook_handle (HError i) h = hook_onerror i h"
| "hook_handle (StoreAuth a) h = h\<lparr>auth := a\<rparr>"
| "hook_handle (StoreChat c) h = h\<lparr>chat := c\<rparr>"
| "hook_handle (StoreContacts b) h = h\<lparr>buddies := b\<rparr>"

abbreviation hook_run :: "hook \<Rightarrow> hook_event list \<Rightarrow> hook \<Rightarrow> bool" where
  "hook_run \<equiv> runs hook_enabled hook_handle"

abbreviation hook_drive :: "hook_event list \<Rightarrow> hook \<Rightarrow> hook option" where
  "hook_drive \<equiv> execute hook_enabled hook_handle"

definition fresh_hook :: "AuthState \<Rightarrow> ChatState \<Rightarrow> ContactsState \<Rightarrow> hook" where
  "fresh_hook a c b = \<lparr>hook_sockets = [], wsRef = None, mounted = None, last_dep = None, auth = a, chat = c,
     buddies = b\<rparr>"

lemmas hook_drive_append = execute_append [of hook_enabled hook_handle]
lemmas hook_one_more = runs.one_more [of hook_enabled hook_handle]
lemmas hook_drive_run = execute_run [of hook_enabled hook_handle]
lemmas hook_run_drive = runs_execute [of hook_enabled hook_handle]

section \<open>What an event leaves alone\<close>

lemma upd_socket_fields [simp]:
  "wsRef (upd_socket i f h) = wsRef h" "mounted (upd_socket i f h) = mounted h"
  "last_dep (upd_socket i f h) = last_dep h" "auth (upd_socket i f h) = auth h"
  "chat (upd_socket i f h) = chat h" "buddies (upd_socket i f h) = buddies h"
  "length (hook_sockets (upd_socket i f h)) = length (hook_sockets h)"
  by (simp_all add: upd_socket_def)

lemma upd_socket_sockets:
  "hook_sockets (upd_socket i f h) =
    (if i < length (hook_sockets h) then (hook_sockets h)[i := f (hook_sockets h ! i)] else hook_sockets h)"
  by (simp add: upd_socket_def)

lemma hook_ready_upd: "i < length (hook_sockets h) \<Longrightarrow>
    hook_ready (upd_socket i f h) j = (if j = i then ready (f (hook_sockets h ! i)) else hook_ready h j)"
  by (simp add: hook_ready_def upd_socket_def)

lemma hook_ready_less: "hook_ready h i \<noteq> CLOSED \<Longrightarrow> i < length (hook_sockets h)"
  by (simp add: hook_ready_def split: if_splits)

lemma ws_send_fields [simp]:
  "wsRef (hook_ws_send i d h) = wsRef h" "mounted (hook_ws_send i d h) = mounted h"
  "last_dep (hook_ws_send i d h) = last_dep h" "auth (hook_ws_send i d h) = auth h"
  "chat (hook_ws_send i d h) = chat h" "buddies (hook_ws_send i d h) = buddies h"
  "length (hook_sockets (hook_ws_send i d h)) = length (hook_sockets h)"
  "hook_ready (hook_ws_send i d h) j = hook_ready h j"
  by (auto simp: hook_ws_send_def hook_ready_def upd_socket_def nth_list_update)

lemma close_socket_fields [simp]:
  "wsRef (close_socket i h) = wsRef h" "mounted (close_socket i h) = mounted h"
  "last_dep (close_socket i h) = last_dep h" "auth (close_socket i h) = auth h"
  "chat (close_socket i h) = chat h" "buddies (close_socket i h) = buddies h"
  "length (hook_sockets (close_socket i h)) = length (hook_sockets h)"
  by (simp_all add: close_socket_def)

lemma hook_ready_close: "hook_ready (close_socket i h) j =
    (if j = i \<and> (hook_ready h i = CONNECTING \<or> hook_ready h i = OPEN) then CLOSING else hook_ready h j)"
  by (auto simp: close_socket_def hook_ready_upd hook_ready_less)

lemma on_buddies_fields [simp]:
  "hook_sockets (on_buddies f h) = hook_sockets h" "wsRef (on_buddies f h) = wsRef h"
  "mounted (on_buddies f h) = mounted h" "last_dep (on_buddies f h) = last_dep h"
  "auth (on_buddies f h) = auth h" "chat (on_buddies f h) = chat h" "buddies (on_buddies f h) = f (buddies h)"
  by (simp_all add: on_buddies_def)

text \<open>A server event changes the conversations and the contact list only.\<close>

definition same_wiring :: "hook \<Rightarrow> hook \<Rightarrow> bool" where
  "same_wiring h h' \<longleftrightarrow> hook_sockets h' = hook_sockets h \<and> wsRef h' = wsRef h \<and> mounted h' = mounted h \<and>
     last_dep h' = last_dep h \<and> auth h' = auth h"

lemma same_wiring_intros:
  "same_wiring h h" "same_wiring h (on_buddies f h)" "same_wiring h (h\<lparr>chat := c\<rparr>)"
  "same_wiring h h' \<Longrightarrow> same_wiring h (on_buddies f h')"
  "same_wiring h h' \<Longrightarrow> same_wiring h (h'\<lparr>buddies := b\<rparr>)"
  "same_wiring h h' \<Longrightarrow> same_wiring h (h'\<lparr>chat := c\<rparr>)"
  by (simp_all add: same_wiring_def on_buddies_def)

lemma on_message_event_wiring: "same_wiring h (on_message_event so p now h)"
  by (simp add: on_message_event_def Let_def same_wiring_intros)

lemma on_contact_blocked_wiring: "same_wiring h (on_contact_blocked so p h)"
  by (simp add: on_contact_blocked_def Let_def same_wiring_intros split: option.split)

lemma on_delivery_receipt_wiring: "same_wiring h (on_delivery_receipt p h)"
  by (simp add: on_delivery_receipt_def same_wiring_intros split: option.split sum.split)

text \<open>A property of every branch, one branch at a time.\<close>

lemma branches:
  "(c \<Longrightarrow> P a) \<Longrightarrow> (\<not> c \<Longrightarrow> P b) \<Longrightarrow> P (if c then a else b)"
  "P a \<Longrightarrow> (\<And>x. v = Some x \<Longrightarrow> P (f x)) \<Longrightarrow> P (case v of None \<Rightarrow> a | Some x \<Rightarrow> f x)"
  "(\<And>x y. P (g x y)) \<Longrightarrow> P (case q of (x, y) \<Rightarrow> g x y)"
  by (simp_all split: option.split prod.split)

lemma handle_event_wiring: "same_wiring h (handle_event so ev p now h)"
  unfolding handle_event_def
  by (intro branches [where P = "same_wiring h"] same_wiring_intros on_message_event_wiring on_contact_blocked_wiring
    on_delivery_receipt_wiring)

end
