(* ===== verification/SocketInvariants.thy ===== *)
theory SocketInvariants
  imports UseSocket
begin

text \<open>
  Invariants of the socket hook over all runs: every socket authenticates first and only one is live
  (\<open>hook_inv\<close>), nothing is mounted without a session (\<open>hook_dep\<close>), the stores are not touched before
  auth_ok (\<open>untouched\<close>); and what a server event keeps of the contact list.
\<close>

section \<open>Every socket authenticates first and only one is live\<close>

definition live :: "readyState \<Rightarrow> bool" where
  "live r \<longleftrightarrow> r = CONNECTING \<or> r = OPEN"

definition socket_ok :: "hook_socket \<Rightarrow> bool" where
  "socket_ok so \<longleftrightarrow> (ready so = CONNECTING \<longrightarrow> ws_sent so = []) \<and> (ready so = OPEN \<longrightarrow> ws_sent so \<noteq> []) \<and>
     (ws_sent so = [] \<or> hd (ws_sent so) = auth_frame (token (cl_session so)))"

definition hook_inv :: "hook \<Rightarrow> bool" where
  "hook_inv h \<longleftrightarrow> list_all socket_ok (hook_sockets h) \<and> (\<forall>i. live (hook_ready h i) \<longrightarrow> mounted h = Some i) \<and>
     (\<forall>i. mounted h = Some i \<longrightarrow> i < length (hook_sockets h))"

lemma hook_inv_fresh: "hook_inv (fresh_hook a c b)"
  by (simp add: hook_inv_def fresh_hook_def hook_ready_def live_def)

lemma hook_inv_wiring: "same_wiring h h' \<Longrightarrow> hook_inv h' \<longleftrightarrow> hook_inv h"
  by (simp add: same_wiring_def hook_inv_def hook_ready_def)

lemma list_all_update: "list_all P xs \<Longrightarrow> (i < length xs \<Longrightarrow> P (xs ! i) \<Longrightarrow> P y) \<Longrightarrow> list_all P (xs[i := y])"
  by (cases "i < length xs") (auto simp: list_all_length nth_list_update list_update_beyond)

lemma hook_inv_upd:
  assumes "hook_inv h"
    and "\<And>so. socket_ok so \<Longrightarrow> so = hook_sockets h ! i \<Longrightarrow> socket_ok (f so) \<and> (live (ready (f so)) \<longrightarrow> live (ready so))"
  shows "hook_inv (upd_socket i f h)"
proof (cases "i < length (hook_sockets h)")
  case True
  then have ok: "socket_ok (hook_sockets h ! i)" using assms(1) by (simp add: hook_inv_def list_all_length)
  from assms(2) [OF this refl] have f: "socket_ok (f (hook_sockets h ! i))"
    "live (ready (f (hook_sockets h ! i))) \<longrightarrow> live (hook_ready h i)"
    using True by (simp_all add: hook_ready_def)
  have "list_all socket_ok (hook_sockets (upd_socket i f h))"
    using assms(1) True f(1) by (simp add: hook_inv_def upd_socket_def list_all_update)
  moreover have "live (hook_ready (upd_socket i f h) j) \<longrightarrow> live (hook_ready h j)" for j
    using f(2) by (simp add: hook_ready_upd [OF True])
  ultimately show ?thesis using assms(1) unfolding hook_inv_def upd_socket_fields by blast
qed (use assms(1) in \<open>simp add: upd_socket_def\<close>)

lemma hook_inv_close: "hook_inv h \<Longrightarrow> hook_inv (close_socket i h)"
  unfolding close_socket_def by (auto intro!: hook_inv_upd simp: socket_ok_def live_def)

lemma hook_inv_fields: "hook_inv (h\<lparr>wsRef := r\<rparr>) = hook_inv h" "hook_inv (h\<lparr>auth := a\<rparr>) = hook_inv h"
  "hook_inv (h\<lparr>chat := c\<rparr>) = hook_inv h" "hook_inv (h\<lparr>buddies := b\<rparr>) = hook_inv h"
  "hook_inv (h\<lparr>last_dep := d\<rparr>) = hook_inv h"
  by (simp_all add: hook_inv_def hook_ready_def)

lemma hook_inv_cleanup: "hook_inv h \<Longrightarrow> hook_inv (cleanup h) \<and> mounted (cleanup h) = None"
proof (cases "mounted h")
  case (Some i)
  assume inv: "hook_inv h"
  let ?h = "close_socket i h"
  have "\<not> live (hook_ready ?h j)" for j
    using inv Some by (auto simp: hook_inv_def hook_ready_close live_def)
  moreover have "hook_ready (?h\<lparr>wsRef := None, mounted := None\<rparr>) j = hook_ready ?h j" for j
    by (simp add: hook_ready_def)
  ultimately have "hook_inv (?h\<lparr>wsRef := None, mounted := None\<rparr>)"
    using hook_inv_close [OF inv, of i] by (simp add: hook_inv_def)
  then show ?thesis by (simp add: cleanup_def Some)
qed (simp add: cleanup_def)

lemma hook_inv_run_effect:
  assumes "hook_inv h" and "mounted h = None"
  shows "hook_inv (run_effect h)"
proof (cases "session (auth h)")
  case (Some s)
  have "live (hook_ready (run_effect h) i) \<longleftrightarrow> i = length (hook_sockets h)" for i
    using assms by (auto simp: run_effect_def Some hook_inv_def hook_ready_def live_def nth_append Let_def split: if_splits)
  then show ?thesis using assms by (simp add: hook_inv_def run_effect_def Some Let_def socket_ok_def)
qed (use assms in \<open>simp add: run_effect_def\<close>)

lemma hook_inv_ws_send:
  assumes "hook_inv h" and "hook_ready h i = OPEN \<Longrightarrow> ws_sent (hook_sockets h ! i) \<noteq> []"
  shows "hook_inv (hook_ws_send i d h)"
  using assms unfolding hook_ws_send_def
  by (auto intro!: hook_inv_upd simp: socket_ok_def live_def hd_append)

lemma hook_inv_open_sent:
  assumes "hook_inv h" and "hook_ready h i = OPEN"
  shows "ws_sent (hook_sockets h ! i) \<noteq> []"
proof -
  have i: "i < length (hook_sockets h)" using hook_ready_less [of h i] assms(2) by simp
  then have "socket_ok (hook_sockets h ! i)" using assms(1) by (simp add: hook_inv_def list_all_length)
  with i assms(2) show ?thesis by (simp add: socket_ok_def hook_ready_def)
qed

lemma hook_inv_opened:
  assumes "hook_inv h" and "hook_ready h i = CONNECTING"
  shows "hook_inv (hook_onopen i (upd_socket i (ready_update (\<lambda>_. OPEN)) h))"
proof -
  have i: "i < length (hook_sockets h)" using hook_ready_less [of h i] assms(2) by simp
  have c: "ready (hook_sockets h ! i) = CONNECTING" using assms(2) i by (simp add: hook_ready_def)
  let ?f = "\<lambda>so :: hook_socket. so\<lparr>ready := OPEN, ws_sent := ws_sent so @ [auth_frame (token (cl_session so))]\<rparr>"
  have "hook_onopen i (upd_socket i (ready_update (\<lambda>_. OPEN)) h) = upd_socket i ?f h"
    using i by (simp add: hook_onopen_def hook_ws_send_def hook_ready_def upd_socket_def)
  moreover have "hook_inv (upd_socket i ?f h)"
    by (rule hook_inv_upd [OF assms(1)]) (use c in \<open>auto simp: socket_ok_def live_def\<close>)
  ultimately show ?thesis by simp
qed

lemma hook_onmessage_cases:
  assumes "P h" and "\<And>h'. same_wiring h h' \<Longrightarrow> P h'"
    and "\<And>e. \<not> authed (hook_sockets h ! i) \<Longrightarrow> json_parse d = Inr e \<Longrightarrow> is_auth_ok e \<Longrightarrow>
      P ((upd_socket i (authed_update (\<lambda>_. True)) h)\<lparr>auth := setSupporterState (\<lambda>_. auth_supporter e) (auth h)\<rparr>)"
  shows "P (hook_onmessage i d now h)"
  using assms handle_event_wiring unfolding hook_onmessage_def
  by (auto simp: Let_def split: sum.split option.split json.split)

lemma hook_inv_handle:
  assumes "hook_inv h" and "hook_enabled h e"
  shows "hook_inv (hook_handle e h)"
proof (cases e)
  case Commit
  with assms(1) hook_inv_cleanup hook_inv_run_effect show ?thesis
    by (auto simp: commit_def hook_inv_fields)
next
  case (HSend p)
  with assms(1) show ?thesis
    by (auto simp: hook_send_def hook_inv_ws_send hook_inv_open_sent split: option.split)
next
  case (HOpened i)
  with assms show ?thesis by (simp add: hook_inv_opened)
next
  case (HReceived i d now)
  have "hook_inv (upd_socket i (authed_update (\<lambda>_. True)) h)"
    using assms(1) by (auto intro!: hook_inv_upd simp: socket_ok_def)
  moreover have "hook_inv (hook_onmessage i d now h)" if "hook_inv (upd_socket i (authed_update (\<lambda>_. True)) h)"
    by (rule hook_onmessage_cases [where P = hook_inv]) (simp_all add: assms(1) that hook_inv_wiring hook_inv_fields)
  ultimately show ?thesis using HReceived by simp
next
  case (HClosed i code)
  have "hook_inv (upd_socket i (ready_update (\<lambda>_. CLOSED)) h)"
    using assms(1) by (auto intro!: hook_inv_upd simp: socket_ok_def live_def)
  with HClosed show ?thesis by (simp add: hook_onclose_def hook_inv_fields Let_def)
qed (use assms(1) in \<open>simp_all add: hook_onerror_def hook_inv_fields\<close>)

interpretation hook_machine: machine_invariant hook_enabled hook_handle hook_inv
  by unfold_locales (rule hook_inv_handle)

lemmas hook_run_inv = hook_machine.run_keeps

text \<open>No effect has run, or the last one ran without a session: nothing is mounted.\<close>

definition hook_dep :: "hook \<Rightarrow> bool" where
  "hook_dep h \<longleftrightarrow> (last_dep h = None \<or> last_dep h = Some None \<longrightarrow> mounted h = None)"

lemma mounted_handle: "e \<noteq> Commit \<Longrightarrow> mounted (hook_handle e h) = mounted h \<and> last_dep (hook_handle e h) = last_dep h"
proof (cases e)
  case (HReceived i d now)
  have "mounted (hook_onmessage i d now h) = mounted h \<and> last_dep (hook_onmessage i d now h) = last_dep h"
    by (rule hook_onmessage_cases [where P = "\<lambda>h'. mounted h' = mounted h \<and> last_dep h' = last_dep h"])
      (simp_all add: same_wiring_def)
  with HReceived show ?thesis by simp
qed (simp_all add: hook_send_def hook_onopen_def hook_onclose_def hook_onerror_def Let_def split: option.split)

lemma hook_dep_handle: "hook_dep h \<Longrightarrow> hook_inv h \<Longrightarrow> hook_dep (hook_handle e h)"
proof (cases "e = Commit")
  case True
  assume "hook_dep h" "hook_inv h"
  moreover have "auth (cleanup h) = auth h" by (simp add: cleanup_def split: option.split)
  ultimately show ?thesis
    using True hook_inv_cleanup [of h]
    by (auto simp: commit_def hook_dep_def run_effect_def session_dep_def split: option.splits)
qed (simp add: hook_dep_def mounted_handle)

lemma hook_run_dep: "hook_run h0 es h \<Longrightarrow> hook_inv h0 \<Longrightarrow> hook_dep h0 \<Longrightarrow> hook_dep h"
  by (induction rule: runs.induct) (simp_all add: hook_dep_handle hook_run_inv)

section \<open>Before auth_ok\<close>

fun hook_grants :: "hook_event \<Rightarrow> bool" where
  "hook_grants (HReceived i d now) = auth_ok_data d"
| "hook_grants _ = False"

fun from_outside :: "hook_event \<Rightarrow> bool" where
  "from_outside (StoreChat c) = True"
| "from_outside (StoreContacts b) = True"
| "from_outside _ = False"

definition untouched :: "ChatState \<Rightarrow> ContactsState \<Rightarrow> hook \<Rightarrow> bool" where
  "untouched c b h \<longleftrightarrow> chat h = c \<and> buddies h = b \<and> list_all (\<lambda>so. \<not> authed so) (hook_sockets h)"

lemma untouched_upd:
  "untouched c b h \<Longrightarrow> (\<And>so. authed (f so) = authed so) \<Longrightarrow> untouched c b (upd_socket i f h)"
  by (auto simp: untouched_def upd_socket_def intro!: list_all_update)

lemma untouched_fields: "untouched c b (h\<lparr>wsRef := r\<rparr>) = untouched c b h" "untouched c b (h\<lparr>mounted := m\<rparr>) = untouched c b h"
  "untouched c b (h\<lparr>auth := a\<rparr>) = untouched c b h" "untouched c b (h\<lparr>last_dep := d\<rparr>) = untouched c b h"
  by (simp_all add: untouched_def)

lemma untouched_handle:
  assumes "untouched c b h" and "hook_enabled h e" and "\<not> hook_grants e" and "\<not> from_outside e"
  shows "untouched c b (hook_handle e h)"
proof (cases e)
  case Commit
  have "untouched c b (cleanup h)"
    using assms(1) by (simp add: cleanup_def close_socket_def untouched_fields untouched_upd split: option.split)
  then have "untouched c b (run_effect (cleanup h))"
    by (auto simp: run_effect_def untouched_def Let_def split: option.split)
  then show ?thesis using Commit assms(1) by (simp add: commit_def untouched_fields)
next
  case (HReceived i d now)
  then have "i < length (hook_sockets h)" using assms(2) hook_ready_less [of h i] by simp
  then have "\<not> authed (hook_sockets h ! i)" using assms(1) by (simp add: untouched_def list_all_length)
  then show ?thesis using HReceived assms(1,3)
    by (auto simp: hook_onmessage_def auth_ok_data_def Let_def split: sum.splits)
qed (use assms in \<open>simp_all add: hook_send_def hook_onopen_def hook_ws_send_def hook_onclose_def hook_onerror_def
    untouched_fields untouched_upd Let_def split: option.split\<close>)

lemma untouched_run:
  "hook_run (fresh_hook a c b) es h \<Longrightarrow> \<not> list_ex hook_grants es \<Longrightarrow> \<not> list_ex from_outside es \<Longrightarrow> untouched c b h"
  by (induction rule: runs.induct) (simp_all add: untouched_handle, simp add: untouched_def fresh_hook_def)

section \<open>Server events and the contact list\<close>

lemma contacts_inv_on_buddies:
  "contacts_inv (buddies h) \<Longrightarrow> (\<And>b. contacts_inv b \<Longrightarrow> contacts_inv (f b)) \<Longrightarrow> contacts_inv (buddies (on_buddies f h))"
  by (simp add: on_buddies_def)

lemma contacts_inv_message: "contacts_inv (buddies h) \<Longrightarrow> contacts_inv (buddies (on_message_event so p now h))"
  by (simp add: on_message_event_def Let_def contacts_inv_ops)

lemma contacts_inv_blocked: "contacts_inv (buddies h) \<Longrightarrow> contacts_inv (buddies (on_contact_blocked so p h))"
  by (auto simp: on_contact_blocked_def Let_def contacts_inv_ops split: option.split)

lemma contacts_inv_receipt: "buddies (on_delivery_receipt p h) = buddies h"
  by (simp add: on_delivery_receipt_def split: option.split sum.split)

text \<open>A list the server sends as a whole is kept as it is: its keys have to be distinct.\<close>

definition snapshot_ok :: "jstr \<Rightarrow> json \<Rightarrow> bool" where
  "snapshot_ok ev p \<longleftrightarrow>
     (ev = js ''contacts_snapshot'' \<longrightarrow> (case all_of snapshot_contact p ''contacts'' of
        None \<Rightarrow> True | Some cs \<Rightarrow> distinct (map contact_id cs))) \<and>
     (ev = js ''blocked_list'' \<longrightarrow> (case all_of blocked_of p ''users'' of
        None \<Rightarrow> True | Some us \<Rightarrow> distinct (map bu_userId us)))"

lemma contacts_inv_event:
  assumes "contacts_inv (buddies h)" and "snapshot_ok ev p"
  shows "contacts_inv (buddies (handle_event so ev p now h))"
proof -
  note ops = contacts_inv_ops [OF assms(1)]
  have acc: "contacts_inv (addAcceptedContact c (clearPendingFromUser w (buddies h)))" for c w
    by (rule contacts_inv_ops(5) [OF ops(10)])
  show ?thesis
    unfolding handle_event_def
    by (intro branches [where P = "\<lambda>h'. contacts_inv (buddies h')"] contacts_inv_message contacts_inv_blocked assms(1);
      use assms ops acc in \<open>simp add: on_buddies_def contacts_inv_receipt snapshot_ok_def\<close>)
qed

definition event_payload :: "json \<Rightarrow> json" where
  "event_payload envelope = (case json_get envelope (js ''payload'') of None \<Rightarrow> JNull | Some p \<Rightarrow> p)"

fun well_behaved :: "hook_event \<Rightarrow> bool" where
  "well_behaved (HReceived i d now) = (case json_parse d of Inl _ \<Rightarrow> True
     | Inr envelope \<Rightarrow> (case json_get envelope (js ''event'') of
         Some (JStr ev) \<Rightarrow> snapshot_ok ev (event_payload envelope) | _ \<Rightarrow> True))"
| "well_behaved (StoreContacts b) = contacts_inv b"
| "well_behaved _ = True"

lemma buddies_commit: "buddies (commit h) = buddies h"
  by (simp add: commit_def run_effect_def cleanup_def Let_def split: option.split)

lemma contacts_inv_handle:
  assumes "contacts_inv (buddies h)" and "well_behaved e"
  shows "contacts_inv (buddies (hook_handle e h))"
proof (cases e)
  case (HReceived i d now)
  with assms show ?thesis
    by (auto simp: hook_onmessage_def Let_def event_payload_def contacts_inv_event
      split: sum.splits option.splits json.splits)
qed (use assms in \<open>simp_all add: buddies_commit hook_send_def hook_onopen_def hook_onclose_def hook_onerror_def Let_def
    split: option.split\<close>)

lemma contacts_inv_run:
  "hook_run h0 es h \<Longrightarrow> contacts_inv (buddies h0) \<Longrightarrow> list_all well_behaved es \<Longrightarrow> contacts_inv (buddies h)"
  by (induction rule: runs.induct) (simp_all add: contacts_inv_handle)

end
