(* ===== verification/SocketProperties.thy ===== *)
theory SocketProperties
  imports SocketInvariants ClientProperties
begin

text \<open>
  Properties of the web client's socket hook, and the flaws of its reconnection: the session object
  that auth_ok replaces reopens the socket, and a late close event silences the new one.
\<close>

section \<open>A hook that is used in the witnesses\<close>

definition demo_user :: OwnProfile where
  "demo_user = \<lparr>winkdId = js ''ana#1234'', displayName = js ''Ana'', moodMessage = [], status = Online,
     avatarData = None, sessionToken = js ''t''\<rparr>"

definition demo_auth :: AuthState where
  "demo_auth = login (js ''t'') demo_user \<lparr>session = None, session_obj = 0\<rparr>"

definition demo_hook0 :: hook where
  "demo_hook0 = fresh_hook demo_auth new_chat new_contacts"

definition demo_hook :: "hook_event list \<Rightarrow> hook" where
  "demo_hook es = the (hook_drive es demo_hook0)"

definition demo_open :: "hook_event list" where
  "demo_open = [Commit, HOpened 0]"

lemmas demo_hook_simps = demo_open_def demo_hook_def demo_hook0_def demo_auth_def login_def set_session_def
  fresh_hook_def commit_def cleanup_def run_effect_def session_dep_def hook_onopen_def hook_ws_send_def
  hook_ready_def upd_socket_def Let_def

lemma demo_open_drive: "hook_drive demo_open demo_hook0 = Some (demo_hook demo_open)"
  by (simp add: demo_hook_simps)

lemma demo_open_run: "hook_run demo_hook0 demo_open (demo_hook demo_open)"
  by (simp add: hook_run_drive demo_open_drive)

lemma fresh_hook_ok: "hook_inv (fresh_hook a c b)" "hook_dep (fresh_hook a c b)"
  by (simp_all add: hook_inv_fresh) (simp add: hook_dep_def fresh_hook_def)

section \<open>One round of the reconnection\<close>

text \<open>Socket n is open and waits for auth_ok; the effect of the current session made it.\<close>

definition settled :: "nat \<Rightarrow> hook \<Rightarrow> bool" where
  "settled n h \<longleftrightarrow> length (hook_sockets h) = Suc n \<and> hook_ready h n = OPEN \<and> \<not> authed (hook_sockets h ! n) \<and>
     mounted h = Some n \<and> session (auth h) \<noteq> None \<and> last_dep h = Some (session_dep (auth h))"

definition auth_round :: "jstr \<Rightarrow> nat \<Rightarrow> hook_event list" where
  "auth_round d n = [HReceived n d [], Commit, HOpened (Suc n)]"

lemma auth_round:
  assumes "settled n h" and "auth_ok_data d"
  shows "\<exists>h'. hook_drive (auth_round d n) h = Some h' \<and> settled (Suc n) h' \<and> hook_ready h' n = CLOSING \<and>
    (\<forall>j < n. hook_ready h' j = hook_ready h j)"
proof -
  obtain e where e: "json_parse d = Inr e" "is_auth_ok e"
    using assms(2) by (auto simp: auth_ok_data_def split: sum.splits)
  obtain s where s: "session (auth h) = Some s" using assms(1) by (auto simp: settled_def)
  have n: "n < length (hook_sockets h)" "length (hook_sockets h) = Suc n" "mounted h = Some n"
    "ready (hook_sockets h ! n) = OPEN" "\<not> authed (hook_sockets h ! n)"
    "last_dep h = Some (Some (session_obj (auth h)))"
    using assms(1) s by (auto simp: settled_def hook_ready_def session_dep_def)
  let ?so = "hook_sockets h ! n"
  define h1 where "h1 = hook_handle (HReceived n d []) h"
  have h1: "hook_sockets h1 = (hook_sockets h)[n := ?so\<lparr>authed := True\<rparr>]" "mounted h1 = Some n"
    "session (auth h1) \<noteq> None" "session_obj (auth h1) = Suc (session_obj (auth h))"
    "last_dep h1 = Some (Some (session_obj (auth h)))"
    using n e s by (simp_all add: h1_def hook_onmessage_def upd_socket_def setSupporterState_def set_session_def Let_def)
  obtain s1 where s1: "session (auth h1) = Some s1" using h1(3) by blast
  define h2 where "h2 = hook_handle Commit h1"
  let ?new = "\<lparr>ready = CONNECTING, ws_sent = [], authed = False, cl_session = s1, cl_active = activeConversationId (chat h1)\<rparr>"
  have h2: "hook_sockets h2 = (hook_sockets h)[n := ?so\<lparr>authed := True, ready := CLOSING\<rparr>] @ [?new]"
    "mounted h2 = Some (Suc n)" "last_dep h2 = Some (session_dep (auth h2))" "session (auth h2) = Some s1"
    using h1 n s1
    by (simp_all add: h2_def commit_def session_dep_def cleanup_def close_socket_def hook_ready_def upd_socket_def
      run_effect_def Let_def)
  define h3 where "h3 = hook_handle (HOpened (Suc n)) h2"
  have h3: "hook_sockets h3 = (hook_sockets h)[n := ?so\<lparr>authed := True, ready := CLOSING\<rparr>] @
      [?new\<lparr>ready := OPEN, ws_sent := [auth_frame (token s1)]\<rparr>]"
    "mounted h3 = mounted h2" "auth h3 = auth h2" "last_dep h3 = last_dep h2"
    using h2 n by (simp_all add: h3_def hook_onopen_def hook_ws_send_def hook_ready_def upd_socket_def nth_append list_update_append)
  have "hook_drive (auth_round d n) h = Some h3"
    using n h2(1) by (simp add: auth_round_def h3_def h2_def h1_def hook_ready_def nth_append)
  moreover have "settled (Suc n) h3"
    using h3 h2 n by (simp add: settled_def hook_ready_def nth_append)
  moreover have "hook_ready h3 n = CLOSING" "\<forall>j < n. hook_ready h3 j = hook_ready h j"
    using h3(1) n by (simp_all add: hook_ready_def nth_append)
  ultimately show ?thesis by blast
qed

lemma auth_rounds:
  "settled n h \<Longrightarrow> auth_ok_data d \<Longrightarrow>
    \<exists>h'. hook_drive (concat (map (auth_round d) [n..<n + k])) h = Some h' \<and> settled (n + k) h' \<and>
      (\<forall>j. n \<le> j \<and> j < n + k \<longrightarrow> hook_ready h' j = CLOSING)"
proof (induction k)
  case (Suc k)
  then obtain h1 where h1: "hook_drive (concat (map (auth_round d) [n..<n + k])) h = Some h1" "settled (n + k) h1"
      "\<forall>j. n \<le> j \<and> j < n + k \<longrightarrow> hook_ready h1 j = CLOSING" by blast
  from auth_round [OF this(2) Suc.prems(2)] obtain h2 where h2: "hook_drive (auth_round d (n + k)) h1 = Some h2"
      "settled (Suc (n + k)) h2" "hook_ready h2 (n + k) = CLOSING" "\<forall>j < n + k. hook_ready h2 j = hook_ready h1 j"
    by blast
  have "hook_ready h2 j = CLOSING" if "n \<le> j" "j < n + Suc k" for j
    using that h1(3) h2(3,4) by (cases "j = n + k") auto
  then show ?case using h1(1) h2(1,2) by (auto simp: hook_drive_append)
qed auto

lemma demo_settled: "settled 0 (demo_hook demo_open)"
  by (simp add: settled_def demo_hook_simps)

lemma demo_auth_ok_data: "auth_ok_data demo_auth_ok"
  by (simp add: auth_ok_data_def demo_auth_ok_parse demo_fields)

definition demo_payload :: json where
  "demo_payload = JObj [(js ''id'', JStr (js ''m1'')), (js ''conversationId'', JStr (js ''bo#1'')),
     (js ''senderId'', JStr (js ''bo#1''))]"

definition demo_message :: json where
  "demo_message = JObj [(js ''event'', JStr (js ''message'')), (js ''payload'', demo_payload)]"

lemma demo_message_parse: "json_parse (json_stringify demo_message) = Inr demo_message"
  by (rule json_roundtrip) (simp add: demo_message_def demo_payload_def)

section \<open>Properties\<close>

text \<open>C18: the hook's sockets. In every run of the hook, whatever the server, the user and other code do,
  each socket carries the auth frame with the token of the session it was made for before anything
  else, and at most one socket is connecting or open: the one the current effect will close.\<close>

theorem hook_auth_first_one_live:
  assumes "hook_run (fresh_hook a c b) es h" and "so \<in> set (hook_sockets h)"
  shows "(ws_sent so = [] \<or> hd (ws_sent so) = auth_frame (token (cl_session so))) \<and>
    (\<forall>i j. live (hook_ready h i) \<and> live (hook_ready h j) \<longrightarrow> i = j)"
proof -
  have inv: "hook_inv h" using hook_run_inv [OF assms(1)] fresh_hook_ok by blast
  then have "socket_ok so" using assms(2) by (simp add: hook_inv_def list_all_iff)
  moreover have "i = j" if "live (hook_ready h i)" "live (hook_ready h j)" for i j
    using inv that by (metis hook_inv_def option.inject)
  ultimately show ?thesis by (auto simp: socket_ok_def)
qed

theorem hook_auth_first_one_live_witness:
  "\<exists>so \<in> set (hook_sockets (demo_hook demo_open)). hd (ws_sent so) = auth_frame (js ''t'')"
proof -
  obtain so where so: "so \<in> set (hook_sockets (demo_hook demo_open))" "token (cl_session so) = js ''t''" "ws_sent so \<noteq> []"
    by (simp add: demo_hook_simps)
  with hook_auth_first_one_live [OF demo_open_run [unfolded demo_hook0_def] so(1)] show ?thesis by auto
qed



text \<open>The contact list stays well formed. If it has one contact per id, one count per id, one
  invitation per request and one blocked user per user, then so it has after any run of the hook, when
  the lists the server sends as a whole have no duplicates.\<close>

theorem hook_contacts_well_formed:
  assumes "hook_run (fresh_hook a c b) es h" and "contacts_inv b" and "list_all well_behaved es"
  shows "contacts_inv (buddies h)"
  using contacts_inv_run [OF assms(1)] assms(2,3) by (simp add: fresh_hook_def)

theorem hook_contacts_well_formed_witness: "contacts_inv (buddies (demo_hook demo_open))"
  using hook_contacts_well_formed [OF demo_open_run [unfolded demo_hook0_def]]
  by (simp add: demo_open_def contacts_inv_new)

text \<open>C20: a refused session ends. When a socket closes with code 4001 in any run, the user is logged out;
  after the next render no socket is connecting or open, and sending does nothing.\<close>

theorem hook_auth_failure_logs_out:
  assumes "hook_run (fresh_hook a c b) es h" and "hook_enabled h (HClosed i 4001)"
    and "hook_drive [HClosed i 4001, Commit] h = Some h'"
  shows "session (auth h') = None \<and> (\<forall>j. \<not> live (hook_ready h' j)) \<and> hook_send p h' = h'"
proof -
  have run: "hook_run (fresh_hook a c b) (es @ [HClosed i 4001, Commit]) h'"
    by (rule hook_drive_run [OF assms(3,1)])
  have inv: "hook_inv h'" "hook_dep h'" using hook_run_inv [OF run] hook_run_dep [OF run] fresh_hook_ok by blast+
  let ?h = "hook_handle (HClosed i 4001) h"
  have h': "h' = commit ?h" using assms(3) by (simp split: if_splits)
  have s: "session (auth ?h) = None" "wsRef ?h = None"
    by (simp_all add: hook_onclose_def logout_def set_session_def Let_def)
  have "session (auth h') = None \<and> wsRef h' = None \<and> last_dep h' = Some None"
    using s by (auto simp: h' commit_def session_dep_def run_effect_def cleanup_def split: option.splits)
  with inv show ?thesis by (auto simp: hook_inv_def hook_dep_def hook_send_def)
qed

theorem hook_auth_failure_logs_out_witness:
  "\<exists>h'. hook_drive [HClosed 0 4001, Commit] (demo_hook demo_open) = Some h' \<and> session (auth h') = None"
proof -
  have en: "hook_enabled (demo_hook demo_open) (HClosed 0 4001)" by (simp add: demo_hook_simps)
  then obtain h' where h': "hook_drive [HClosed 0 4001, Commit] (demo_hook demo_open) = Some h'" by simp
  from hook_auth_failure_logs_out [OF demo_open_run [unfolded demo_hook0_def] en this] h' show ?thesis by blast
qed

text \<open>C37: signing in never settles. When the server confirms a socket with auth_ok, storing the supporter
  state makes a new session object, the effect that depends on it runs again, closes the socket that
  was just confirmed and opens another. However often the server answers auth_ok, every confirmed
  socket is closed and the hook waits on a further one.\<close>

theorem hook_auth_ok_reconnects_forever:
  assumes "hook_run (fresh_hook a c b) es h" and "settled n h" and "auth_ok_data d"
  shows "\<exists>h'. hook_run (fresh_hook a c b) (es @ concat (map (auth_round d) [n..<n + k])) h' \<and> settled (n + k) h' \<and>
    (\<forall>j. n \<le> j \<and> j < n + k \<longrightarrow> hook_ready h' j = CLOSING)"
  using auth_rounds [OF assms(2,3), of k] hook_drive_run [OF _ assms(1)] by blast

theorem hook_auth_ok_reconnects_forever_witness:
  "\<exists>h'. hook_run demo_hook0 (demo_open @ concat (map (auth_round demo_auth_ok) [0..<3])) h' \<and>
     length (hook_sockets h') = 4 \<and> hook_ready h' 2 = CLOSING"
  using hook_auth_ok_reconnects_forever [OF demo_open_run [unfolded demo_hook0_def] demo_settled demo_auth_ok_data, of 3]
  by (auto simp: settled_def demo_hook0_def)

text \<open>A late close event cuts off the new socket. While the socket of the current effect is open and
  used for sending, the close (or error) event of any other socket, an earlier one that the cleanup closed
  for instance, clears the reference, and from then on sending does nothing although that socket is open.\<close>

theorem hook_late_close_drops_sends:
  assumes "wsRef h = Some i" and "hook_ready h i = OPEN" and "j \<noteq> i" and "code \<noteq> 4001"
    and "hook_drive [HClosed j code] h = Some h'"
  shows "hook_send p h \<noteq> h \<and> hook_ready h' i = OPEN \<and> mounted h' = mounted h \<and> hook_send p h' = h'"
proof -
  have i: "i < length (hook_sockets h)" using hook_ready_less [of h i] assms(2) by simp
  have "length (ws_sent (hook_sockets (hook_send p h) ! i)) = Suc (length (ws_sent (hook_sockets h ! i)))"
    using assms(1,2) i by (simp add: hook_send_def hook_ws_send_def upd_socket_def)
  then have "hook_send p h \<noteq> h" by auto
  have en: "j < length (hook_sockets h)" and h': "h' = hook_handle (HClosed j code) h"
    using assms(5) by (auto split: if_splits)
  have "hook_ready h' i = hook_ready h i"
    using en assms(3,4) by (simp add: h' hook_onclose_def hook_ready_def upd_socket_def)
  moreover have "wsRef h' = None" "mounted h' = mounted h"
    using assms(4) by (simp_all add: h' hook_onclose_def Let_def)
  ultimately show ?thesis using assms(2) \<open>hook_send p h \<noteq> h\<close> by (simp add: hook_send_def)
qed

theorem hook_late_close_drops_sends_witness:
  "\<exists>h h'. hook_run demo_hook0 (demo_open @ auth_round demo_auth_ok 0) h \<and> hook_drive [HClosed 0 1005] h = Some h' \<and>
     hook_ready h' 1 = OPEN \<and> hook_send (JInt 1) h' = h'"
proof -
  let ?es = "auth_round demo_auth_ok 0"
  define h where "h = the (hook_drive ?es (demo_hook demo_open))"
  have h: "hook_drive ?es (demo_hook demo_open) = Some h" "wsRef h = Some 1" "hook_ready h 1 = OPEN" "hook_ready h 0 = CLOSING"
    by (simp_all add: h_def auth_round_def demo_hook_simps hook_onmessage_def demo_auth_ok_parse demo_fields
      setSupporterState_def close_socket_def)
  then obtain h' where h': "hook_drive [HClosed 0 1005] h = Some h'"
    using hook_ready_less [of h 0] by auto
  have "hook_ready h' 1 = OPEN \<and> hook_send (JInt 1) h' = h'"
    using hook_late_close_drops_sends [OF h(2,3) _ _ h', of "JInt 1"] by simp
  with h' hook_drive_run [OF h(1) demo_open_run] show ?thesis by blast
qed

text \<open>The open conversation is the one of the last connection. The socket's handlers compare a message
  with the conversation that was open when the effect ran; a message of a conversation opened since then
  is received and still counted as unread, whatever conversation is open now.\<close>

theorem hook_unread_for_open_conversation:
  assumes "hook_enabled h (HReceived i d now)" and "authed (hook_sockets h ! i)" and "json_parse d = Inr envelope"
    and "json_get envelope (js ''event'') = Some (JStr (js ''message''))" and "msg = message_of (event_payload envelope) now"
    and "msg_id msg \<noteq> []" and "conversationId msg \<noteq> []" and "senderId msg \<noteq> []"
    and "senderId msg \<noteq> winkdId (profile (cl_session (hook_sockets h ! i)))"
    and "cl_active (hook_sockets h ! i) \<noteq> Some (conversationId msg)"
  shows "chat (hook_handle (HReceived i d now) h) = receiveMessage msg (chat h) \<and>
    unread (senderId msg) (buddies (hook_handle (HReceived i d now) h)) = unread (senderId msg) (buddies h) + 1"
proof -
  have "hook_handle (HReceived i d now) h = on_message_event (hook_sockets h ! i) (event_payload envelope) now h"
    using assms(2-4) by (simp add: hook_onmessage_def handle_event_def event_payload_def Let_def)
  with assms(5-) show ?thesis
    by (simp add: on_message_event_def incrementUnread_def unread_def Let_def)
qed

theorem hook_unread_for_open_conversation_witness:
  "\<exists>h h'. hook_run demo_hook0 (demo_open @ [HReceived 0 demo_auth_ok [], StoreChat (openConversation (js ''bo#1'') new_chat)]) h \<and>
     activeConversationId (chat h) = Some (js ''bo#1'') \<and>
     hook_drive [HReceived 0 (json_stringify demo_message) []] h = Some h' \<and> unread (js ''bo#1'') (buddies h') = 1"
proof -
  let ?es = "[HReceived 0 demo_auth_ok [], StoreChat (openConversation (js ''bo#1'') new_chat)]"
  define h where "h = the (hook_drive ?es (demo_hook demo_open))"
  have h: "hook_drive ?es (demo_hook demo_open) = Some h" "hook_ready h 0 = OPEN" "authed (hook_sockets h ! 0)"
    "cl_active (hook_sockets h ! 0) = None" "profile (cl_session (hook_sockets h ! 0)) = demo_user"
    "activeConversationId (chat h) = Some (js ''bo#1'')" "buddies h = new_contacts"
    by (simp_all add: h_def demo_hook_simps hook_onmessage_def demo_auth_ok_parse demo_fields
      setSupporterState_def openConversation_def new_chat_def)
  let ?msg = "message_of (event_payload demo_message) []"
  have ev: "json_get demo_message (js ''event'') = Some (JStr (js ''message''))" by code_simp
  have msg: "msg_id ?msg = js ''m1''" "conversationId ?msg = js ''bo#1''" "senderId ?msg = js ''bo#1''" by code_simp+
  have en: "hook_enabled h (HReceived 0 (json_stringify demo_message) [])" using h(2) by simp
  have "unread (js ''bo#1'') (buddies (hook_handle (HReceived 0 (json_stringify demo_message) []) h)) = 1"
    using hook_unread_for_open_conversation [OF en h(3) demo_message_parse ev refl] h(4,5,7) msg
    by (simp add: demo_user_def unread_def new_contacts_def)
  with h(6) hook_drive_run [OF h(1) demo_open_run] en show ?thesis by auto
qed

text \<open>A buddy's presence is lost. The server sends the id of the buddy as user_id; the hook reads userId, so a
  presence event in the server's form changes nothing, whatever the status, and the contact keeps the status
  the snapshot gave it, which is online for every accepted contact.\<close>

theorem hook_ignores_server_presence:
  assumes "authed (hook_sockets h ! i)"
  shows "hook_handle (HReceived i (json_stringify (JObj [(js ''event'', JStr (js ''presence'')),
     (js ''payload'', JObj [(js ''user_id'', JStr u), (js ''status'', JStr st)])])) now) h = h"
proof -
  let ?p = "JObj [(js ''user_id'', JStr u), (js ''status'', JStr st)]"
  let ?e = "JObj [(js ''event'', JStr (js ''presence'')), (js ''payload'', ?p)]"
  have parse: "json_parse (json_stringify ?e) = Inr ?e" by (rule json_roundtrip) simp
  have "json_get ?e (js ''event'') = Some (JStr (js ''presence''))" "json_get ?e (js ''payload'') = Some ?p"
    "sfield ?p ''userId'' = None"
    by (simp_all add: json_get_def sfield_def string_of_def)
  then show ?thesis using parse assms by (simp add: hook_onmessage_def handle_event_def Let_def)
qed

theorem hook_ignores_server_presence_witness:
  "\<exists>h. hook_run demo_hook0 (demo_open @ [HReceived 0 demo_auth_ok []]) h \<and> authed (hook_sockets h ! 0) \<and>
     hook_handle (HReceived 0 (json_stringify (JObj [(js ''event'', JStr (js ''presence'')),
       (js ''payload'', JObj [(js ''user_id'', JStr (js ''bo#1'')), (js ''status'', JStr (js ''offline''))])])) []) h = h"
proof -
  define h where "h = the (hook_drive [HReceived 0 demo_auth_ok []] (demo_hook demo_open))"
  have h: "hook_drive [HReceived 0 demo_auth_ok []] (demo_hook demo_open) = Some h" "authed (hook_sockets h ! 0)"
    by (simp_all add: h_def demo_hook_simps hook_onmessage_def demo_auth_ok_parse demo_fields setSupporterState_def)
  from hook_ignores_server_presence [OF h(2), of "js ''bo#1''" "js ''offline''" "[]"] h hook_drive_run [OF h(1) demo_open_run]
  show ?thesis by blast
qed

end
