(* ===== verification/ChatProperties.thy ===== *)
theory ChatProperties
  imports ChatStore
begin

text \<open>
  The conversations: a message that arrives again is merged, a message that was sent is marked by its
  delivery receipt.
\<close>

lemma messages_of_set: "messages_of cid (s\<lparr>conversations := obj_set k c (conversations s)\<rparr>) =
    (if cid = k then (case conv_messages c of None \<Rightarrow> [] | Some ms \<Rightarrow> ms) else messages_of cid s)"
  by (simp add: messages_of_def spread_conv_def find_conv_def)











text \<open>a delivery receipt marks the message that was sent. Each of the four ways of sending appends one
  undelivered message under the new id and hands the same message to the socket as a send_message
  command; the receipt for that id then marks it and changes no other message of any conversation.\<close>

theorem sent_message_is_marked:
  assumes "((cmd, msg), s') \<in> {sendText i now cid sender body s, sendAttachment i now cid sender a s,
      sendWinkd i now cid sender s, sendNudge i now cid sender s}"
    and "i \<notin> msg_id ` set (messages_of cid s)"
  shows "cmd = CmdSendMessage \<and> messages_of cid s' = messages_of cid s @ [msg] \<and> msg_id msg = i \<and> \<not> delivered msg \<and>
    (\<exists>s''. markMessageDelivered cid i s' = Inr s'' \<and>
       messages_of cid s'' = messages_of cid s @ [msg\<lparr>delivered := True\<rparr>] \<and>
       (\<forall>other. other \<noteq> cid \<longrightarrow> messages_of other s'' = messages_of other s))"
proof -
  have msg: "cmd = CmdSendMessage" "msg_id msg = i" "conversationId msg = cid" "\<not> delivered msg" "s' = append_message msg s"
    using assms(1) by (auto simp: sendText_def sendAttachment_def sendWinkd_def sendNudge_def base_message_def Let_def)
  let ?conv = "(spread_conv cid s)\<lparr>conv_messages := Some (messages_of cid s @ [msg])\<rparr>"
  have s': "s' = s\<lparr>conversations := obj_set cid ?conv (conversations s)\<rparr>"
    using msg by (simp add: append_message_def)
  have ms: "messages_of x s' = (if x = cid then messages_of cid s @ [msg] else messages_of x s)" for x
    by (simp add: s' messages_of_set)
  have "map (\<lambda>m. if msg_id m = i then m\<lparr>delivered := True\<rparr> else m) (messages_of cid s) = messages_of cid s"
    using assms(2) by (intro map_idI) auto
  then have mark: "markMessageDelivered cid i s' = Inr (s'\<lparr>conversations := obj_set cid
      (?conv\<lparr>conv_messages := Some (messages_of cid s @ [msg\<lparr>delivered := True\<rparr>])\<rparr>) (conversations s')\<rparr>)"
    using msg(2) by (simp add: markMessageDelivered_def find_conv_def s')
  have "messages_of x (s'\<lparr>conversations := obj_set cid
      (?conv\<lparr>conv_messages := Some (messages_of cid s @ [msg\<lparr>delivered := True\<rparr>])\<rparr>) (conversations s')\<rparr>) =
    (if x = cid then messages_of cid s @ [msg\<lparr>delivered := True\<rparr>] else messages_of x s)" for x
    by (simp add: messages_of_set ms)
  with mark ms msg show ?thesis by simp
qed

theorem sent_message_is_marked_witness:
  "\<exists>cmd msg s' s''. sendText (js ''m1'') (js ''now'') (js ''bo#1'') (js ''ana#1234'') (js ''hi'') new_chat = ((cmd, msg), s') \<and>
     markMessageDelivered (js ''bo#1'') (js ''m1'') s' = Inr s'' \<and> messages_of (js ''bo#1'') s'' = [msg\<lparr>delivered := True\<rparr>]"
proof -
  obtain cmd msg s' where send: "sendText (js ''m1'') (js ''now'') (js ''bo#1'') (js ''ana#1234'') (js ''hi'') new_chat = ((cmd, msg), s')"
    by (metis surj_pair)
  have empty: "messages_of (js ''bo#1'') new_chat = []"
    by (simp add: messages_of_def spread_conv_def find_conv_def new_chat_def empty_conversation_def)
  then have "js ''m1'' \<notin> msg_id ` set (messages_of (js ''bo#1'') new_chat)" by simp
  from sent_message_is_marked [OF _ this, of cmd msg s' "js ''now''" "js ''ana#1234''" "js ''hi''"] send empty
  show ?thesis by auto
qed

end
