(* ===== verification/LoginPage.thy ===== *)
theory LoginPage
  imports JsonValues AuthStore
begin

text \<open>
  apps/web/src/pages/LoginPage.tsx: signing in, registering and the second factor. A submission is two
  steps: the handler builds a request and clears the form's error; later the server's answer, or the
  failure of fetch, finishes it with the mode the handler had closed over. The answer's fields are read
  at their declared types; an answer outside them is \<open>None\<close>. The text that local storage has under
  winkd-auth is an argument.
\<close>

datatype mode = Login | Register | Totp

record login_page =
  lp_mode :: mode
  username :: jstr
  email :: jstr
  password :: jstr
  lp_error :: jstr
  loading :: bool
  oauthProviders :: "json list"
  challengeToken :: jstr
  totpCode :: jstr

definition new_login_page :: login_page where
  "new_login_page = \<lparr>lp_mode = Login, username = [], email = [], password = [], lp_error = [], loading = False,
     oauthProviders = [], challengeToken = [], totpCode = []\<rparr>"

record http_request =
  rq_path :: jstr
  rq_body :: json

text \<open>What fetch gives: it rejects, or a response with its ok flag and what \<open>res.json()\<close> does.\<close>

datatype http = NetworkError | Response bool "error + json"

section \<open>Providers\<close>

definition strings_of :: "json option \<Rightarrow> jstr list option" where
  "strings_of v = (case v of Some (JArr vs) \<Rightarrow>
       (if \<forall>x \<in> set vs. string_of (Some x) \<noteq> None then Some (List.map_filter (\<lambda>x. string_of (Some x)) vs) else None)
     | _ \<Rightarrow> None)"

definition providers_of :: "json \<Rightarrow> json list" where
  "providers_of d = (case json_get d (js ''providers'') of Some (JArr vs) \<Rightarrow> vs | _ \<Rightarrow> [])"

definition load_providers :: "http \<Rightarrow> login_page \<Rightarrow> login_page" where
  "load_providers r p = (case r of Response ok (Inr d) \<Rightarrow> if d = JNull then p else p\<lparr>oauthProviders := providers_of d\<rparr> | _ \<Rightarrow> p)"

section \<open>Signing in and registering\<close>

definition submit_body :: "login_page \<Rightarrow> json" where
  "submit_body p = JObj ([(js ''username'', JStr (username p)), (js ''password'', JStr (password p))] @
     (if lp_mode p = Login then [] else [(js ''display_name'', JStr (username p))]) @
     (if lp_mode p = Register \<and> js_trim (email p) \<noteq> [] then [(js ''email'', JStr (js_trim (email p)))] else []))"

definition handleSubmit :: "login_page \<Rightarrow> http_request \<times> login_page" where
  "handleSubmit p = (\<lparr>rq_path = (if lp_mode p = Login then js ''/api/auth/login'' else js ''/api/auth/register''),
     rq_body = submit_body p\<rparr>, p\<lparr>lp_error := [], loading := True\<rparr>)"

definition refused_message :: "mode \<Rightarrow> jstr option \<Rightarrow> jstr" where
  "refused_message m e = (case e of
     Some t \<Rightarrow> if js_includes (js ''taken'') t \<or> js_includes (js ''registered'') t then t
       else if m = Login then js ''Invalid username or password.'' else js ''Registration failed. Try a different username.''
   | None \<Rightarrow> if m = Login then js ''Invalid username or password.'' else js ''Registration failed. Try a different username.'')"

definition no_connection :: jstr where
  "no_connection = js ''Could not connect to server. Is it running?''"

text \<open>The profile that the persisted session has for the same user gives the avatar and the status.\<close>

definition stored_profile :: "jstr option \<Rightarrow> jstr \<Rightarrow> json option" where
  "stored_profile raw wid = (case raw of None \<Rightarrow> None | Some t \<Rightarrow> if t = [] then None
     else (case json_parse t of Inl _ \<Rightarrow> None
       | Inr existing \<Rightarrow> (let p = json_chain (json_chain (json_chain (Some existing) ''state'') ''session'') ''profile'' in
           if js_Boolean p \<and> json_chain p ''winkdId'' = Some (JStr wid) then p else None)))"

definition stored_avatar :: "json option \<Rightarrow> jstr option" where
  "stored_avatar p = string_of (json_chain p ''avatarData'')"

definition stored_status :: "json option \<Rightarrow> UserStatus" where
  "stored_status p = (case string_of (json_chain p ''status'') of None \<Rightarrow> Online | Some t \<Rightarrow> status_of t)"

record login_data =
  ld_token :: jstr
  ld_winkdId :: jstr
  ld_displayName :: jstr
  ld_mood :: "jstr option"
  ld_avatar :: "jstr option"

text \<open>A text that may be missing or null, which \<open>||\<close> and \<open>??\<close> replace.\<close>

definition opt_text :: "json option \<Rightarrow> jstr option option" where
  "opt_text v = (if nullish v then Some None else map_option Some (string_of v))"

definition login_data_of :: "json \<Rightarrow> login_data option" where
  "login_data_of d = (case (string_of (json_get d (js ''session_token'')), string_of (json_get d (js ''winkd_id'')),
       string_of (json_get d (js ''display_name'')), opt_text (json_get d (js ''mood_message'')),
       opt_text (json_get d (js ''avatar_data''))) of
     (Some t, Some w, Some n, Some m, Some x) \<Rightarrow> Some \<lparr>ld_token = t, ld_winkdId = w, ld_displayName = n,
       ld_mood = m, ld_avatar = x\<rparr>
   | _ \<Rightarrow> None)"

definition completeLogin :: "jstr option \<Rightarrow> login_data \<Rightarrow> AuthState \<Rightarrow> AuthState" where
  "completeLogin raw d a = (let p = stored_profile raw (ld_winkdId d) in
     login (ld_token d) \<lparr>winkdId = ld_winkdId d, displayName = ld_displayName d,
       moodMessage = (case ld_mood d of None \<Rightarrow> [] | Some m \<Rightarrow> m), status = stored_status p,
       avatarData = (case ld_avatar d of None \<Rightarrow> stored_avatar p | Some x \<Rightarrow> Some x), sessionToken = ld_token d\<rparr> a)"

text \<open>The second factor is asked for when both fields are truthy; the token is a text.\<close>

definition wants_challenge :: "json \<Rightarrow> bool" where
  "wants_challenge d \<longleftrightarrow> js_Boolean (json_get d (js ''totp_required'')) \<and> js_Boolean (json_get d (js ''challenge_token''))"

definition challenge_of :: "json \<Rightarrow> jstr option" where
  "challenge_of d = (if wants_challenge d then string_of (json_get d (js ''challenge_token'')) else None)"

definition fail_with :: "jstr \<Rightarrow> login_page \<Rightarrow> login_page" where
  "fail_with m p = p\<lparr>lp_error := m, loading := False\<rparr>"

definition submit_answer :: "mode \<Rightarrow> jstr option \<Rightarrow> http \<Rightarrow> login_page \<times> AuthState \<Rightarrow> (login_page \<times> AuthState) option" where
  "submit_answer m raw r = (\<lambda>(p, a). (case r of
     NetworkError \<Rightarrow> Some (fail_with no_connection p, a)
   | Response False (Inl _) \<Rightarrow> Some (fail_with (refused_message m None) p, a)
   | Response False (Inr d) \<Rightarrow> if d = JNull then Some (fail_with no_connection p, a)
       else map_option (\<lambda>e. (fail_with (refused_message m e) p, a)) (opt_text (json_get d (js ''error'')))
   | Response True (Inl _) \<Rightarrow> Some (fail_with no_connection p, a)
   | Response True (Inr d) \<Rightarrow> if d = JNull then Some (fail_with no_connection p, a)
       else if wants_challenge d then map_option
         (\<lambda>t. (p\<lparr>challengeToken := t, lp_mode := Totp, totpCode := [], loading := False\<rparr>, a)) (challenge_of d)
       else map_option (\<lambda>x. (p\<lparr>loading := False\<rparr>, completeLogin raw x a)) (login_data_of d)))"

section \<open>The second factor\<close>

definition handleTotpSubmit :: "login_page \<Rightarrow> http_request \<times> login_page" where
  "handleTotpSubmit p = (\<lparr>rq_path = js ''/api/auth/totp/challenge'',
     rq_body = JObj [(js ''challenge_token'', JStr (challengeToken p)), (js ''code'', JStr (totpCode p))]\<rparr>,
     p\<lparr>lp_error := [], loading := True\<rparr>)"

definition totp_answer :: "jstr option \<Rightarrow> http \<Rightarrow> login_page \<times> AuthState \<Rightarrow> (login_page \<times> AuthState) option" where
  "totp_answer raw r = (\<lambda>(p, a). (case r of
     NetworkError \<Rightarrow> Some (fail_with (js ''Could not connect to server.'') p, a)
   | Response False _ \<Rightarrow> Some ((fail_with (js ''Invalid code. Try again or use a backup code.'') p)\<lparr>totpCode := []\<rparr>, a)
   | Response True (Inl _) \<Rightarrow> Some (fail_with (js ''Could not connect to server.'') p, a)
   | Response True (Inr d) \<Rightarrow> if d = JNull then Some (fail_with (js ''Could not connect to server.'') p, a)
       else map_option (\<lambda>x. (p\<lparr>loading := False\<rparr>, completeLogin raw x a)) (login_data_of d)))"

text \<open>The tabs and the link back.\<close>

definition choose_mode :: "mode \<Rightarrow> login_page \<Rightarrow> login_page" where
  "choose_mode m p = p\<lparr>lp_mode := m, lp_error := []\<rparr>"

definition back_to_sign_in :: "login_page \<Rightarrow> login_page" where
  "back_to_sign_in p = p\<lparr>lp_mode := Login, lp_error := [], challengeToken := []\<rparr>"

definition type_totp :: "jstr \<Rightarrow> login_page \<Rightarrow> login_page" where
  "type_totp t p = p\<lparr>totpCode := filter (\<lambda>c. \<not> js_ws c) t\<rparr>"

section \<open>What the page shows\<close>

definition PROVIDER_LABELS :: "(jstr \<times> jstr) list" where
  "PROVIDER_LABELS = [(js ''discord'', js ''Discord''), (js ''google'', js ''Google''), (js ''github'', js ''GitHub''),
     (js ''microsoft'', js ''Microsoft''), (js ''facebook'', js ''Facebook''), (js ''twitter'', js ''X / Twitter''),
     (js ''twitch'', js ''Twitch''), (js ''reddit'', js ''Reddit''), (js ''spotify'', js ''Spotify''),
     (js ''linkedin'', js ''LinkedIn''), (js ''apple'', js ''Apple''), (js ''steam'', js ''Steam'')]"

text \<open>The address and the text of a provider's link; \<open>None\<close> when a provider is not a text. The address of the
  server is an argument.\<close>

definition provider_links :: "jstr \<Rightarrow> json list \<Rightarrow> (jstr \<times> jstr) list option" where
  "provider_links api ps = map_option (map (\<lambda>slug. (api @ js ''/api/auth/oauth/'' @ slug @ js ''/start'',
     case map_of PROVIDER_LABELS slug of Some l \<Rightarrow> l | None \<Rightarrow> slug))) (strings_of (Some (JArr ps)))"

datatype login_control =
    ModeTab mode bool
  | CodeField jstr | VerifyButton jstr bool | BackLink
  | UsernameField jstr | EmailField jstr | PasswordField jstr nat | SubmitButton jstr bool
  | ErrorBox jstr | ProviderLink jstr jstr | MoreOptions jstr

definition mode_tabs :: "login_page \<Rightarrow> login_control list" where
  "mode_tabs p = [ModeTab Login (lp_mode p = Login), ModeTab Register (lp_mode p = Register)]"

definition error_box :: "login_page \<Rightarrow> login_control list" where
  "error_box p = (if lp_error p = [] then [] else [ErrorBox (lp_error p)])"

definition totp_form :: "login_page \<Rightarrow> login_control list" where
  "totp_form p = [CodeField (totpCode p)] @ error_box p @
     [VerifyButton (if loading p then js ''Verifying'' @ [0x2026] else js ''Verify'') (\<not> loading p), BackLink]"

definition password_form :: "login_page \<Rightarrow> login_control list" where
  "password_form p = [UsernameField (username p)] @ (if lp_mode p = Register then [EmailField (email p)] else []) @
     [PasswordField (password p) (if lp_mode p = Register then 12 else 1)] @ error_box p @
     [SubmitButton (if loading p then js ''Please wait'' @ [0x2026]
        else if lp_mode p = Login then js ''Sign In'' else js ''Create Account'') (\<not> loading p)]"

definition login_view :: "jstr \<Rightarrow> login_page \<Rightarrow> login_control list option" where
  "login_view api p = (if lp_mode p = Totp then Some (totp_form p)
     else map_option (\<lambda>ls. mode_tabs p @ password_form p @ map (\<lambda>(u, l). ProviderLink u l) ls @ [MoreOptions (js ''/login.html'')])
       (provider_links api (oauthProviders p)))"

section \<open>What an answer can do\<close>

lemmas login_answers = submit_answer_def totp_answer_def fail_with_def

lemma completeLogin_session: "\<exists>s. session (completeLogin raw d a) = Some s \<and> token s = ld_token d \<and>
    winkdId (profile s) = ld_winkdId d \<and> supporter s = defaultSupporterState"
  by (simp add: completeLogin_def login_def set_session_def Let_def)

end
