(* ===== verification/LoginRuns.thy ===== *)
theory LoginRuns
  imports LoginPage Machines
begin

text \<open>
  The login page over time: typing, the tabs, submissions and the answers that finish them. Submitting is
  possible while the button is not disabled; a request that is on its way may be answered after the user
  has gone elsewhere on the page. The page is shown as long as there is no session. The browser's own
  checks of required fields are left out (they only rule events out).
\<close>

datatype request_kind = PasswordSent mode | TotpSent

record login_run =
  page :: login_page
  auth_state :: AuthState
  in_flight :: "request_kind list"
  providers_open :: bool
  asked :: "http_request list"
  answers :: "(request_kind \<times> http) list"

definition opened :: "AuthState \<Rightarrow> login_run" where
  "opened a = \<lparr>page = new_login_page, auth_state = a, in_flight = [], providers_open = True, asked = [], answers = []\<rparr>"

datatype login_event = TypeUsername jstr | TypeEmail jstr | TypePassword jstr | TypeTotp jstr
  | ChooseMode mode | BackToSignIn | Submit | SubmitTotp | ProvidersAnswer http | Answer nat "jstr option" http

definition finish :: "request_kind \<Rightarrow> jstr option \<Rightarrow> http \<Rightarrow> login_page \<times> AuthState \<Rightarrow> (login_page \<times> AuthState) option" where
  "finish k = (case k of PasswordSent m \<Rightarrow> submit_answer m | TotpSent \<Rightarrow> totp_answer)"

definition ask :: "request_kind \<Rightarrow> http_request \<times> login_page \<Rightarrow> login_run \<Rightarrow> login_run" where
  "ask k r L = L\<lparr>page := snd r, in_flight := in_flight L @ [k], asked := asked L @ [fst r]\<rparr>"

fun login_handle :: "login_event \<Rightarrow> login_run \<Rightarrow> login_run" where
  "login_handle (TypeUsername t) L = L\<lparr>page := (page L)\<lparr>username := t\<rparr>\<rparr>"
| "login_handle (TypeEmail t) L = L\<lparr>page := (page L)\<lparr>email := t\<rparr>\<rparr>"
| "login_handle (TypePassword t) L = L\<lparr>page := (page L)\<lparr>password := t\<rparr>\<rparr>"
| "login_handle (TypeTotp t) L = L\<lparr>page := type_totp t (page L)\<rparr>"
| "login_handle (ChooseMode m) L = L\<lparr>page := choose_mode m (page L)\<rparr>"
| "login_handle BackToSignIn L = L\<lparr>page := back_to_sign_in (page L)\<rparr>"
| "login_handle Submit L = ask (PasswordSent (lp_mode (page L))) (handleSubmit (page L)) L"
| "login_handle SubmitTotp L = ask TotpSent (handleTotpSubmit (page L)) L"
| "login_handle (ProvidersAnswer r) L = L\<lparr>page := load_providers r (page L), providers_open := False\<rparr>"
| "login_handle (Answer i raw r) L = (case finish (in_flight L ! i) raw r (page L, auth_state L) of None \<Rightarrow> L
     | Some (p, a) \<Rightarrow> L\<lparr>page := p, auth_state := a, in_flight := take i (in_flight L) @ drop (Suc i) (in_flight L),
         answers := answers L @ [(in_flight L ! i, r)]\<rparr>)"

text \<open>An answer whose fields are not of their declared types is outside the model.\<close>

fun login_enabled :: "login_run \<Rightarrow> login_event \<Rightarrow> bool" where
  "login_enabled L (TypeTotp t) \<longleftrightarrow> session (auth_state L) = None \<and> lp_mode (page L) = Totp"
| "login_enabled L (TypeEmail t) \<longleftrightarrow> session (auth_state L) = None \<and> lp_mode (page L) = Register"
| "login_enabled L (ChooseMode m) \<longleftrightarrow> session (auth_state L) = None \<and> lp_mode (page L) \<noteq> Totp \<and> m \<noteq> Totp"
| "login_enabled L BackToSignIn \<longleftrightarrow> session (auth_state L) = None \<and> lp_mode (page L) = Totp"
| "login_enabled L Submit \<longleftrightarrow> session (auth_state L) = None \<and> lp_mode (page L) \<noteq> Totp \<and> \<not> loading (page L)"
| "login_enabled L SubmitTotp \<longleftrightarrow> session (auth_state L) = None \<and> lp_mode (page L) = Totp \<and> \<not> loading (page L)"
| "login_enabled L (ProvidersAnswer r) \<longleftrightarrow> providers_open L"
| "login_enabled L (Answer i raw r) \<longleftrightarrow> i < length (in_flight L) \<and>
     finish (in_flight L ! i) raw r (page L, auth_state L) \<noteq> None"
| "login_enabled L _ \<longleftrightarrow> session (auth_state L) = None \<and> lp_mode (page L) \<noteq> Totp"

text \<open>The conditions on the events are those of the controls: what can be done is what the page shows.\<close>

lemma events_are_controls:
  assumes "session (auth_state L) = None" and "login_view api (page L) = Some v"
  shows "login_enabled L Submit \<longleftrightarrow> (\<exists>l. SubmitButton l True \<in> set v)"
    "login_enabled L SubmitTotp \<longleftrightarrow> (\<exists>l. VerifyButton l True \<in> set v)"
    "login_enabled L BackToSignIn \<longleftrightarrow> BackLink \<in> set v"
    "login_enabled L (ChooseMode m) \<longleftrightarrow> (\<exists>b. ModeTab m b \<in> set v)"
    "login_enabled L (TypeEmail t) \<longleftrightarrow> EmailField (email (page L)) \<in> set v"
    "login_enabled L (TypeTotp t) \<longleftrightarrow> CodeField (totpCode (page L)) \<in> set v"
    "login_enabled L (TypeUsername t) \<longleftrightarrow> UsernameField (username (page L)) \<in> set v"
    "login_enabled L (TypePassword t) \<longleftrightarrow> (\<exists>n. PasswordField (password (page L)) n \<in> set v)"
  using assms by (cases m; auto simp: login_view_def mode_tabs_def totp_form_def password_form_def error_box_def split: if_splits)+

section \<open>What a run keeps\<close>

text \<open>The challenges that answers to a password gave, and the answers that are allowed to give a session.\<close>

definition challenged :: "login_run \<Rightarrow> jstr \<Rightarrow> bool" where
  "challenged L t \<longleftrightarrow> t \<noteq> [] \<and> (\<exists>m d. (PasswordSent m, Response True (Inr d)) \<in> set (answers L) \<and> challenge_of d = Some t)"

definition granted :: "login_run \<Rightarrow> Session \<Rightarrow> bool" where
  "granted L s \<longleftrightarrow> (\<exists>k d x. (k, Response True (Inr d)) \<in> set (answers L) \<and> (k = TotpSent \<or> \<not> wants_challenge d) \<and>
     login_data_of d = Some x \<and> token s = ld_token x \<and> winkdId (profile s) = ld_winkdId x)"

text \<open>A request for the second factor carries a challenge and a code without white space.\<close>

definition totp_request :: "login_run \<Rightarrow> http_request \<Rightarrow> bool" where
  "totp_request L q \<longleftrightarrow> (\<exists>t code. challenged L t \<and> list_all (\<lambda>c. \<not> js_ws c) code \<and>
     rq_body q = JObj [(js ''challenge_token'', JStr t), (js ''code'', JStr code)])"

definition login_inv :: "login_run \<Rightarrow> bool" where
  "login_inv L \<longleftrightarrow> length (in_flight L) \<le> 1 \<and> (loading (page L) \<longleftrightarrow> in_flight L \<noteq> []) \<and>
     (lp_mode (page L) = Totp \<longrightarrow> challenged L (challengeToken (page L))) \<and>
     list_all (\<lambda>c. \<not> js_ws c) (totpCode (page L)) \<and>
     (\<forall>q \<in> set (asked L). rq_path q = js ''/api/auth/totp/challenge'' \<longrightarrow> totp_request L q) \<and>
     (case session (auth_state L) of None \<Rightarrow> True | Some s \<Rightarrow> granted L s)"

lemma login_inv_opened: "session a = None \<Longrightarrow> login_inv (opened a)"
  by (simp add: login_inv_def opened_def new_login_page_def)

lemma wants_challenge_token: "wants_challenge d \<Longrightarrow> challenge_of d = Some t \<Longrightarrow> t \<noteq> []"
  by (auto simp: wants_challenge_def challenge_of_def js_Boolean_def string_of_def split: option.splits json.splits)

lemma challenged_mono: "set (answers L) \<subseteq> set (answers L') \<Longrightarrow> challenged L t \<Longrightarrow> challenged L' t"
  by (auto simp: challenged_def)

lemma granted_mono: "set (answers L) \<subseteq> set (answers L') \<Longrightarrow> granted L s \<Longrightarrow> granted L' s"
  unfolding granted_def by blast

lemma totp_request_mono: "set (answers L) \<subseteq> set (answers L') \<Longrightarrow> totp_request L q \<Longrightarrow> totp_request L' q"
  unfolding totp_request_def by (blast dest: challenged_mono)

lemma same_answers [simp]:
  "challenged (L\<lparr>page := p\<rparr>) = challenged L" "challenged (L\<lparr>in_flight := ks\<rparr>) = challenged L"
  "challenged (L\<lparr>asked := qs\<rparr>) = challenged L"
  "challenged (L\<lparr>providers_open := b\<rparr>) = challenged L" "granted (L\<lparr>providers_open := b\<rparr>) = granted L"
  "totp_request (L\<lparr>providers_open := b\<rparr>) = totp_request L"
  "granted (L\<lparr>page := p\<rparr>) = granted L" "granted (L\<lparr>in_flight := ks\<rparr>) = granted L" "granted (L\<lparr>asked := qs\<rparr>) = granted L"
  "totp_request (L\<lparr>page := p\<rparr>) = totp_request L" "totp_request (L\<lparr>in_flight := ks\<rparr>) = totp_request L"
  "totp_request (L\<lparr>asked := qs\<rparr>) = totp_request L"
  by (simp_all add: fun_eq_iff challenged_def granted_def totp_request_def)

lemma grantedI:
  "(k, Response True (Inr d)) \<in> set (answers L) \<Longrightarrow> k = TotpSent \<or> \<not> wants_challenge d \<Longrightarrow> login_data_of d = Some x \<Longrightarrow>
    token s = ld_token x \<Longrightarrow> winkdId (profile s) = ld_winkdId x \<Longrightarrow> granted L s"
  unfolding granted_def by blast

text \<open>What an answer does to the page and the session.\<close>

lemma finish_cases:
  assumes "finish k raw r (p, a) = Some (p', a')"
  shows "\<not> loading p' \<and> (totpCode p' = totpCode p \<or> totpCode p' = []) \<and>
    ((lp_mode p' = lp_mode p \<and> challengeToken p' = challengeToken p) \<or>
     (\<exists>m d. k = PasswordSent m \<and> r = Response True (Inr d) \<and> challenge_of d = Some (challengeToken p') \<and> wants_challenge d)) \<and>
    (a' = a \<or> (\<exists>d x. r = Response True (Inr d) \<and> (k = TotpSent \<or> \<not> wants_challenge d) \<and>
       login_data_of d = Some x \<and> a' = completeLogin raw x a))"
  using assms
  by (auto simp: finish_def login_answers split: request_kind.splits http.splits bool.splits sum.splits option.splits if_splits)

lemma login_inv_answer:
  assumes I: "login_inv L" and e: "login_enabled L (Answer i raw r)"
  shows "login_inv (login_handle (Answer i raw r) L)"
proof -
  have one: "in_flight L = [in_flight L ! i]" "i = 0"
    using I e by (cases "in_flight L"; auto simp: login_inv_def)+
  let ?k = "in_flight L ! i"
  obtain p' a' where f: "finish ?k raw r (page L, auth_state L) = Some (p', a')" using e by auto
  let ?L = "L\<lparr>page := p', auth_state := a', in_flight := [], answers := answers L @ [(?k, r)]\<rparr>"
  have L': "login_handle (Answer i raw r) L = ?L" using f one by (simp, metis drop_Suc_Cons drop_Nil)
  note c = finish_cases [OF f]
  have mono: "set (answers L) \<subseteq> set (answers ?L)" by auto
  have "lp_mode p' = Totp \<longrightarrow> challenged ?L (challengeToken p')"
  proof (cases "\<exists>m d. ?k = PasswordSent m \<and> r = Response True (Inr d) \<and> challenge_of d = Some (challengeToken p') \<and> wants_challenge d")
    case True
    then show ?thesis using wants_challenge_token by (fastforce simp: challenged_def)
  next
    case False
    then show ?thesis using c I challenged_mono [OF mono] by (auto simp: login_inv_def)
  qed
  moreover have "case session a' of None \<Rightarrow> True | Some s \<Rightarrow> granted ?L s"
  proof (cases "a' = auth_state L")
    case True
    then show ?thesis using I granted_mono [OF mono] by (auto simp: login_inv_def split: option.splits)
  next
    case False
    then obtain d x where d: "r = Response True (Inr d)" "?k = TotpSent \<or> \<not> wants_challenge d" "login_data_of d = Some x"
      "a' = completeLogin raw x (auth_state L)"
      using c by blast
    with completeLogin_session [of raw x "auth_state L"] show ?thesis by (auto intro!: grantedI [of ?k d])
  qed
  ultimately show ?thesis using I c totp_request_mono [OF mono] unfolding L' by (auto simp: login_inv_def)
qed

lemma login_inv_handle:
  assumes I: "login_inv L" and e: "login_enabled L e"
  shows "login_inv (login_handle e L)"
proof (cases e)
  case SubmitTotp
  let ?q = "fst (handleTotpSubmit (page L))"
  have "challenged L (challengeToken (page L))" "list_all (\<lambda>c. \<not> js_ws c) (totpCode (page L))"
    using I e SubmitTotp by (simp_all add: login_inv_def)
  then have "totp_request L ?q" unfolding totp_request_def handleTotpSubmit_def by auto
  with I e SubmitTotp show ?thesis
    by (auto simp: login_inv_def ask_def  handleTotpSubmit_def)
next
  case Submit
  then show ?thesis using I e
    by (auto simp: login_inv_def ask_def  handleSubmit_def js_def split: option.splits)
next
  case (Answer i raw r)
  then show ?thesis using login_inv_answer I e by simp
qed (use I e in \<open>auto simp: login_inv_def  choose_mode_def back_to_sign_in_def type_totp_def load_providers_def list_all_iff
    split: http.splits sum.splits option.splits\<close>)

interpretation login_machine: machine_invariant login_enabled login_handle login_inv
  by unfold_locales (rule login_inv_handle)

end
