(* ===== verification/SecuritySettings.thy ===== *)
theory SecuritySettings
  imports LoginPage
begin

text \<open>
  apps/web/src/components/SecuritySettings.tsx: the two-factor, backup code, device and audit log
  handlers. As in the login page, a handler starts a request (\<open>None\<close> when it returns at once) and the
  answer finishes it. The handlers have a finally but (but for the device list) no catch: what fetch or
  json throws ends them with the loading flag cleared and nothing else. An answer whose fields are not of
  their declared types is \<open>None\<close>.
\<close>

record Device =
  dev_id :: jstr
  device_id :: int
  device_name :: jstr
  registered_at :: jstr
  last_seen :: jstr

record AuditEntry =
  au_id :: jstr
  action :: jstr
  ip_address :: "jstr option"
  metadata :: json
  created_at :: jstr

datatype setup_step = Idle | Qr | Done

record security =
  totpEnabled :: bool
  recoveryRemaining :: "int option js_prop"
  totpSetupUri :: jstr
  totpSetupSecret :: jstr
  confirmCode :: jstr
  disableCode :: jstr
  regenCode :: jstr
  backupCodes :: "jstr list"
  setupStep :: setup_step
  devices :: "Device list"
  devicesLoading :: bool
  devicesError :: jstr
  auditLog :: "AuditEntry list"
  auditLoaded :: bool
  msg :: jstr
  err :: jstr
  sec_loading :: bool
  clear_timers :: nat

definition new_security :: security where
  "new_security = \<lparr>totpEnabled = False, recoveryRemaining = Val None, totpSetupUri = [], totpSetupSecret = [],
     confirmCode = [], disableCode = [], regenCode = [], backupCodes = [], setupStep = Idle, devices = [],
     devicesLoading = False, devicesError = [], auditLog = [], auditLoaded = False, msg = [], err = [],
     sec_loading = False, clear_timers = 0\<rparr>"

section \<open>Messages\<close>

text \<open>flash shows one message and starts a timer of five seconds, which clears whatever is shown then.\<close>

definition flash :: "bool \<Rightarrow> jstr \<Rightarrow> security \<Rightarrow> security" where
  "flash isErr m s = s\<lparr>err := (if isErr then m else []), msg := (if isErr then [] else m),
     clear_timers := clear_timers s + 1\<rparr>"

definition clear_timer_fires :: "security \<Rightarrow> security" where
  "clear_timer_fires s = s\<lparr>msg := [], err := [], clear_timers := clear_timers s - 1\<rparr>"

definition started :: "security \<Rightarrow> security" where
  "started s = s\<lparr>sec_loading := True\<rparr>"

text \<open>The shape the handlers share: a refused answer flashes an error, an accepted one is read.\<close>

definition answered :: "http \<Rightarrow> jstr \<Rightarrow> (json \<Rightarrow> (security \<Rightarrow> security) option) \<Rightarrow> security \<Rightarrow> security option" where
  "answered r refused accept s = map_option (sec_loading_update (\<lambda>_. False)) (case r of
     NetworkError \<Rightarrow> Some s
   | Response False _ \<Rightarrow> Some (flash True refused s)
   | Response True (Inl _) \<Rightarrow> Some s
   | Response True (Inr d) \<Rightarrow> if d = JNull then Some s else map_option (\<lambda>f. f s) (accept d))"

text \<open>The handlers that do not read the body accept any response that is ok.\<close>

definition answered_ok :: "http \<Rightarrow> jstr \<Rightarrow> (security \<Rightarrow> security) \<Rightarrow> security \<Rightarrow> security" where
  "answered_ok r refused accept s = (sec_loading_update (\<lambda>_. False)) (case r of
     NetworkError \<Rightarrow> s | Response False _ \<Rightarrow> flash True refused s | Response True _ \<Rightarrow> accept s)"

section \<open>Reading answers\<close>

definition int_of :: "json option \<Rightarrow> int option" where
  "int_of v = (case v of Some (JInt i) \<Rightarrow> Some i | _ \<Rightarrow> None)"

definition device_of :: "json \<Rightarrow> Device option" where
  "device_of d = (case (string_of (json_get d (js ''id'')), int_of (json_get d (js ''device_id'')),
       string_of (json_get d (js ''device_name'')), string_of (json_get d (js ''registered_at'')),
       string_of (json_get d (js ''last_seen''))) of
     (Some i, Some k, Some n, Some r, Some l) \<Rightarrow>
       Some \<lparr>dev_id = i, device_id = k, device_name = n, registered_at = r, last_seen = l\<rparr>
   | _ \<Rightarrow> None)"

definition entry_of :: "json \<Rightarrow> AuditEntry option" where
  "entry_of d = (case (string_of (json_get d (js ''id'')), string_of (json_get d (js ''action'')),
       json_get d (js ''metadata''), string_of (json_get d (js ''created_at''))) of
     (Some i, Some a, Some m, Some c) \<Rightarrow>
       Some \<lparr>au_id = i, action = a, ip_address = string_of (json_get d (js ''ip_address'')), metadata = m, created_at = c\<rparr>
   | _ \<Rightarrow> None)"

text \<open>\<open>d.devices ?? []\<close> and \<open>d.events ?? []\<close>.\<close>

definition listed :: "(json \<Rightarrow> 'a option) \<Rightarrow> json option \<Rightarrow> 'a list option" where
  "listed f v = (if nullish v then Some [] else case v of
     Some (JArr vs) \<Rightarrow> (if \<forall>x \<in> set vs. f x \<noteq> None then Some (List.map_filter f vs) else None)
   | _ \<Rightarrow> None)"

section \<open>Status and devices\<close>

text \<open>The status is read without looking at whether the response is ok: a field that is not there is undefined,
  which counts as false and is not null.\<close>

definition status_fields :: "json \<Rightarrow> (bool \<times> int option js_prop) option" where
  "status_fields d = (case (json_get d (js ''totp_enabled''), json_get d (js ''recovery_codes_remaining'')) of
     (Some (JBool b), Some (JInt n)) \<Rightarrow> Some (b, Val (Some n))
   | (Some (JBool b), None) \<Rightarrow> Some (b, Undef)
   | (None, Some (JInt n)) \<Rightarrow> Some (False, Val (Some n))
   | (None, None) \<Rightarrow> Some (False, Undef)
   | _ \<Rightarrow> None)"

definition status_answer :: "http \<Rightarrow> security \<Rightarrow> security option" where
  "status_answer r s = (case r of
     Response _ (Inr d) \<Rightarrow> if d = JNull then Some s else
       map_option (\<lambda>(b, n). s\<lparr>totpEnabled := b, recoveryRemaining := n\<rparr>) (status_fields d)
   | _ \<Rightarrow> Some s)"

definition loadDevices :: "jstr \<Rightarrow> security \<Rightarrow> (http_request \<times> security) option" where
  "loadDevices sessionTok s = (if sessionTok = [] then None else
     Some (\<lparr>rq_path = js ''/api/devices'', rq_body = JNull\<rparr>, s\<lparr>devicesLoading := True, devicesError := []\<rparr>))"

definition devices_failed :: jstr where
  "devices_failed = js ''Could not load connected devices right now.''"

definition devices_answer :: "http \<Rightarrow> security \<Rightarrow> security option" where
  "devices_answer r s = map_option (devicesLoading_update (\<lambda>_. False)) (case r of
     Response True (Inr d) \<Rightarrow> if d = JNull then Some (s\<lparr>devicesError := devices_failed\<rparr>)
       else map_option (\<lambda>ds. s\<lparr>devices := ds\<rparr>) (listed device_of (json_get d (js ''devices'')))
   | _ \<Rightarrow> Some (s\<lparr>devicesError := devices_failed\<rparr>))"

definition revokeDevice :: "int \<Rightarrow> security \<Rightarrow> http_request \<times> security" where
  "revokeDevice k s = (\<lparr>rq_path = js ''/api/devices/'' @ js_int k, rq_body = JNull\<rparr>, started s)"

definition revoke_answer :: "int \<Rightarrow> http \<Rightarrow> security \<Rightarrow> security" where
  "revoke_answer k r = answered_ok r (js ''Could not revoke device.'')
     (\<lambda>s. flash False (js ''Device revoked.'') (s\<lparr>devices := filter (\<lambda>d. device_id d \<noteq> k) (devices s)\<rparr>))"

section \<open>Two factors\<close>

definition code_body :: "jstr \<Rightarrow> json" where
  "code_body c = JObj [(js ''code'', JStr c)]"

definition startSetup :: "security \<Rightarrow> http_request \<times> security" where
  "startSetup s = (\<lparr>rq_path = js ''/api/auth/totp/setup'', rq_body = JNull\<rparr>, started s)"

definition setup_answer :: "http \<Rightarrow> security \<Rightarrow> security option" where
  "setup_answer r = answered r (js ''Setup failed.'') (\<lambda>d.
     case (string_of (json_get d (js ''secret'')), string_of (json_get d (js ''uri''))) of
       (Some k, Some u) \<Rightarrow> Some (\<lambda>s. s\<lparr>totpSetupSecret := k, totpSetupUri := u, setupStep := Qr, confirmCode := []\<rparr>)
     | _ \<Rightarrow> None)"

definition confirmSetup :: "security \<Rightarrow> http_request \<times> security" where
  "confirmSetup s = (\<lparr>rq_path = js ''/api/auth/totp/confirm'', rq_body = code_body (confirmCode s)\<rparr>, started s)"

definition confirm_answer :: "http \<Rightarrow> security \<Rightarrow> security option" where
  "confirm_answer r = answered r (js ''Invalid code. Check your authenticator app.'') (\<lambda>d.
     map_option (\<lambda>cs s. flash False (js ''2FA enabled! Save your backup codes.'')
       (s\<lparr>backupCodes := cs, totpEnabled := True, setupStep := Done\<rparr>)) (strings_of (json_get d (js ''backup_codes''))))"

definition disableTotp :: "security \<Rightarrow> (http_request \<times> security) option" where
  "disableTotp s = (if js_trim (disableCode s) = [] then None else
     Some (\<lparr>rq_path = js ''/api/auth/totp/disable'', rq_body = code_body (disableCode s)\<rparr>, started s))"

definition disable_answer :: "http \<Rightarrow> security \<Rightarrow> security" where
  "disable_answer r = answered_ok r (js ''Invalid code.'')
     (\<lambda>s. flash False (js ''2FA has been disabled.'') (s\<lparr>totpEnabled := False, disableCode := []\<rparr>))"

definition regenerateCodes :: "security \<Rightarrow> (http_request \<times> security) option" where
  "regenerateCodes s = (if js_trim (regenCode s) = [] then None else
     Some (\<lparr>rq_path = js ''/api/auth/recovery-codes/generate'', rq_body = code_body (regenCode s)\<rparr>, started s))"

definition codes_generated :: jstr where
  "codes_generated = js ''New backup codes generated. Save them now '' @ 0x2014 # js '' they won'' @ 39 # js ''t be shown again.''"

definition regenerate_answer :: "http \<Rightarrow> security \<Rightarrow> security option" where
  "regenerate_answer r = answered r (js ''Invalid code.'') (\<lambda>d.
     map_option (\<lambda>cs s. flash False codes_generated
       (s\<lparr>backupCodes := cs, recoveryRemaining := Val (Some (int (length cs))), regenCode := []\<rparr>))
       (strings_of (json_get d (js ''backup_codes''))))"

section \<open>Audit log\<close>

definition loadAuditLog :: "security \<Rightarrow> http_request \<times> security" where
  "loadAuditLog s = (\<lparr>rq_path = js ''/api/security/audit-log'', rq_body = JNull\<rparr>, started s)"

definition audit_answer :: "http \<Rightarrow> security \<Rightarrow> security option" where
  "audit_answer r = answered r (js ''Could not load audit log.'') (\<lambda>d.
     map_option (\<lambda>es s. s\<lparr>auditLog := es, auditLoaded := True\<rparr>) (listed entry_of (json_get d (js ''events''))))"

section \<open>Fields and buttons\<close>

text \<open>What the fields keep of what is typed: digits of the confirmation code, no white space in the others.\<close>

definition type_confirm_code :: "jstr \<Rightarrow> security \<Rightarrow> security" where
  "type_confirm_code t s = s\<lparr>confirmCode := filter is_digit t\<rparr>"

definition type_disable_code :: "jstr \<Rightarrow> security \<Rightarrow> security" where
  "type_disable_code t s = s\<lparr>disableCode := filter (\<lambda>c. \<not> js_ws c) t\<rparr>"

definition type_regen_code :: "jstr \<Rightarrow> security \<Rightarrow> security" where
  "type_regen_code t s = s\<lparr>regenCode := filter (\<lambda>c. \<not> js_ws c) t\<rparr>"

definition cancel_setup :: "security \<Rightarrow> security" where
  "cancel_setup s = s\<lparr>setupStep := Idle\<rparr>"

definition setup_done :: "security \<Rightarrow> security" where
  "setup_done s = s\<lparr>setupStep := Idle, backupCodes := []\<rparr>"

definition codes_done :: "security \<Rightarrow> security" where
  "codes_done s = s\<lparr>backupCodes := []\<rparr>"

section \<open>What the panel shows\<close>

text \<open>The controls of the panel in their order; a button comes with whether it can be pressed.\<close>

datatype security_control =
    Shown jstr | ShownError jstr
  | EnableButton bool
  | SetupUri jstr | SetupSecret jstr | ConfirmField jstr | ConfirmButton bool | CancelButton bool
  | SetupCodes "jstr list" | SetupDone
  | Remaining "jstr option" | DisableField jstr | DisableButton bool
  | NewCodes "jstr list" | RegenField jstr | RegenButton bool | CodesDone
  | DevicesLoading | DevicesError jstr | RetryButton bool | RefreshButton bool | DeviceRow jstr bool int bool
  | AuditButton bool | NoEvents | AuditRow jstr "jstr option"

text \<open>The flashed message, and the note on the backup codes: an undefined number is not null and shows as nothing.\<close>

definition flashed :: "security \<Rightarrow> security_control list" where
  "flashed s = (if msg s = [] then [] else [Shown (msg s)]) @ (if err s = [] then [] else [ShownError (err s)])"

definition remaining_text :: "int option js_prop \<Rightarrow> jstr option" where
  "remaining_text v = (case v of
     Val None \<Rightarrow> None
   | Val (Some n) \<Rightarrow> Some (js ''('' @ js_int n @ js '' backup code'' @ (if n \<noteq> 1 then js ''s'' else []) @ js '' remaining)'')
   | _ \<Rightarrow> Some (js ''( backup codes remaining)''))"

definition setup_controls :: "security \<Rightarrow> security_control list" where
  "setup_controls s = (let free = \<not> sec_loading s in
     (if \<not> totpEnabled s \<and> setupStep s = Idle then [EnableButton free] else []) @
     (if setupStep s = Qr then [SetupUri (totpSetupUri s), SetupSecret (totpSetupSecret s), ConfirmField (confirmCode s),
        ConfirmButton (free \<and> length (confirmCode s) = 6), CancelButton free] else []) @
     (if setupStep s = Done \<and> backupCodes s \<noteq> [] then [SetupCodes (backupCodes s), SetupDone] else []) @
     (if totpEnabled s \<and> setupStep s = Idle then [Remaining (remaining_text (recoveryRemaining s)), DisableField (disableCode s),
        DisableButton (free \<and> 6 \<le> length (js_trim (disableCode s)))] else []))"

definition code_controls :: "security \<Rightarrow> security_control list" where
  "code_controls s = (if \<not> totpEnabled s then []
     else if backupCodes s \<noteq> [] then [NewCodes (backupCodes s), CodesDone]
     else [RegenField (regenCode s), RegenButton (\<not> sec_loading s \<and> 6 \<le> length (js_trim (regenCode s)))])"

text \<open>The first device of the list is marked as the current one, and every one with the same number.\<close>

definition currentDeviceId :: "security \<Rightarrow> int option" where
  "currentDeviceId s = (case devices s of [] \<Rightarrow> None | d # _ \<Rightarrow> Some (device_id d))"

definition device_controls :: "security \<Rightarrow> security_control list" where
  "device_controls s = (let free = \<not> sec_loading s in
     if devicesLoading s then [DevicesLoading]
     else if devicesError s \<noteq> [] then [DevicesError (devicesError s), RetryButton free]
     else if devices s = [] then [RefreshButton free]
     else map (\<lambda>d. DeviceRow (device_name d) (currentDeviceId s = Some (device_id d)) (device_id d) free) (devices s))"

definition actionLabel :: "(jstr \<times> jstr) list" where
  "actionLabel = [(js ''login'', 0x2705 # js '' Login''), (js ''login_failed'', 0x274C # js '' Login failed''),
     (js ''register'', [0xD83C, 0xDD95] @ js '' Account created''), (js ''logout'', [0xD83D, 0xDC4B] @ js '' Logged out''),
     (js ''totp_enabled'', [0xD83D, 0xDD10] @ js '' 2FA enabled''), (js ''totp_disabled'', [0xD83D, 0xDD13] @ js '' 2FA disabled''),
     (js ''totp_challenge_issued'', [0xD83D, 0xDD11] @ js '' 2FA challenge issued''),
     (js ''totp_challenge_passed'', 0x2705 # js '' 2FA passed''), (js ''totp_challenge_failed'', 0x274C # js '' 2FA failed''),
     (js ''recovery_code_used'', [0xD83D, 0xDD11] @ js '' Backup code used''),
     (js ''recovery_codes_regenerated'', [0xD83D, 0xDD04] @ js '' Backup codes regenerated''),
     (js ''device_registered'', [0xD83D, 0xDCBB] @ js '' Device registered''),
     (js ''device_revoked'', [0xD83D, 0xDDD1, 0xFE0F] @ js '' Device revoked''),
     (js ''password_changed'', [0xD83D, 0xDD12] @ js '' Password changed'')]"

text \<open>An action without a label is shown as it is; none is taken to be the name of a member every object has.\<close>

definition audit_row :: "AuditEntry \<Rightarrow> security_control" where
  "audit_row e = AuditRow (case map_of actionLabel (action e) of Some l \<Rightarrow> l | None \<Rightarrow> action e)
     (case ip_address e of Some (c # t) \<Rightarrow> Some (c # t) | _ \<Rightarrow> None)"

definition audit_controls :: "security \<Rightarrow> security_control list" where
  "audit_controls s = (if \<not> auditLoaded s then [AuditButton (\<not> sec_loading s)]
     else if auditLog s = [] then [NoEvents] else map audit_row (auditLog s))"

definition security_view :: "security \<Rightarrow> security_control list" where
  "security_view s = flashed s @ setup_controls s @ code_controls s @ device_controls s @ audit_controls s"

lemmas security_answers = answered_def answered_ok_def setup_answer_def confirm_answer_def disable_answer_def
  regenerate_answer_def revoke_answer_def audit_answer_def flash_def

end
