(* ===== verification/UiKit.thy ===== *)
theory UiKit
  imports JsText WinkdTypes
begin

text \<open>
  packages/ui and the small components of apps/web: avatars, the status pill, the chat bubble of the
  package, the row of a contact, the status bar, the toolbar of a conversation, the error boundary.
  A component is the function from its properties to what it shows; sizes, fonts and fixed styles are left
  out, colours are there where they depend on the properties. The upper case of an arbitrary character
  is Unicode data: \<open>toUpperCase\<close> is a parameter.
\<close>

section \<open>Avatar\<close>

definition GRADIENT_PAIRS :: "(jstr \<times> jstr) list" where
  "GRADIENT_PAIRS = [(js ''#4a90e2'', js ''#1a5acc''), (js ''#7b5ea7'', js ''#4a2d7a''), (js ''#e25c5c'', js ''#a02020''),
     (js ''#3aab6e'', js ''#1a7040''), (js ''#e2904a'', js ''#a05020''), (js ''#4ac4e2'', js ''#1a80a0'')]"

text \<open>\<open>charCodeAt\<close> of no character is NaN, for which there is no pair: reading it throws.\<close>

definition gradientForInitials :: "jstr \<Rightarrow> error + jstr" where
  "gradientForInitials initials = (case initials of [] \<Rightarrow> Inl TypeErr
   | c # cs \<Rightarrow> (let idx = (unat c + (case cs of [] \<Rightarrow> 0 | d # _ \<Rightarrow> unat d)) mod length GRADIENT_PAIRS;
         (from, to) = GRADIENT_PAIRS ! idx in
       Inr (js ''linear-gradient(135deg, '' @ from @ js '', '' @ to @ js '')'')))"

definition STATUS_DOT_COLOR :: "UserStatus \<Rightarrow> jstr option" where
  "STATUS_DOT_COLOR s = (case s of Online \<Rightarrow> Some (js ''#00CC00'') | Away \<Rightarrow> Some (js ''#FFAA00'')
     | Busy \<Rightarrow> Some (js ''#DD2020'') | Invisible \<Rightarrow> Some (js ''#AAAAAA'') | OtherStatus _ \<Rightarrow> None)"

text \<open>Avatar data without a scheme is the base64 text of a PNG; the empty text is no data.\<close>

definition normalizedAvatarData :: "jstr option \<Rightarrow> jstr option" where
  "normalizedAvatarData av = (case av of None \<Rightarrow> None
     | Some d \<Rightarrow> if d \<noteq> [] \<and> \<not> starts_with (js ''data:'') d \<and> \<not> starts_with (js ''http'') d
         then Some (js ''data:image/png;base64,'' @ d) else Some d)"

definition avatar_initials :: "(jstr \<Rightarrow> jstr) \<Rightarrow> jstr \<Rightarrow> jstr" where
  "avatar_initials toUpperCase name =
     concat (take 2 (map (\<lambda>w. case w of [] \<Rightarrow> [] | c # _ \<Rightarrow> toUpperCase [c]) (split_on 32 name)))"

datatype avatar_face = Picture jstr | Initials jstr

record avatar =
  av_face :: avatar_face
  av_background :: "jstr option"
  av_dot :: "jstr option option"

definition js_text_or :: "jstr \<Rightarrow> jstr \<Rightarrow> jstr" where
  "js_text_or s d = (if s = [] then d else s)"

definition Avatar :: "(jstr \<Rightarrow> jstr) \<Rightarrow> jstr \<Rightarrow> jstr option \<Rightarrow> UserStatus option \<Rightarrow> error + avatar" where
  "Avatar toUpperCase name av st = (let initials = avatar_initials toUpperCase name;
       dot = map_option STATUS_DOT_COLOR st in
     case normalizedAvatarData av of
       Some (c # u) \<Rightarrow> Inr \<lparr>av_face = Picture (c # u), av_background = None, av_dot = dot\<rparr>
     | _ \<Rightarrow> bindR (gradientForInitials (js_text_or initials (js ''??'')))
         (\<lambda>g. Inr \<lparr>av_face = Initials (js_text_or initials (js ''?'')), av_background = Some g, av_dot = dot\<rparr>))"

section \<open>Status pill\<close>

definition pill_label :: "UserStatus \<Rightarrow> jstr option" where
  "pill_label s = (case s of Online \<Rightarrow> Some (js ''Online'') | Away \<Rightarrow> Some (js ''Away'') | Busy \<Rightarrow> Some (js ''Busy'')
     | Invisible \<Rightarrow> Some (js ''Invisible'') | OtherStatus _ \<Rightarrow> None)"

section \<open>Chat bubble\<close>

datatype chat_bubble = SystemLine "jstr option" | WinkdBanner jstr | NudgeBanner jstr | TextLine bool "jstr option" | NoLine

definition body_text :: "Message \<Rightarrow> jstr option" where
  "body_text m = (case m_body m of Val b \<Rightarrow> Some b | _ \<Rightarrow> None)"

definition ChatBubble :: "Message \<Rightarrow> bool \<Rightarrow> chat_bubble" where
  "ChatBubble m isMine = (case msg_type m of
     TSystem \<Rightarrow> SystemLine (body_text m)
   | TWinkd \<Rightarrow> WinkdBanner ([0xD83D, 0xDCA5, 32] @ (if isMine then js ''You sent a Winkd!'' else js ''Someone sent you a Winkd! Your window is shaking!''))
   | TNudge \<Rightarrow> NudgeBanner ([0xD83E, 0xDEF8, 32] @ (if isMine then js ''You nudged!'' else js ''You were nudged!''))
   | TText \<Rightarrow> TextLine isMine (body_text m)
   | _ \<Rightarrow> NoLine)"

section \<open>Contact row\<close>

definition row_background :: "bool \<Rightarrow> bool \<Rightarrow> jstr" where
  "row_background isSelected hovered = (if isSelected then js ''rgba(26,90,204,0.38)''
     else if hovered then js ''rgba(26,90,204,0.18)'' else js ''transparent'')"

definition unread_badge :: "int \<Rightarrow> jstr option" where
  "unread_badge n = (if n > 0 then Some (if n > 99 then js ''99+'' else js_int n) else None)"

record contact_row =
  row_name :: jstr
  row_mood :: "jstr option"
  row_selected :: bool
  row_badge :: "jstr option"

definition ContactItem :: "Contact \<Rightarrow> bool \<Rightarrow> int \<Rightarrow> contact_row" where
  "ContactItem c isSelected n = \<lparr>row_name = displayName c,
     row_mood = (if moodMessage c \<noteq> [] then Some (moodMessage c) else None), row_selected = isSelected, row_badge = unread_badge n\<rparr>"

section \<open>Status bar\<close>

text \<open>The lock is U+1F512.\<close>

definition encrypted_label :: jstr where
  "encrypted_label = [0xD83D, 0xDD12] @ js '' End-to-end encrypted''"

definition StatusBar :: "bool option \<Rightarrow> jstr option \<Rightarrow> jstr list" where
  "StatusBar isEncrypted extra = (if isEncrypted = None \<or> isEncrypted = Some True then [encrypted_label] else []) @
     (case extra of Some (c # t) \<Rightarrow> [c # t] | _ \<Rightarrow> [])"

section \<open>Toolbar\<close>

datatype toolbar_variant = WinkdVariant | NudgeVariant | DefaultVariant

definition base_background :: "toolbar_variant \<Rightarrow> jstr" where
  "base_background v = (case v of
     WinkdVariant \<Rightarrow> js ''linear-gradient(180deg, #fff8d0 0%, #ffe880 100%)''
   | NudgeVariant \<Rightarrow> js ''linear-gradient(180deg, #d8ffd8 0%, #a0f0a0 100%)''
   | DefaultVariant \<Rightarrow> js ''linear-gradient(180deg, rgba(220,235,255,0.88) 0%, rgba(180,210,255,0.75) 100%)'')"

definition hover_background :: "toolbar_variant \<Rightarrow> jstr" where
  "hover_background v = (case v of
     WinkdVariant \<Rightarrow> js ''linear-gradient(180deg, #fffae0 0%, #ffec90 100%)''
   | NudgeVariant \<Rightarrow> js ''linear-gradient(180deg, #e8ffe8 0%, #b8f8b8 100%)''
   | DefaultVariant \<Rightarrow> js ''linear-gradient(180deg, rgba(230,242,255,0.95) 0%, rgba(195,220,255,0.85) 100%)'')"

definition button_background :: "toolbar_variant \<Rightarrow> bool \<Rightarrow> bool \<Rightarrow> jstr" where
  "button_background v disabled hovered = (if disabled then js ''rgba(180,200,230,0.25)''
     else if hovered then hover_background v else base_background v)"

datatype toolbar_action = DoWinkd | DoNudge | DoWinks | DoEmoticons | DoFormat | DoBackground | DoDraw

text \<open>The labels begin with a picture, except the letter A.\<close>

definition WinkdToolbar :: "(jstr \<times> toolbar_action \<times> toolbar_variant) list" where
  "WinkdToolbar = [([0xD83D, 0xDCA5] @ js '' Winkd!'', DoWinkd, WinkdVariant), ([0xD83E, 0xDEF8] @ js '' Nudge'', DoNudge, NudgeVariant),
     ([0x2728] @ js '' Winks'', DoWinks, DefaultVariant), ([0xD83D, 0xDE04] @ js '' Emoticons'', DoEmoticons, DefaultVariant),
     (js ''A'', DoFormat, DefaultVariant), ([0xD83D, 0xDDBC, 0xFE0F] @ js '' BG'', DoBackground, DefaultVariant),
     ([0x270F, 0xFE0F] @ js '' Draw'', DoDraw, DefaultVariant)]"

section \<open>Error boundary\<close>

text \<open>Once a child has thrown while rendering, the boundary shows its own page until the page is loaded
  again.\<close>

definition getDerivedStateFromError :: bool where
  "getDerivedStateFromError \<longleftrightarrow> True"

definition AppErrorBoundary :: "(error + 'v) \<Rightarrow> bool \<Rightarrow> bool \<times> 'v option" where
  "AppErrorBoundary children hasError = (if hasError then (True, None)
     else (case children of Inl _ \<Rightarrow> (getDerivedStateFromError, None) | Inr v \<Rightarrow> (False, Some v)))"

section \<open>An avatar can always be shown\<close>

lemma gradient_shown: "s \<noteq> [] \<Longrightarrow> \<exists>g. gradientForInitials s = Inr g"
  by (cases s) (simp_all add: gradientForInitials_def Let_def split: prod.split)

lemma js_text_or_nonempty: "d \<noteq> [] \<Longrightarrow> js_text_or s d \<noteq> []"
  by (simp add: js_text_or_def)

lemma avatar_shown: "\<exists>a. Avatar up name d st = Inr a"
proof -
  obtain g where "gradientForInitials (js_text_or (avatar_initials up name) (js ''??'')) = Inr g"
    using gradient_shown js_text_or_nonempty by (metis js_Nil(2) list.distinct(1))
  then show ?thesis by (simp add: Avatar_def Let_def split: option.split list.split)
qed

lemma gradient_is_listed:
  "gradientForInitials s = Inr g \<Longrightarrow>
    \<exists>(a, b) \<in> set GRADIENT_PAIRS. g = js ''linear-gradient(135deg, '' @ a @ js '', '' @ b @ js '')''"
proof (cases s)
  case (Cons c cs)
  let ?i = "(unat c + (case cs of [] \<Rightarrow> 0 | d # _ \<Rightarrow> unat d)) mod length GRADIENT_PAIRS"
  have "GRADIENT_PAIRS ! ?i \<in> set GRADIENT_PAIRS" by (rule nth_mem) (simp add: GRADIENT_PAIRS_def)
  moreover assume "gradientForInitials s = Inr g"
  ultimately show ?thesis
    by (auto simp: gradientForInitials_def Cons Let_def split: prod.splits intro!: bexI [where x = "GRADIENT_PAIRS ! ?i"])
qed (simp add: gradientForInitials_def)

end
