(* ===== verification/Sidebar.thy ===== *)
theory Sidebar
  imports JsText ContactManager AuthStore ChatStore ContactsStore UiKit
begin

text \<open>
  apps/web/src/components/Sidebar.tsx: the buddy list's groups and the handlers of its forms. A handler
  returns the commands it hands to the socket, in order. The lower case of an arbitrary display name is
  Unicode data: \<open>toLowerCase\<close> is a parameter of the search.
\<close>

section \<open>Groups\<close>

definition STATUS_CYCLE :: "UserStatus list" where
  "STATUS_CYCLE = [Online, Away, Busy, Invisible]"

datatype UIGroup = GOnline | GAway | GOffline

definition UI_GROUPS :: "(UIGroup \<times> jstr \<times> (Contact \<Rightarrow> bool)) list" where
  "UI_GROUPS = [(GOnline, js ''Online'', \<lambda>c. status c = Online),
     (GAway, js ''Away / Busy'', \<lambda>c. status c = Away \<or> status c = Busy),
     (GOffline, js ''Offline'', \<lambda>c. status c = Invisible)]"

definition matches_query :: "(jstr \<Rightarrow> jstr) \<Rightarrow> jstr \<Rightarrow> Contact \<Rightarrow> bool" where
  "matches_query toLowerCase query c \<longleftrightarrow> query = [] \<or> js_includes (toLowerCase query) (toLowerCase (displayName c))"

definition filteredAccepted :: "(jstr \<Rightarrow> jstr) \<Rightarrow> jstr \<Rightarrow> ContactsState \<Rightarrow> Contact list" where
  "filteredAccepted toLowerCase query b =
     filter (matches_query toLowerCase query) (filter (\<lambda>c. requestStatus c = Accepted) (contacts b))"

definition filteredPendingOut :: "(jstr \<Rightarrow> jstr) \<Rightarrow> jstr \<Rightarrow> ContactsState \<Rightarrow> Contact list" where
  "filteredPendingOut toLowerCase query b =
     filter (matches_query toLowerCase query) (filter (\<lambda>c. requestStatus c = PendingOutbound) (contacts b))"

text \<open>The groups that are shown, with their contacts (a group that is empty is not).\<close>

definition shown_groups :: "Contact list \<Rightarrow> (UIGroup \<times> Contact list) list" where
  "shown_groups cs = filter (\<lambda>(k, g). g \<noteq> []) (map (\<lambda>(k, label, p). (k, filter p cs)) UI_GROUPS)"

section \<open>State\<close>

datatype add_mode = IdMode | QrMode

record sidebar =
  collapsed :: "UIGroup \<Rightarrow> bool"
  searchQuery :: jstr
  showProfileEdit :: bool
  showSecurity :: bool
  showBlockedUsers :: bool
  showPendingModal :: bool
  showAddContact :: bool
  addContactInput :: jstr
  addContactMode :: add_mode
  qrScanInput :: jstr
  qrScanHint :: jstr
  addContactError :: jstr
  addContactSent :: bool

definition new_sidebar :: sidebar where
  "new_sidebar = \<lparr>collapsed = (\<lambda>g. g = GOffline), searchQuery = [], showProfileEdit = False,
     showSecurity = False, showBlockedUsers = False, showPendingModal = False, showAddContact = False,
     addContactInput = [], addContactMode = IdMode, qrScanInput = [], qrScanHint = [], addContactError = [],
     addContactSent = False\<rparr>"

definition sb_command :: "string \<Rightarrow> (string \<times> jstr) list \<Rightarrow> json" where
  "sb_command c fs = JObj [(js ''command'', JStr (js c)), (js ''payload'', JObj (map (\<lambda>(k, v). (js k, JStr v)) fs))]"

definition status_name :: "UserStatus \<Rightarrow> jstr" where
  "status_name s = (case s of Online \<Rightarrow> js ''online'' | Away \<Rightarrow> js ''away'' | Busy \<Rightarrow> js ''busy''
     | Invisible \<Rightarrow> js ''invisible'' | OtherStatus t \<Rightarrow> t)"

section \<open>Own profile\<close>

text \<open>\<open>indexOf\<close> gives -1 for a status that is not in the cycle, so its successor is the first.\<close>

fun index_from :: "int \<Rightarrow> 'a \<Rightarrow> 'a list \<Rightarrow> int" where
  "index_from n x [] = -1"
| "index_from n x (y # ys) = (if y = x then n else index_from (n + 1) x ys)"

definition next_status :: "UserStatus \<Rightarrow> UserStatus" where
  "next_status s = STATUS_CYCLE ! nat ((index_from 0 s STATUS_CYCLE + 1) mod int (length STATUS_CYCLE))"

definition cycleStatus :: "Session \<Rightarrow> AuthState \<Rightarrow> json list \<times> AuthState" where
  "cycleStatus ses a = (let s' = next_status (status (profile ses)) in
     ([sb_command ''set_status'' [(''status'', status_name s')]], updateProfile (\<lambda>p. p\<lparr>status := s'\<rparr>) a))"

definition handleProfileSave :: "jstr \<Rightarrow> jstr \<Rightarrow> AuthState \<Rightarrow> json list \<times> AuthState" where
  "handleProfileSave name mood a =
     ([sb_command ''set_display_name'' [(''display_name'', name)], sb_command ''set_mood'' [(''mood'', mood)]],
      updateProfile (\<lambda>p. p\<lparr>displayName := name, moodMessage := mood\<rparr>) a)"

section \<open>Contacts and invitations\<close>

definition handleContactClick :: "Contact \<Rightarrow> ChatState \<times> ContactsState \<Rightarrow> ChatState \<times> ContactsState" where
  "handleContactClick contact = (\<lambda>(s, b). (openConversation (contact_id contact) s, clearUnread (contact_id contact) b))"

definition answer_invitation :: "string \<Rightarrow> jstr \<Rightarrow> ContactsState \<Rightarrow> json list \<times> ContactsState" where
  "answer_invitation c r b = ([sb_command c [(''request_id'', r)]], removePendingInvitation r b)"

definition handleApprove :: "jstr \<Rightarrow> ContactsState \<Rightarrow> json list \<times> ContactsState" where
  "handleApprove = answer_invitation ''accept_contact''"

definition handleReject :: "jstr \<Rightarrow> ContactsState \<Rightarrow> json list \<times> ContactsState" where
  "handleReject = answer_invitation ''reject_contact''"

definition handleBlock :: "jstr \<Rightarrow> ContactsState \<Rightarrow> json list \<times> ContactsState" where
  "handleBlock = answer_invitation ''block_contact''"

definition openBlockedUsers :: "sidebar \<Rightarrow> json list \<times> sidebar" where
  "openBlockedUsers s = ([sb_command ''list_blocked'' []], s\<lparr>showBlockedUsers := True\<rparr>)"

definition handleUnblock :: "jstr \<Rightarrow> json list" where
  "handleUnblock u = [sb_command ''unblock_contact'' [(''user_id'', u)]]"

definition toggle_group :: "UIGroup \<Rightarrow> sidebar \<Rightarrow> sidebar" where
  "toggle_group k s = s\<lparr>collapsed := (collapsed s)(k := \<not> collapsed s k)\<rparr>"

section \<open>Adding a contact\<close>

text \<open>\<open>/^[^#]+#\d{4}$/\<close>\<close>

definition winkd_id_format :: "jstr \<Rightarrow> bool" where
  "winkd_id_format s \<longleftrightarrow> (let name = takeWhile (\<lambda>c. c \<noteq> 35) s; r = dropWhile (\<lambda>c. c \<noteq> 35) s in
     name \<noteq> [] \<and> length r = 5 \<and> list_all is_digit (tl r))"

definition closeAddContact :: "sidebar \<Rightarrow> sidebar" where
  "closeAddContact s = s\<lparr>showAddContact := False, addContactMode := IdMode, addContactInput := [], qrScanInput := [],
     qrScanHint := [], addContactError := [], addContactSent := False\<rparr>"

definition sendContactRequest :: "jstr \<Rightarrow> sidebar \<Rightarrow> json list \<times> sidebar" where
  "sendContactRequest candidate s = (let trimmed = js_trim candidate in
     if \<not> winkd_id_format trimmed then ([], s\<lparr>addContactError := js ''Must be in format username#1234''\<rparr>)
     else ([sb_command ''add_contact'' [(''winkd_id'', trimmed)]], s\<lparr>addContactSent := True, addContactError := []\<rparr>))"

definition qr_prefix :: jstr where
  "qr_prefix = js ''winkd://add/''"

definition parseQrToWinkdId :: "jstr \<Rightarrow> error + jstr option" where
  "parseQrToWinkdId raw = (let t = js_trim raw in
     if t = [] then Inr None
     else if winkd_id_format t then Inr (Some t)
     else if starts_with qr_prefix (js_lower t) then
       bindR (decodeURIComponent (drop (length qr_prefix) t))
         (\<lambda>decoded. Inr (if winkd_id_format decoded then Some decoded else None))
     else Inr None)"

definition handleAddContact :: "sidebar \<Rightarrow> json list \<times> sidebar" where
  "handleAddContact s = sendContactRequest (addContactInput s) s"

text \<open>A malformed escape makes the handler throw before it has set anything.\<close>

definition handleUseQrPayload :: "sidebar \<Rightarrow> error + sidebar" where
  "handleUseQrPayload s = (case parseQrToWinkdId (qrScanInput s) of
     Inl e \<Rightarrow> Inl e
   | Inr None \<Rightarrow> Inr (s\<lparr>addContactError :=
       js ''That QR payload is invalid. Expected winkd://add/username%231234'', qrScanHint := []\<rparr>)
   | Inr (Some parsed) \<Rightarrow> Inr (s\<lparr>addContactInput := parsed, qrScanHint := js ''Parsed Winkd ID: '' @ parsed,
       addContactError := [], addContactMode := IdMode\<rparr>))"

definition myQrData :: "OwnProfile \<Rightarrow> error + jstr" where
  "myQrData p = qrPayload (winkdId p)"

definition myQrImageUrl :: "OwnProfile \<Rightarrow> error + jstr" where
  "myQrImageUrl p = bindR (bindR (myQrData p) encodeURIComponent)
     (\<lambda>e. Inr (js ''https://api.qrserver.com/v1/create-qr-code/?size=176x176&data='' @ e))"

section \<open>The form's controls\<close>

text \<open>The two mode buttons, typing in either field, Enter in either field.\<close>

definition choose_add_mode :: "add_mode \<Rightarrow> sidebar \<Rightarrow> sidebar" where
  "choose_add_mode m s = s\<lparr>addContactMode := m, addContactError := []\<rparr>"

definition type_contact_id :: "jstr \<Rightarrow> sidebar \<Rightarrow> sidebar" where
  "type_contact_id t s = s\<lparr>addContactInput := t, addContactError := []\<rparr>"

definition type_qr_payload :: "jstr \<Rightarrow> sidebar \<Rightarrow> sidebar" where
  "type_qr_payload t s = s\<lparr>qrScanInput := t, addContactError := []\<rparr>"

text \<open>An exception in an event handler leaves the state as it is.\<close>

definition use_qr_payload :: "sidebar \<Rightarrow> sidebar" where
  "use_qr_payload s = (case handleUseQrPayload s of Inl _ \<Rightarrow> s | Inr s' \<Rightarrow> s')"

section \<open>What the sidebar shows\<close>

definition STATUS_LABELS :: "UserStatus \<Rightarrow> jstr option" where
  "STATUS_LABELS s = (case s of Online \<Rightarrow> Some (0x25CF # js '' Online'') | Away \<Rightarrow> Some (0x25D0 # js '' Away'')
     | Busy \<Rightarrow> Some (0x25CF # js '' Busy'') | Invisible \<Rightarrow> Some (0x25CB # js '' Appear Offline'') | OtherStatus _ \<Rightarrow> None)"

definition STATUS_COLORS :: "UserStatus \<Rightarrow> jstr option" where
  "STATUS_COLORS s = (case s of Online \<Rightarrow> Some (js ''#00CC00'') | Away \<Rightarrow> Some (js ''#FFAA00'')
     | Busy \<Rightarrow> Some (js ''#DD2020'') | Invisible \<Rightarrow> Some (js ''#AAAAAA'') | OtherStatus _ \<Rightarrow> None)"

definition own_name_line :: "Session \<Rightarrow> jstr" where
  "own_name_line ses = displayName (profile ses) @ (if supporter_tier (supporter ses) = Plus then [32, 0x2728] else [])"

definition own_mood_line :: "Session \<Rightarrow> jstr" where
  "own_mood_line ses = (if moodMessage (profile ses) \<noteq> [] then moodMessage (profile ses) else js ''Set a mood'' @ [0x2026])"

text \<open>The addresses come from the build's environment; the button opens one of them.\<close>

definition plusManageUrl :: "jstr option \<Rightarrow> jstr" where
  "plusManageUrl membership = (case membership of None \<Rightarrow> js ''https://buymeacoffee.com'' | Some u \<Rightarrow> u)"

definition plusBuyUrl :: "jstr option \<Rightarrow> jstr option \<Rightarrow> jstr" where
  "plusBuyUrl membership plusUrl = (case plusUrl of None \<Rightarrow> plusManageUrl membership | Some u \<Rightarrow> u)"

definition supporter_button :: "jstr option \<Rightarrow> jstr option \<Rightarrow> SupporterState \<Rightarrow> jstr \<times> jstr" where
  "supporter_button membership plusUrl sst = (if supporter_tier sst = Plus then (js ''Manage / Cancel'', plusManageUrl membership)
     else (js ''Get Plus!'', plusBuyUrl membership plusUrl))"

definition renewal_shown :: "SupporterState \<Rightarrow> jstr option" where
  "renewal_shown sst = (if supporter_tier sst = Plus then
     (case supporterExpiresAt sst of Some (c # t) \<Rightarrow> Some (c # t) | _ \<Rightarrow> None) else None)"

definition group_rows :: "ChatState \<Rightarrow> ContactsState \<Rightarrow> Contact list \<Rightarrow> contact_row list" where
  "group_rows ch b g = map (\<lambda>c. ContactItem c (activeConversationId ch = Some (contact_id c))
     (case map_of (unreadCounts b) (contact_id c) of None \<Rightarrow> 0 | Some n \<Rightarrow> n)) g"

text \<open>A group's header with its size, and its rows unless it is collapsed.\<close>

definition group_views :: "(jstr \<Rightarrow> jstr) \<Rightarrow> sidebar \<Rightarrow> ChatState \<Rightarrow> ContactsState \<Rightarrow> (UIGroup \<times> nat \<times> contact_row list option) list" where
  "group_views toLowerCase s ch b = map (\<lambda>(k, g). (k, length g, if collapsed s k then None else Some (group_rows ch b g)))
     (shown_groups (filteredAccepted toLowerCase (searchQuery s) b))"

definition no_contacts_note :: "(jstr \<Rightarrow> jstr) \<Rightarrow> sidebar \<Rightarrow> ContactsState \<Rightarrow> bool" where
  "no_contacts_note toLowerCase s b \<longleftrightarrow> filteredAccepted toLowerCase (searchQuery s) b = [] \<and>
     filteredPendingOut toLowerCase (searchQuery s) b = []"

definition invitations_button :: "ContactsState \<Rightarrow> jstr option" where
  "invitations_button b = (let n = length (pendingInvitations b) in
     if n > 0 then Some (js_int (int n) @ js '' Pending Invitation'' @ (if n > 1 then js ''s'' else [])) else None)"

text \<open>The form for a new contact, control by control: its fields with their text and whether they are marked
  as wrong, its buttons with their label.\<close>

datatype form_control = SentNote | ModeButton add_mode bool | IdField jstr bool | QrImage jstr | OwnId jstr
  | QrField jstr bool | QrHint jstr | UseQrButton | ErrorLine jstr | SendButton | CloseButton jstr

definition some_line :: "(jstr \<Rightarrow> form_control) \<Rightarrow> jstr \<Rightarrow> form_control list" where
  "some_line f t = (if t \<noteq> [] then [f t] else [])"

definition mode_controls :: "jstr \<Rightarrow> jstr \<Rightarrow> sidebar \<Rightarrow> form_control list" where
  "mode_controls qr own s = (let wrong = (addContactError s \<noteq> []) in
     if addContactMode s = IdMode then [IdField (addContactInput s) wrong]
     else [QrImage qr, OwnId own, QrField (qrScanInput s) wrong] @ some_line QrHint (qrScanHint s) @ [UseQrButton])"

definition add_form_view :: "jstr \<Rightarrow> jstr \<Rightarrow> sidebar \<Rightarrow> form_control list" where
  "add_form_view qr own s =
     (if addContactSent s then [SentNote]
      else [ModeButton IdMode (addContactMode s = IdMode), ModeButton QrMode (addContactMode s = QrMode)] @
        mode_controls qr own s @ some_line ErrorLine (addContactError s)) @
     (if addContactSent s then [] else [SendButton]) @
     [CloseButton (if addContactSent s then js ''Close'' else js ''Cancel'')]"

text \<open>The list of blocked users (nothing: the note that there are none) and of invitations, each row with the
  id its buttons act on.\<close>

definition blocked_rows :: "ContactsState \<Rightarrow> (jstr \<times> jstr \<times> jstr) list" where
  "blocked_rows b = map (\<lambda>u. (bu_userId u, bu_displayName u, bu_winkdId u)) (blockedUsers b)"

definition invitation_rows :: "ContactsState \<Rightarrow> (jstr \<times> jstr \<times> jstr) list" where
  "invitation_rows b = map (\<lambda>i. (requestId i, fromDisplayName i, fromWinkdId i)) (pendingInvitations b)"

section \<open>A payload that was shown is understood\<close>

lemma lower_qr_prefix: "js_lower qr_prefix = qr_prefix"
  by (simp add: qr_prefix_def js_lower_def js_def)

lemma path_char_plain: "path_char c \<Longrightarrow> \<not> js_ws c \<and> c \<noteq> 35"
  by (auto simp: path_char_def uri_unreserved_def js_ws_def Let_def)

lemma no_hash_no_id: "\<forall>c \<in> set s. c \<noteq> 35 \<Longrightarrow> \<not> winkd_id_format s"
proof -
  assume "\<forall>c \<in> set s. c \<noteq> 35"
  then have none: "dropWhile (\<lambda>c. c \<noteq> 35) s = []" unfolding dropWhile_eq_Nil_conv .
  show ?thesis unfolding winkd_id_format_def Let_def none by simp
qed

lemma parse_own_qr:
  assumes "well_formed wid" and "winkd_id_format wid"
  shows "\<exists>raw. qrPayload wid = Inr raw \<and> parseQrToWinkdId raw = Inr (Some wid)"
proof -
  obtain e where e: "encodeURIComponent wid = Inr e" using assms(1) by (simp add: encodeURIComponent_def)
  have "\<forall>c \<in> set e. path_char c"
    using e utf16_decode_scalar [of wid]
    by (auto simp: encodeURIComponent_def scalar_value_def split: if_splits dest!: uri_char_path [rotated])
  then have e_plain: "\<forall>c \<in> set e. \<not> js_ws c \<and> c \<noteq> 35" using path_char_plain by blast
  let ?raw = "qr_prefix @ e"
  have pre: "\<forall>c \<in> set qr_prefix. \<not> js_ws c \<and> c \<noteq> 35"
    by (simp add: qr_prefix_def js_def js_ws_def)
  have trim: "js_trim ?raw = ?raw" using e_plain pre by (intro trim_plain) auto
  have "\<not> winkd_id_format ?raw" using e_plain pre by (intro no_hash_no_id) auto
  moreover have "starts_with qr_prefix (js_lower ?raw)" by (simp add: js_lower_append lower_qr_prefix)
  moreover have "?raw \<noteq> []" by (simp add: qr_prefix_def)
  ultimately have "parseQrToWinkdId ?raw = Inr (Some wid)"
    using decode_uri_roundtrip [OF assms(1) e] assms(2) trim by (auto simp: parseQrToWinkdId_def Let_def)
  then show ?thesis using e by (simp add: qrPayload_def qr_prefix_def)
qed

end
