(* ===== verification/ChatWindow.thy ===== *)
theory ChatWindow
  imports JsText AuthStore ChatStore ContactsStore UiKit
begin

text \<open>
  apps/web/src/components/ChatWindow.tsx: the handlers of the open conversation. A handler works on the
  window's own state and the chat store and returns what it hands to the socket. Reading a file takes
  time: what the handler closed over when the file was picked is kept in a \<open>pending\<close> record, and the
  reader's result arrives later.
\<close>

definition BLOCKED_ATTACHMENT_EXTENSIONS :: "jstr list" where
  "BLOCKED_ATTACHMENT_EXTENSIONS = map js [''exe'', ''msi'', ''bat'', ''cmd'', ''com'', ''scr'', ''pif'', ''jar'', ''vbs'',
     ''vbe'', ''js'', ''jse'', ''wsf'', ''wsh'', ''ps1'', ''psm1'', ''hta'', ''reg'', ''scf'', ''lnk'', ''dll'', ''sys'',
     ''iso'', ''img'', ''apk'', ''app'', ''dmg'', ''pkg'', ''deb'', ''rpm'', ''sh'']"

definition MAX_ATTACHMENT_BYTES :: int where
  "MAX_ATTACHMENT_BYTES = 3 * 1024 * 1024"

definition fileExtension :: "jstr \<Rightarrow> jstr" where
  "fileExtension fileName = (let parts = split_on 46 fileName in
     if length parts > 1 then js_lower (last parts) else [])"

section \<open>State\<close>

record chat_window =
  inputValue :: jstr
  attachmentError :: "jstr option"
  showEmojiPicker :: bool

definition new_window :: chat_window where
  "new_window = \<lparr>inputValue = [], attachmentError = None, showEmojiPicker = False\<rparr>"

text \<open>The conversation and the contact the window shows; nothing when one of them or the session is missing.\<close>

definition shown_conversation :: "ChatState \<Rightarrow> Conversation option" where
  "shown_conversation s = (case activeConversationId s of None \<Rightarrow> None
     | Some i \<Rightarrow> if i = [] then None else find_conv i s)"

definition shown_contact :: "Conversation \<Rightarrow> ContactsState \<Rightarrow> Contact option" where
  "shown_contact conv b = find (\<lambda>c. Some (contact_id c) = conv_contactId conv) (contacts b)"

definition chat_shown :: "AuthState \<Rightarrow> ContactsState \<Rightarrow> ChatState \<Rightarrow> (Conversation \<times> Contact \<times> Session) option" where
  "chat_shown a b s = (case shown_conversation s of None \<Rightarrow> None
     | Some conv \<Rightarrow> (case shown_contact conv b of None \<Rightarrow> None
       | Some contact \<Rightarrow> map_option (\<lambda>x. (conv, contact, x)) (session a)))"

text \<open>The conversation's own id, as the template and the computed key read it.\<close>

definition own_id :: "Conversation \<Rightarrow> jstr" where
  "own_id conv = (case conv_id conv of None \<Rightarrow> js ''undefined'' | Some i \<Rightarrow> i)"

section \<open>The shake\<close>

text \<open>The effect schedules clearShaking for the id the conversation has now.\<close>

definition shake_timer :: "Conversation option \<Rightarrow> (jstr \<times> int) option" where
  "shake_timer conv = (case conv of Some c \<Rightarrow> if isShaking c = Some True then Some (own_id c, 700) else None | None \<Rightarrow> None)"

section \<open>Handlers\<close>

type_synonym command = "ClientCommandType \<times> Message"

definition handleSend :: "jstr \<Rightarrow> jstr \<Rightarrow> Conversation \<Rightarrow> Session \<Rightarrow> chat_window \<Rightarrow> ChatState \<Rightarrow>
    command option \<times> chat_window \<times> ChatState" where
  "handleSend i now conv ses w s = (let body = js_trim (inputValue w) in
     if body = [] then (None, w, s)
     else let (cmd, s') = sendText i now (own_id conv) (winkdId (profile ses)) body s in
       (Some cmd, w\<lparr>inputValue := []\<rparr>, s'))"

definition handleKeyDown :: "jstr \<Rightarrow> bool \<Rightarrow> jstr \<Rightarrow> jstr \<Rightarrow> Conversation \<Rightarrow> Session \<Rightarrow> chat_window \<Rightarrow> ChatState \<Rightarrow>
    command option \<times> chat_window \<times> ChatState" where
  "handleKeyDown key shiftKey i now conv ses w s =
     (if key = js ''Enter'' \<and> \<not> shiftKey then handleSend i now conv ses w s else (None, w, s))"

definition handleFilePick :: "chat_window \<Rightarrow> chat_window" where
  "handleFilePick w = w\<lparr>attachmentError := None\<rparr>"

record picked_file =
  file_name :: jstr
  file_type :: jstr
  file_size :: int

record pending_file =
  pend_file :: picked_file
  pend_conv :: Conversation
  pend_session :: Session
  pend_input :: jstr

definition blocked_message :: jstr where
  "blocked_message = js ''This file type is blocked for safety. Executables and scripts are not allowed.''"

definition too_large_message :: jstr where
  "too_large_message = js ''File is too large. Current attachment limit is 3 MB.''"

definition unreadable_message :: jstr where
  "unreadable_message = js ''Could not read that file. Try again.''"

definition handleAttachmentSelect :: "picked_file option \<Rightarrow> Conversation \<Rightarrow> Session \<Rightarrow> chat_window \<Rightarrow> pending_file option \<times> chat_window" where
  "handleAttachmentSelect pickedFile conv ses w = (case pickedFile of None \<Rightarrow> (None, w)
     | Some f \<Rightarrow>
       if fileExtension (file_name f) \<in> set BLOCKED_ATTACHMENT_EXTENSIONS then
         (None, w\<lparr>attachmentError := Some blocked_message\<rparr>)
       else if file_size f > MAX_ATTACHMENT_BYTES then (None, w\<lparr>attachmentError := Some too_large_message\<rparr>)
       else (Some \<lparr>pend_file = f, pend_conv = conv, pend_session = ses, pend_input = inputValue w\<rparr>, w))"

definition attachment_of :: "pending_file \<Rightarrow> jstr \<Rightarrow> Attachment" where
  "attachment_of p dataUrl = (let f = pend_file p; text = js_trim (pend_input p) in
     \<lparr>a_mediaData = dataUrl, a_mediaName = file_name f,
      a_mediaMime = (if file_type f \<noteq> [] then file_type f else js ''application/octet-stream''),
      a_mediaSize = JInt (file_size f),
      a_body = Some (if text \<noteq> [] then text else paperclip (file_name f))\<rparr>)"

definition file_read :: "jstr \<Rightarrow> jstr \<Rightarrow> pending_file \<Rightarrow> unit + jstr \<Rightarrow> chat_window \<Rightarrow> ChatState \<Rightarrow>
    command option \<times> chat_window \<times> ChatState" where
  "file_read i now p data w s = (case data of
     Inl _ \<Rightarrow> (None, w\<lparr>attachmentError := Some unreadable_message\<rparr>, s)
   | Inr dataUrl \<Rightarrow> (let (cmd, s') = sendAttachment i now (own_id (pend_conv p)) (winkdId (profile (pend_session p)))
         (attachment_of p dataUrl) s in
       (Some cmd, w\<lparr>inputValue := [], attachmentError := None\<rparr>, s')))"

text \<open>The block button, the toolbar and the emoji picker.\<close>

definition block_command :: "Contact \<Rightarrow> json" where
  "block_command contact = JObj [(js ''command'', JStr (js ''block_user'')),
     (js ''payload'', JObj [(js ''winkd_id'', JStr (winkdId contact))])]"

definition onEmoticons :: "chat_window \<Rightarrow> chat_window" where
  "onEmoticons w = w\<lparr>showEmojiPicker := \<not> showEmojiPicker w\<rparr>"

definition onSelect :: "jstr \<Rightarrow> chat_window \<Rightarrow> chat_window" where
  "onSelect emoji w = w\<lparr>inputValue := inputValue w @ emoji\<rparr>"

definition onClose :: "chat_window \<Rightarrow> chat_window" where
  "onClose w = w\<lparr>showEmojiPicker := False\<rparr>"

text \<open>The listener on the document while the picker is shown: a press of the mouse inside or outside of it.\<close>

definition mouse_down :: "bool \<Rightarrow> chat_window \<Rightarrow> chat_window" where
  "mouse_down inside w = (if showEmojiPicker w \<and> \<not> inside then w\<lparr>showEmojiPicker := False\<rparr> else w)"

definition not_wired :: "jstr \<Rightarrow> chat_window \<Rightarrow> chat_window" where
  "not_wired m w = w\<lparr>attachmentError := Some m\<rparr>"

definition can_send :: "chat_window \<Rightarrow> bool" where
  "can_send w \<longleftrightarrow> js_trim (inputValue w) \<noteq> []"

text \<open>The toolbar's buttons that stay in the window; the other two send.\<close>

definition toolbar_effect :: "toolbar_action \<Rightarrow> chat_window \<Rightarrow> chat_window" where
  "toolbar_effect a w = (case a of
     DoEmoticons \<Rightarrow> onEmoticons w
   | DoFormat \<Rightarrow> not_wired (js ''Text formatting controls are not hooked up in this React view yet.'') w
   | DoBackground \<Rightarrow> not_wired (js ''Chat background picker is available in app.html and will be wired here next.'') w
   | DoDraw \<Rightarrow> not_wired (js ''Draw & send is available in app.html and will be wired here next.'') w
   | _ \<Rightarrow> w)"

section \<open>What the window shows\<close>

text \<open>The text under the preview's label, and the line under the input: U+26A0 U+FE0F and an error or the
  standing warning.\<close>

definition preview_shown :: "chat_window \<Rightarrow> jstr option" where
  "preview_shown w = (if js_trim (inputValue w) \<noteq> [] then Some (inputValue w) else None)"

definition attachment_note :: "chat_window \<Rightarrow> jstr" where
  "attachment_note w = [0x26A0, 0xFE0F, 32] @ (case attachmentError w of
     Some (c # e) \<Rightarrow> c # e
   | _ \<Rightarrow> js ''Attachments can contain malware. Only open files from people you trust. Office docs may require download + local viewer (LibreOffice / ONLYOFFICE).'')"

definition chat_status_bar :: "jstr list" where
  "chat_status_bar = StatusBar (Some True) None"

section \<open>Extensions\<close>

lemma split_on_last: "c \<notin> set ext \<Longrightarrow> last (split_on c (base @ c # ext)) = ext \<and> length (split_on c (base @ c # ext)) > 1"
proof -
  assume ext: "c \<notin> set ext"
  then have "split_on c ext = [ext]" by (induction ext) auto
  then show ?thesis by (induction base) (auto split: list.split)
qed

lemma fileExtension_dot: "46 \<notin> set ext \<Longrightarrow> fileExtension (base @ 46 # ext) = js_lower ext"
  using split_on_last [of 46 ext base] by (simp add: fileExtension_def Let_def)

end
