(* ===== verification/RichEmoji.thy ===== *)
theory RichEmoji
  imports JsText
begin

text \<open>
  apps/web/src/components/RichEmojiText.tsx and emojiAssets.ts: the inline emoji of a text. Each regular
  expression is the matcher it describes; the flag says whether letters match in both cases (the i of
  the source). A rendered node is what it shows; sizes and styles are left out.
\<close>

section \<open>emojiAssets.ts\<close>

definition MSN_EMOTICON_BASE_URL :: jstr where
  "MSN_EMOTICON_BASE_URL = js ''https://github.com/bernzrdo/msn-emoticons/raw/main/original''"

definition CLASSIC_TOKEN_PREFIX :: jstr where "CLASSIC_TOKEN_PREFIX = js '':classic-''"
definition SPIKEY_TOKEN_PREFIX :: jstr where "SPIKEY_TOKEN_PREFIX = js '':spikey-''"

definition token_char :: "bool \<Rightarrow> u16 \<Rightarrow> bool" where
  "token_char ci c \<longleftrightarrow> (let n = unat c in (97 \<le> n \<and> n \<le> 122) \<or> (48 \<le> n \<and> n \<le> 57) \<or> n = 45 \<or>
     (ci \<and> 65 \<le> n \<and> n \<le> 90))"

text \<open>\<open>/:[a-z0-9-]+:/\<close> at the start of a text: the match and the rest; and as the whole text.\<close>

definition match_colon :: "bool \<Rightarrow> jstr \<Rightarrow> (jstr \<times> jstr) option" where
  "match_colon ci s = (case s of [] \<Rightarrow> None
     | c # t \<Rightarrow> (let run = takeWhile (token_char ci) t; r = dropWhile (token_char ci) t in
         if c = 58 \<and> run \<noteq> [] \<and> r \<noteq> [] \<and> hd r = 58 then Some (c # run @ [58], tl r) else None))"

definition colon_token :: "jstr \<Rightarrow> bool" where
  "colon_token s \<longleftrightarrow> (case match_colon False s of Some (m, r) \<Rightarrow> r = [] | None \<Rightarrow> False)"

definition getEmojiAssetUrlFromToken :: "jstr \<Rightarrow> jstr option" where
  "getEmojiAssetUrlFromToken token = (let normalized = js_lower (js_trim token) in
     if \<not> colon_token normalized then None
     else if starts_with CLASSIC_TOKEN_PREFIX normalized then
       (let slug = butlast (drop (length CLASSIC_TOKEN_PREFIX) normalized) in
        if slug \<noteq> [] then Some (MSN_EMOTICON_BASE_URL @ 47 # slug @ js ''.png'') else None)
     else if starts_with SPIKEY_TOKEN_PREFIX normalized then
       (let slug = butlast (drop (length SPIKEY_TOKEN_PREFIX) normalized) in
        if slug \<noteq> [] then Some (js ''/emoji-packs/spikey/'' @ slug @ js ''.png'') else None)
     else None)"

section \<open>Tokens of a text\<close>

definition to_ascii_lower :: "u16 \<Rightarrow> u16" where
  "to_ascii_lower c = (if 65 \<le> unat c \<and> unat c \<le> 90 then c + 32 else c)"

definition prefix_ci :: "bool \<Rightarrow> jstr \<Rightarrow> jstr \<Rightarrow> bool" where
  "prefix_ci ci p s \<longleftrightarrow> (let u = take (length p) s in if ci then map to_ascii_lower u = p else u = p)"

text \<open>A literal prefix and then a longest run, not empty, of characters that are not white space.\<close>

definition match_run :: "bool \<Rightarrow> jstr \<Rightarrow> jstr \<Rightarrow> (jstr \<times> jstr) option" where
  "match_run ci p s = (let t = drop (length p) s; run = takeWhile (\<lambda>c. \<not> js_ws c) t in
     if prefix_ci ci p s \<and> run \<noteq> [] then Some (take (length p) s @ run, dropWhile (\<lambda>c. \<not> js_ws c) t) else None)"

fun first_some :: "('a \<Rightarrow> 'b option) list \<Rightarrow> 'a \<Rightarrow> 'b option" where
  "first_some [] x = None"
| "first_some (f # fs) x = (case f x of None \<Rightarrow> first_some fs x | r \<Rightarrow> r)"

text \<open>INLINE_TOKEN_REGEX at the start of a text (the alternatives in their order).\<close>

definition inline_match :: "bool \<Rightarrow> jstr \<Rightarrow> (jstr \<times> jstr) option" where
  "inline_match ci = first_some [match_run ci (js ''https://''), match_run ci (js ''http://''),
     match_run ci (js ''/emoji-packs/''), match_run ci (js ''/msn-emoticons/''), match_colon ci]"

lemma match_colon_append: "match_colon ci s = Some (m, r) \<Longrightarrow> s = m @ r \<and> m \<noteq> []"
proof (cases s)
  case (Cons c t)
  let ?run = "takeWhile (token_char ci) t" and ?r = "dropWhile (token_char ci) t"
  assume "match_colon ci s = Some (m, r)"
  then have "?r \<noteq> []" "hd ?r = 58" and mr: "m = c # ?run @ [58]" "r = tl ?r"
    by (simp_all add: match_colon_def Cons Let_def split: if_splits)
  then have "?r = 58 # r" by (metis list.collapse)
  then have "t = ?run @ 58 # r" by (metis takeWhile_dropWhile_id)
  then have "s = m @ r" by (simp add: Cons mr(1))
  then show ?thesis by (simp add: mr(1))
qed (simp add: match_colon_def)

lemma match_run_append: "match_run ci p s = Some (m, r) \<Longrightarrow> s = m @ r \<and> m \<noteq> []"
  by (auto simp: match_run_def Let_def split: if_splits)

lemma first_some_D: "first_some fs x = Some y \<Longrightarrow> \<exists>f \<in> set fs. f x = Some y"
  by (induction fs) (auto split: option.splits)

lemma inline_match_append: "inline_match ci s = Some (m, r) \<Longrightarrow> s = m @ r \<and> m \<noteq> []"
  unfolding inline_match_def by (drule first_some_D) (auto dest: match_run_append match_colon_append)

text \<open>
  \<open>text.split(REGEX)\<close> with its one capturing group: the texts between the matches and the matches,
  alternating, the first and the last a text (which may be empty).
\<close>

function split_tokens :: "bool \<Rightarrow> jstr \<Rightarrow> jstr \<Rightarrow> jstr list" where
  "split_tokens ci before s = (case inline_match ci s of
     Some (m, r) \<Rightarrow> before # m # split_tokens ci [] r
   | None \<Rightarrow> (case s of [] \<Rightarrow> [before] | c # t \<Rightarrow> split_tokens ci (before @ [c]) t))"
  by pat_completeness auto
termination
proof (relation "measure (\<lambda>(ci, before, s). length s)")
  show "((ci, [], r), (ci, before, s)) \<in> measure (\<lambda>(ci, before, s). length s)"
    if "inline_match ci s = Some x" "(m, r) = x" for ci before s x m r
    using inline_match_append [of ci s m r] that by (auto simp: neq_Nil_conv)
qed auto

declare split_tokens.simps [simp del]

definition js_split :: "bool \<Rightarrow> jstr \<Rightarrow> jstr list" where
  "js_split ci s = split_tokens ci [] s"

section \<open>RichEmojiText.tsx\<close>

definition trailing_punctuation :: "u16 \<Rightarrow> bool" where
  "trailing_punctuation c \<longleftrightarrow> c \<in> set (js ''),.;:!?'' @ [39, 34, 96])"

definition strip_punctuation :: "jstr \<Rightarrow> jstr" where
  "strip_punctuation s = rev (dropWhile trailing_punctuation (rev s))"

text \<open>\<open>/\.(?:png|gif|webp)(?:\?|$)/\<close> here, and after one character or more.\<close>

definition image_suffix :: "jstr \<Rightarrow> bool" where
  "image_suffix s \<longleftrightarrow> (\<exists>e \<in> {js ''.png'', js ''.gif'', js ''.webp''}.
     starts_with e s \<and> (drop (length e) s = [] \<or> hd (drop (length e) s) = 63))"

fun later_suffix :: "jstr \<Rightarrow> bool" where
  "later_suffix [] = False"
| "later_suffix (c # s) = (\<not> js_newline c \<and> (image_suffix s \<or> later_suffix s))"

definition after_prefix :: "jstr \<Rightarrow> jstr \<Rightarrow> bool" where
  "after_prefix p s \<longleftrightarrow> starts_with p s \<and> later_suffix (drop (length p) s)"

text \<open>The last pattern: a scheme, a host without slash or white space, and one of the two directories.\<close>

definition hosted :: "jstr \<Rightarrow> jstr \<Rightarrow> bool" where
  "hosted p s \<longleftrightarrow> starts_with p s \<and> (let t = drop (length p) s; host = takeWhile (\<lambda>c. c \<noteq> 47 \<and> \<not> js_ws c) t;
     r = dropWhile (\<lambda>c. c \<noteq> 47 \<and> \<not> js_ws c) t in
     host \<noteq> [] \<and> (after_prefix (js ''/emoji-packs/'') r \<or> after_prefix (js ''/msn-emoticons/'') r))"

definition isInlineEmojiAsset :: "jstr \<Rightarrow> bool" where
  "isInlineEmojiAsset token \<longleftrightarrow> getEmojiAssetUrlFromToken token \<noteq> None \<or>
     (let normalized = js_lower token in
      after_prefix (js ''/emoji-packs/'') normalized \<or> after_prefix (js ''/msn-emoticons/'') normalized \<or>
      after_prefix (js ''http://github.com/bernzrdo/msn-emoticons/raw/main/original/'') normalized \<or>
      after_prefix (js ''https://github.com/bernzrdo/msn-emoticons/raw/main/original/'') normalized \<or>
      hosted (js ''http://'') normalized \<or> hosted (js ''https://'') normalized)"

definition splitInlineEmojiToken :: "(jstr \<Rightarrow> bool) \<Rightarrow> jstr \<Rightarrow> jstr option \<times> jstr" where
  "splitInlineEmojiToken isAsset rawToken = (let trimmed = js_trim rawToken in
     if isAsset trimmed then (Some trimmed, [])
     else let withoutPunctuation = strip_punctuation trimmed in
       if withoutPunctuation = [] \<or> \<not> isAsset withoutPunctuation then (None, [])
       else (Some withoutPunctuation, drop (length withoutPunctuation) trimmed))"

datatype rich_node = TextSpan jstr | EmojiSpan jstr jstr

definition rich_token :: "jstr \<Rightarrow> rich_node" where
  "rich_token t = (case splitInlineEmojiToken isInlineEmojiAsset t of
     (Some asset, trailingText) \<Rightarrow> if asset = [] then TextSpan t else EmojiSpan
         (case getEmojiAssetUrlFromToken asset of None \<Rightarrow> asset | Some u \<Rightarrow> u) trailingText
   | (None, _) \<Rightarrow> TextSpan t)"

definition renderRichEmojiText :: "jstr \<Rightarrow> rich_node list" where
  "renderRichEmojiText s = map rich_token (filter (\<lambda>t. t \<noteq> []) (js_split True s))"

section \<open>Nothing is lost\<close>

lemma concat_split_tokens: "concat (split_tokens ci before s) = before @ s"
proof (induction ci before s rule: split_tokens.induct)
  case (1 ci before s)
  show ?case
  proof (cases "inline_match ci s")
    case None
    show ?thesis
    proof (cases s)
      case Nil
      with None show ?thesis by (subst split_tokens.simps) simp
    next
      case (Cons c t)
      from 1(1) [OF None this] None Cons show ?thesis by (subst split_tokens.simps) simp
    qed
  next
    case (Some x)
    obtain m r where x: "x = (m, r)" by (cases x)
    with Some inline_match_append [of ci s m r] 1(2) [OF Some x [symmetric]] show ?thesis
      by (subst split_tokens.simps) simp
  qed
qed

text \<open>What a node shows of a token: all of it, or an emoji for its asset and the punctuation after it.\<close>

definition shows_token :: "jstr \<Rightarrow> rich_node \<Rightarrow> bool" where
  "shows_token t node \<longleftrightarrow> (case node of
     TextSpan u \<Rightarrow> u = t
   | EmojiSpan src trailing \<Rightarrow> (\<forall>c \<in> set trailing. trailing_punctuation c) \<and>
       (\<exists>asset. js_trim t = asset @ trailing \<and> isInlineEmojiAsset asset \<and>
          src = (case getEmojiAssetUrlFromToken asset of None \<Rightarrow> asset | Some u \<Rightarrow> u)))"

lemma strip_punctuation_append:
  "\<exists>p. s = strip_punctuation s @ p \<and> (\<forall>c \<in> set p. trailing_punctuation c)"
proof -
  have "s = strip_punctuation s @ rev (takeWhile trailing_punctuation (rev s))"
    unfolding strip_punctuation_def by (metis rev_append rev_rev_ident takeWhile_dropWhile_id)
  then show ?thesis by (metis set_rev set_takeWhileD)
qed

lemma rich_token_shows: "shows_token t (rich_token t)"
proof -
  let ?t = "js_trim t"
  obtain p where p: "?t = strip_punctuation ?t @ p" "\<forall>c \<in> set p. trailing_punctuation c"
    using strip_punctuation_append by blast
  then have "drop (length (strip_punctuation ?t)) ?t = p" by (metis append_eq_conv_conj)
  with p show ?thesis
    by (auto simp: rich_token_def splitInlineEmojiToken_def shows_token_def Let_def)
qed

section \<open>Where an emoji token points\<close>

lemma colon_token_chars:
  assumes "colon_token s"
  shows "\<exists>run. s = 58 # run @ [58] \<and> (\<forall>c \<in> set run. token_char False c)"
proof -
  obtain m where m: "match_colon False s = Some (m, [])"
    using assms by (auto simp: colon_token_def split: option.splits)
  then obtain c t where s: "s = c # t" by (auto simp: match_colon_def split: list.splits)
  with m have "m = 58 # takeWhile (token_char False) t @ [58]" by (auto simp: match_colon_def Let_def split: if_splits)
  with match_colon_append [OF m] show ?thesis by (auto dest: set_takeWhileD)
qed

lemma token_slug:
  assumes "colon_token s" and "starts_with p s" and "butlast (drop (length p) s) \<noteq> []" and "p \<noteq> []"
  shows "\<forall>c \<in> set (butlast (drop (length p) s)). token_char False c"
proof -
  obtain run where run: "s = 58 # run @ [58]" "\<forall>c \<in> set run. token_char False c"
    using colon_token_chars [OF assms(1)] by blast
  obtain x p' where p: "p = x # p'" using assms(4) by (cases p) auto
  have "drop (length p) s = drop (length p') (run @ [58])" by (simp add: run(1) p)
  then have "butlast (drop (length p) s) = drop (length p') run"
    using assms(3) by (cases "length p' \<le> length run") (simp_all add: butlast_append drop_Cons')
  then show ?thesis using run(2) by (auto dest: in_set_dropD)
qed

lemma emoji_url_shape:
  assumes "getEmojiAssetUrlFromToken token = Some url"
  shows "\<exists>slug. slug \<noteq> [] \<and> (\<forall>c \<in> set slug. token_char False c) \<and>
    url \<in> {MSN_EMOTICON_BASE_URL @ 47 # slug @ js ''.png'', js ''/emoji-packs/spikey/'' @ slug @ js ''.png''}"
proof -
  let ?n = "js_lower (js_trim token)"
  have tok: "colon_token ?n" using assms by (auto simp: getEmojiAssetUrlFromToken_def Let_def split: if_splits)
  have ne: "CLASSIC_TOKEN_PREFIX \<noteq> []" "SPIKEY_TOKEN_PREFIX \<noteq> []"
    by (simp_all add: CLASSIC_TOKEN_PREFIX_def SPIKEY_TOKEN_PREFIX_def)
  from token_slug [OF tok _ _ ne(1)] token_slug [OF tok _ _ ne(2)] assms show ?thesis
    by (auto simp: getEmojiAssetUrlFromToken_def Let_def split: if_splits)
qed

end
