(* ===== verification/MessageBubble.thy ===== *)
theory MessageBubble
  imports RichEmoji WinkdTypes
begin

text \<open>
  apps/web/src/components/MessageBubble.tsx: what a message shows. A view holds the texts, the image
  sources and the links, without their styles. Rendering throws where the source does: a text message
  whose body is undefined. The size of an attachment is formatted when it is an integer (a byte count
  is); no size is shown for a number literal that is not.
\<close>

section \<open>Links and images in a text\<close>

fun anywhere :: "(jstr \<Rightarrow> bool) \<Rightarrow> jstr \<Rightarrow> bool" where
  "anywhere p [] = p []"
| "anywhere p (c # s) = (p (c # s) \<or> anywhere p s)"

definition media_suffix :: "jstr \<Rightarrow> bool" where
  "media_suffix s \<longleftrightarrow> (\<exists>e \<in> {js ''.gif'', js ''.webp'', js ''.png'', js ''.jpg'', js ''.jpeg''}.
     starts_with e s \<and> (drop (length e) s = [] \<or> hd (drop (length e) s) = 63))"

definition isImageAssetUrl :: "jstr \<Rightarrow> bool" where
  "isImageAssetUrl rawUrl \<longleftrightarrow> getEmojiAssetUrlFromToken rawUrl \<noteq> None \<or>
     (let normalized = js_lower rawUrl in anywhere media_suffix normalized \<or> js_includes (js ''/media'') normalized)"

definition gif_hosts :: "jstr list" where
  "gif_hosts = concat (map (\<lambda>scheme. concat (map (\<lambda>www. map (\<lambda>host. scheme @ www @ host)
     [js ''giphy.com/'', js ''tenor.com/'']) [[], js ''www.''])) [js ''http://'', js ''https://''])"

definition shouldHideCompanionGifLink :: "jstr \<Rightarrow> bool" where
  "shouldHideCompanionGifLink rawUrl \<longleftrightarrow> anywhere (\<lambda>s. list_ex (\<lambda>p. prefix_ci True p s) gif_hosts) rawUrl"

definition isInlineEmojiAsset_mb :: "jstr \<Rightarrow> bool" where
  "isInlineEmojiAsset_mb rawUrl \<longleftrightarrow> getEmojiAssetUrlFromToken rawUrl \<noteq> None \<or>
     (let normalized = js_lower rawUrl in
      starts_with (js ''/emoji-packs/'') normalized \<or> starts_with (js ''/msn-emoticons/'') normalized \<or>
      js_includes (js ''/emoji-packs/'') normalized \<or> js_includes (js ''/msn-emoticons/'') normalized \<or>
      js_includes (js ''/msn-emoticons/raw/main/original/'') normalized)"

definition splitInlineEmojiToken_mb :: "jstr \<Rightarrow> jstr option \<times> jstr" where
  "splitInlineEmojiToken_mb rawUrl = splitInlineEmojiToken (\<lambda>t. isInlineEmojiAsset_mb t \<and> isImageAssetUrl t) rawUrl"

section \<open>Sizes\<close>

text \<open>\<open>(n / d).toFixed(1)\<close> for a quotient that is exact (d a power of two): the nearest tenth, the larger of two.\<close>

definition to_fixed1 :: "int \<Rightarrow> int \<Rightarrow> jstr" where
  "to_fixed1 n d = (let t = (20 * n + d) div (2 * d) in js_int (t div 10) @ 46 # js_int (t mod 10))"

definition formatBytes :: "int option \<Rightarrow> jstr" where
  "formatBytes b = (case b of None \<Rightarrow> [] | Some n \<Rightarrow>
     if n = 0 then []
     else if n < 1024 then js_int n @ js '' B''
     else if n < 1024 * 1024 then to_fixed1 n 1024 @ js '' KB''
     else to_fixed1 n (1024 * 1024) @ js '' MB'')"

section \<open>The bubble\<close>

datatype part_view = PText jstr | PInline "rich_node list" jstr | PImage jstr | PLink jstr

datatype preview = ImagePreview | FramePreview | NoPreview

record media_view =
  mv_src :: jstr
  mv_name :: jstr
  mv_size :: jstr
  mv_preview :: preview

datatype bubble = WinkdBubble jstr | NudgeBubble jstr | SystemBubble "jstr option" | NoBubble
  | TextBubble "part_view list" "media_view option"

text \<open>\<open>body.match(URL_REGEX)\<close>: the matches are every second part of the split.\<close>

fun every_second :: "'a list \<Rightarrow> 'a list" where
  "every_second (x # y # zs) = y # every_second zs"
| "every_second _ = []"

definition has_match :: "jstr \<Rightarrow> bool" where
  "has_match s \<longleftrightarrow> anywhere (\<lambda>t. inline_match False t \<noteq> None) s"

definition part_view :: "bool \<Rightarrow> jstr \<Rightarrow> part_view option" where
  "part_view hasImageAssets part =
     (if \<not> has_match part then Some (PText part)
      else if isImageAssetUrl part then
        (case splitInlineEmojiToken_mb part of
           (Some asset, trailingText) \<Rightarrow> if asset = [] then Some (PImage part)
             else Some (PInline (renderRichEmojiText
               (case getEmojiAssetUrlFromToken asset of None \<Rightarrow> asset | Some u \<Rightarrow> u)) trailingText)
         | (None, _) \<Rightarrow> Some (PImage part))
      else if hasImageAssets \<and> shouldHideCompanionGifLink part then None
      else Some (PLink part))"

definition prop_string :: "jstr js_prop \<Rightarrow> jstr" where
  "prop_string p = (case p of Val s \<Rightarrow> s | _ \<Rightarrow> [])"

text \<open>\<open>a || b\<close> on strings that may be undefined.\<close>

definition js_or :: "jstr \<Rightarrow> jstr \<Rightarrow> jstr" where
  "js_or a b = (if a \<noteq> [] then a else b)"

definition preview_of :: "jstr \<Rightarrow> preview" where
  "preview_of mime = (if starts_with (js ''image/'') mime then ImagePreview
     else if starts_with (js ''video/'') mime \<or> starts_with (js ''audio/'') mime \<or> mime = js ''application/pdf'' \<or>
       starts_with (js ''text/'') mime then FramePreview else NoPreview)"

definition size_label :: "json js_prop \<Rightarrow> jstr" where
  "size_label p = (case p of Val (JInt n) \<Rightarrow> if n = 0 then [] else 40 # formatBytes (Some n) @ [41] | _ \<Rightarrow> [])"

definition media_view :: "Message \<Rightarrow> media_view option" where
  "media_view m = (let mediaSrc = js_or (prop_string (mediaData m)) (prop_string (mediaUrl m)) in
     if mediaSrc = [] then None
     else Some \<lparr>mv_src = mediaSrc, mv_name = js_or (prop_string (mediaName m)) (js ''attachment''),
       mv_size = size_label (mediaSize m), mv_preview = preview_of (prop_string (mediaMime m))\<rparr>)"

definition MessageBubble :: "Message \<Rightarrow> bool \<Rightarrow> error + bubble" where
  "MessageBubble message isMe = (case msg_type message of
     TWinkd \<Rightarrow> Inr (WinkdBubble (if isMe then js ''You sent a Winkd!''
       else js ''sent you a Winkd! Your window is shaking!''))
   | TNudge \<Rightarrow> Inr (NudgeBubble (if isMe then js ''You sent a nudge.'' else js ''sent you a nudge.''))
   | TSystem \<Rightarrow> Inr (SystemBubble (case m_body message of Val b \<Rightarrow> Some b | _ \<Rightarrow> None))
   | TText \<Rightarrow> (case m_body message of
       Val body \<Rightarrow> (let bodyParts = js_split False body;
           hasImageAssets = list_ex isImageAssetUrl (every_second bodyParts) in
         Inr (TextBubble (List.map_filter (part_view hasImageAssets) bodyParts) (media_view message)))
     | _ \<Rightarrow> Inl TypeErr)
   | _ \<Rightarrow> Inr NoBubble)"

section \<open>A size label is right to half a tenth\<close>

lemma to_fixed1_error:
  assumes "0 \<le> n" and "0 < d"
  shows "\<exists>t. to_fixed1 n d = js_int (t div 10) @ 46 # js_int (t mod 10) \<and> 0 \<le> t \<and> 2 * \<bar>t * d - 10 * n\<bar> \<le> d"
proof -
  let ?t = "(20 * n + d) div (2 * d)"
  define r where "r = (20 * n + d) mod (2 * d)"
  have "0 \<le> r" "r < 2 * d" using assms(2) by (simp_all add: r_def)
  moreover have "2 * (?t * d) + r = 20 * n + d"
    using mult_div_mod_eq [of "2 * d" "20 * n + d"] by (simp add: r_def algebra_simps)
  moreover have "2 * \<bar>x - 10 * n\<bar> \<le> d" if "0 \<le> r" "r < 2 * d" "2 * x + r = 20 * n + d" for x
    using that by (simp add: abs_if split: if_split)
  ultimately have "2 * \<bar>?t * d - 10 * n\<bar> \<le> d" by blast
  moreover have "0 \<le> ?t" using assms by (simp add: pos_imp_zdiv_nonneg_iff)
  ultimately show ?thesis by (auto simp: to_fixed1_def Let_def)
qed

end
