(* ===== verification/UiProperties.thy ===== *)
theory UiProperties
  imports LoginRuns SecuritySettings Sidebar ChatWindow MessageBubble
begin

text \<open>Properties of the user interface's handlers and of what it shows.\<close>

section \<open>Attachments\<close>

text \<open>The attachment policy. A picked file is read only if its extension, in whatever case, is not one of
  the blocked ones and it is at most 3 MB; a file that is refused changes nothing but the message shown.
  When a file has been read, exactly one message is sent, in the conversation and by the user of the
  moment of picking, with the file's name, data and size and a body that is not empty.\<close>

theorem attachment_policy:
  assumes "handleAttachmentSelect (Some f) conv ses w = (p, w')"
  shows "(p \<noteq> None \<longleftrightarrow> fileExtension (file_name f) \<notin> set BLOCKED_ATTACHMENT_EXTENSIONS \<and> file_size f \<le> 3145728) \<and>
    (\<forall>base ext. file_name f = base @ 46 # ext \<and> 46 \<notin> set ext \<and> js_lower ext \<in> set BLOCKED_ATTACHMENT_EXTENSIONS \<longrightarrow>
       p = None \<and> attachmentError w' = Some blocked_message) \<and>
    inputValue w' = inputValue w \<and>
    (\<forall>q i now dataUrl u s. p = Some q \<longrightarrow> (\<exists>m s' u'. file_read i now q (Inr dataUrl) u s = (Some (CmdSendMessage, m), u', s') \<and>
       messages_of (own_id conv) s' = messages_of (own_id conv) s @ [m] \<and> senderId m = winkdId (profile ses) \<and>
       mediaData m = Val dataUrl \<and> mediaName m = Val (file_name f) \<and> mediaSize m = Val (JInt (file_size f)) \<and>
       (\<exists>b. m_body m = Val b \<and> b \<noteq> [])))"
proof -
  let ?ok = "fileExtension (file_name f) \<notin> set BLOCKED_ATTACHMENT_EXTENSIONS \<and> file_size f \<le> 3145728"
  have sel: "p = (if ?ok then Some \<lparr>pend_file = f, pend_conv = conv, pend_session = ses, pend_input = inputValue w\<rparr> else None)"
    "inputValue w' = inputValue w"
    "fileExtension (file_name f) \<in> set BLOCKED_ATTACHMENT_EXTENSIONS \<longrightarrow> attachmentError w' = Some blocked_message"
    using assms by (auto simp: handleAttachmentSelect_def MAX_ATTACHMENT_BYTES_def split: if_splits)
  have read: "\<exists>m s' u'. file_read i now \<lparr>pend_file = f, pend_conv = conv, pend_session = ses, pend_input = t\<rparr> (Inr dataUrl) u s =
        (Some (CmdSendMessage, m), u', s') \<and>
      messages_of (own_id conv) s' = messages_of (own_id conv) s @ [m] \<and> senderId m = winkdId (profile ses) \<and>
      mediaData m = Val dataUrl \<and> mediaName m = Val (file_name f) \<and> mediaSize m = Val (JInt (file_size f)) \<and>
      (\<exists>b. m_body m = Val b \<and> b \<noteq> [])" for i now dataUrl u s t
    by (simp add: file_read_def sendAttachment_def base_message_def append_message_def attachment_of_def Let_def
      messages_of_def spread_conv_def find_conv_def paperclip_def)
  show ?thesis using sel read by (auto simp: fileExtension_dot)
qed

definition demo_conv :: Conversation where
  "demo_conv = \<lparr>conv_id = Some (js ''bo#1''), conv_contactId = Some (js ''bo#1''), conv_messages = Some [], isShaking = Some False\<rparr>"

definition demo_ses :: Session where
  "demo_ses = \<lparr>token = js ''t'', profile = \<lparr>winkdId = js ''ana#1234'', displayName = js ''Ana'', moodMessage = [],
     status = Online, avatarData = None, sessionToken = js ''t''\<rparr>, supporter = defaultSupporterState\<rparr>"

definition demo_exe :: picked_file where
  "demo_exe = \<lparr>file_name = js ''setup'' @ 46 # js ''EXE'', file_type = [], file_size = 10\<rparr>"

theorem attachment_policy_witness:
  "fst (handleAttachmentSelect (Some demo_exe) demo_conv demo_ses new_window) = None \<and>
   attachmentError (snd (handleAttachmentSelect (Some demo_exe) demo_conv demo_ses new_window)) = Some blocked_message"
proof -
  obtain p w' where sel: "handleAttachmentSelect (Some demo_exe) demo_conv demo_ses new_window = (p, w')"
    by (metis surj_pair)
  have "js_lower (js ''EXE'') = js ''exe''" "46 \<notin> set (js ''EXE'')" by (simp_all add: js_lower_def js_def)
  moreover have "js ''exe'' \<in> set BLOCKED_ATTACHMENT_EXTENSIONS" by (simp add: BLOCKED_ATTACHMENT_EXTENSIONS_def)
  moreover have "file_name demo_exe = js ''setup'' @ 46 # js ''EXE''" by (simp add: demo_exe_def)
  ultimately have "p = None \<and> attachmentError w' = Some blocked_message"
    using attachment_policy [OF sel] by metis
  then show ?thesis by (simp add: sel)
qed

section \<open>Emoji in a text\<close>

text \<open>Rendering a text with emoji loses nothing. Its tokens joined are the text; each token that is not empty
  is shown by one node, in order, as itself or as the emoji of its asset followed by the punctuation after
  it; and the picture of a colon token is one of the two emoji directories, named by letters, digits and
  dashes only.\<close>

theorem rich_text_keeps_everything:
  "concat (js_split True s) = s \<and>
   list_all2 shows_token (filter (\<lambda>t. t \<noteq> []) (js_split True s)) (renderRichEmojiText s) \<and>
   (getEmojiAssetUrlFromToken tok = None \<or> (\<exists>slug. slug \<noteq> [] \<and> list_all (token_char False) slug \<and>
      the (getEmojiAssetUrlFromToken tok) \<in>
        {MSN_EMOTICON_BASE_URL @ 47 # slug @ js ''.png'', js ''/emoji-packs/spikey/'' @ slug @ js ''.png''}))"
proof -
  have "list_all2 shows_token ts (map rich_token ts)" for ts
    by (induction ts) (simp_all add: rich_token_shows)
  moreover have "concat (js_split True s) = s" by (simp add: js_split_def concat_split_tokens)
  moreover have "\<exists>slug. slug \<noteq> [] \<and> list_all (token_char False) slug \<and> url \<in>
      {MSN_EMOTICON_BASE_URL @ 47 # slug @ js ''.png'', js ''/emoji-packs/spikey/'' @ slug @ js ''.png''}"
    if "getEmojiAssetUrlFromToken tok = Some url" for url
    using emoji_url_shape [OF that] by (simp add: list_all_iff)
  ultimately show ?thesis
    by (cases "getEmojiAssetUrlFromToken tok") (simp_all add: renderRichEmojiText_def)
qed

section \<open>Signing in\<close>

text \<open>A session comes from a good answer only. Whatever answer ends a submission of the password or of the
  second factor, the form is no longer loading, and the session changes only for a response that is ok, in
  which case it holds that response's token and id; an answer to the password that asks for the second
  factor changes no session, and the next request carries its challenge token and the code without white
  space.\<close>

theorem login_needs_good_answer:
  assumes "submit_answer m raw r (p, a) = Some (p', a') \<or> totp_answer raw r (p, a) = Some (p', a')"
  shows "\<not> loading p' \<and>
    (a' = a \<or> (\<exists>d x. r = Response True (Inr d) \<and> login_data_of d = Some x \<and> a' = completeLogin raw x a \<and>
       (\<exists>s. session a' = Some s \<and> token s = ld_token x \<and> winkdId (profile s) = ld_winkdId x))) \<and>
    (\<forall>d t code. submit_answer m raw r (p, a) = Some (p', a') \<and> r = Response True (Inr d) \<and> challenge_of d = Some t \<longrightarrow>
       a' = a \<and> lp_mode p' = Totp \<and> rq_body (fst (handleTotpSubmit (type_totp code p'))) =
         JObj [(js ''challenge_token'', JStr t), (js ''code'', JStr (filter (\<lambda>c. \<not> js_ws c) code))])"
proof -
  have null: "challenge_of JNull = None" by (simp add: challenge_of_def wants_challenge_def json_get_def js_Boolean_def)
  have "\<not> loading p' \<and> (a' = a \<or> (\<exists>d x. r = Response True (Inr d) \<and> login_data_of d = Some x \<and> a' = completeLogin raw x a))"
    using assms by (auto simp: login_answers split: http.splits bool.splits sum.splits option.splits if_splits)
  moreover have "\<exists>s. session (completeLogin raw x a) = Some s \<and> token s = ld_token x \<and> winkdId (profile s) = ld_winkdId x" for x
    using completeLogin_session [of raw x a] by blast
  moreover have "a' = a \<and> lp_mode p' = Totp \<and> rq_body (fst (handleTotpSubmit (type_totp code p'))) =
      JObj [(js ''challenge_token'', JStr t), (js ''code'', JStr (filter (\<lambda>c. \<not> js_ws c) code))]"
    if "submit_answer m raw r (p, a) = Some (p', a')" "r = Response True (Inr d)" "challenge_of d = Some t" for d t code
    using that null by (auto simp: submit_answer_def handleTotpSubmit_def type_totp_def challenge_of_def split: if_splits)
  ultimately show ?thesis by blast
qed

text \<open>C38: over all runs of the login page, whatever the order of typing, tabs, submissions and answers: at most
  one request is on its way, and the page shows that it is loading exactly then; the page asks for the
  second factor only with a challenge that an answer to a password gave; every request for the second
  factor carries such a challenge and a code without white space; and a session exists only when the
  second factor was accepted or a password was accepted that asked for none, with the token and the id
  of that answer.\<close>

theorem login_runs:
  assumes "runs login_enabled login_handle (opened a) es L" and "session a = None"
  shows "length (in_flight L) \<le> 1 \<and> (loading (page L) \<longleftrightarrow> in_flight L \<noteq> []) \<and>
    (lp_mode (page L) = Totp \<longrightarrow> challenged L (challengeToken (page L))) \<and>
    (\<forall>q \<in> set (asked L). rq_path q = js ''/api/auth/totp/challenge'' \<longrightarrow> totp_request L q) \<and>
    (\<forall>s. session (auth_state L) = Some s \<longrightarrow> granted L s)"
  using login_machine.run_keeps [OF assms(1) login_inv_opened [OF assms(2)]]
  by (simp add: login_inv_def split: option.splits)

definition demo_challenge :: json where
  "demo_challenge = JObj [(js ''totp_required'', JBool True), (js ''challenge_token'', JStr (js ''c1''))]"

theorem login_needs_good_answer_witness:
  "\<exists>p'. submit_answer Login None (Response True (Inr demo_challenge)) (new_login_page, \<lparr>session = None, session_obj = 0\<rparr>) =
      Some (p', \<lparr>session = None, session_obj = 0\<rparr>) \<and> lp_mode p' = Totp \<and> \<not> loading p'"
proof -
  have c: "wants_challenge demo_challenge" "challenge_of demo_challenge = Some (js ''c1'')" "demo_challenge \<noteq> JNull"
    by code_simp+
  let ?a = "\<lparr>session = None, session_obj = 0\<rparr> :: AuthState"
  obtain p' a' where ans: "submit_answer Login None (Response True (Inr demo_challenge)) (new_login_page, ?a) = Some (p', a')"
    using c by (simp add: submit_answer_def)
  with login_needs_good_answer [OF disjI1 [OF ans]] c show ?thesis by auto
qed

definition demo_welcome :: json where
  "demo_welcome = JObj [(js ''session_token'', JStr (js ''t1'')), (js ''winkd_id'', JStr (js ''ana#1234'')),
     (js ''display_name'', JStr (js ''Ana''))]"

definition demo_login :: "login_event list" where
  "demo_login = [TypeUsername (js ''ana''), TypePassword (js ''secret''), Submit, Answer 0 None (Response True (Inr demo_challenge)),
     TypeTotp (js ''12 34''), SubmitTotp, Answer 0 None (Response True (Inr demo_welcome))]"

theorem login_runs_witness:
  "\<exists>L s. runs login_enabled login_handle (opened \<lparr>session = None, session_obj = 0\<rparr>) demo_login L \<and>
     session (auth_state L) = Some s \<and> token s = js ''t1'' \<and> granted L s"
proof -
  let ?a = "\<lparr>session = None, session_obj = 0\<rparr> :: AuthState"
  have c: "wants_challenge demo_challenge" "challenge_of demo_challenge = Some (js ''c1'')" "demo_challenge \<noteq> JNull"
    by code_simp+
  have w: "\<not> wants_challenge demo_welcome" "demo_welcome \<noteq> JNull"
    "login_data_of demo_welcome = Some \<lparr>ld_token = js ''t1'', ld_winkdId = js ''ana#1234'', ld_displayName = js ''Ana'',
       ld_mood = None, ld_avatar = None\<rparr>"
    by code_simp+
  obtain L s where L: "runs login_enabled login_handle (opened ?a) demo_login L" "session (auth_state L) = Some s" "token s = js ''t1''"
    using c w by (simp add: runs_rules demo_login_def opened_def new_login_page_def ask_def handleSubmit_def handleTotpSubmit_def finish_def
      submit_answer_def totp_answer_def type_totp_def completeLogin_def login_def set_session_def Let_def)
  with login_runs [OF L(1)] show ?thesis by auto
qed

section \<open>Security settings\<close>

text \<open>A failed request changes no security setting. When a request to set up, confirm or disable the second
  factor, to make new backup codes, to revoke a device or to read the audit log is refused or does not
  reach the server, the settings shown stay as they were and the panel is no longer loading; a refusal is
  shown as an error, while a request that did not reach the server shows nothing at all.\<close>

theorem failed_request_keeps_settings:
  assumes "r = NetworkError \<or> r = Response False b"
    and "Some s' \<in> {setup_answer r s, confirm_answer r s, regenerate_answer r s, audit_answer r s} \<or>
      s' = disable_answer r s \<or> s' = revoke_answer k r s"
  shows "totpEnabled s' = totpEnabled s \<and> backupCodes s' = backupCodes s \<and> recoveryRemaining s' = recoveryRemaining s \<and>
    setupStep s' = setupStep s \<and> devices s' = devices s \<and> auditLog s' = auditLog s \<and> \<not> sec_loading s' \<and>
    (r = NetworkError \<longrightarrow> msg s' = msg s \<and> err s' = err s) \<and> (r \<noteq> NetworkError \<longrightarrow> msg s' = [] \<and> err s' \<noteq> [])"
  using assms by (auto simp: security_answers)

theorem failed_request_keeps_settings_witness:
  "devices (revoke_answer 3 (Response False (Inr JNull)) new_security) = [] \<and>
   err (revoke_answer 3 (Response False (Inr JNull)) new_security) \<noteq> []"
  using failed_request_keeps_settings [of "Response False (Inr JNull)" "Inr JNull" "revoke_answer 3 (Response False (Inr JNull)) new_security"
      new_security 3] by (simp add: new_security_def)

section \<open>The buddy list\<close>

definition groups_of :: "Contact \<Rightarrow> UIGroup list" where
  "groups_of c = map fst (filter (\<lambda>(k, label, p). p c) UI_GROUPS)"

text \<open>The groups of the buddy list. A contact whose status is one of the four declared ones is in exactly
  one group. A contact with any other status, such as the offline that the server sends when a buddy goes
  away, is in none: it is no longer shown. And cycling the own status four times gives it back.\<close>

theorem buddy_list_groups:
  "(status c \<in> set STATUS_CYCLE \<longrightarrow> length (groups_of c) = 1 \<and> (next_status ^^ 4) (status c) = status c) \<and>
   (status c = OtherStatus t \<longrightarrow> groups_of c = [] \<and>
      (\<forall>k g cs. (k, g) \<in> set (shown_groups cs) \<longrightarrow> c \<notin> set g))"
proof -
  have "(next_status ^^ 4) Online = Online" "(next_status ^^ 4) Away = Away" "(next_status ^^ 4) Busy = Busy"
    "(next_status ^^ 4) Invisible = Invisible"
    by (simp_all add: next_status_def STATUS_CYCLE_def numeral_eq_Suc)
  then show ?thesis
    by (auto simp: groups_of_def UI_GROUPS_def STATUS_CYCLE_def shown_groups_def)
qed

definition demo_buddy :: "UserStatus \<Rightarrow> Contact" where
  "demo_buddy st = \<lparr>winkdId = js ''bo#1'', displayName = js ''Bo'', moodMessage = [], status = st, avatarData = None,
     contact_id = js ''bo#1'', requestStatus = Accepted, unreadCount = 0, lastMessageAt = None\<rparr>"

theorem buddy_list_groups_witness:
  "groups_of (demo_buddy (status_of (js ''offline''))) = [] \<and> length (groups_of (demo_buddy Busy)) = 1"
  using buddy_list_groups [of "demo_buddy Busy" "[]"] buddy_list_groups [of "demo_buddy (status_of (js ''offline''))" "js ''offline''"]
  by (simp add: demo_buddy_def status_of_def STATUS_CYCLE_def)

section \<open>What else the interface shows\<close>

text \<open>A text message without a body is stored like any other, and rendering it throws.\<close>

lemma text_without_body_throws:
  "msg_type m = TText \<Longrightarrow> m_body m = Undef \<Longrightarrow> MessageBubble m isMe = Inl TypeErr"
  by (simp add: MessageBubble_def)

text \<open>The timer of a message clears the message that came after it.\<close>

lemma flash_cleared_early:
  "msg (clear_timer_fires (flash False m2 (flash False m1 s))) = [] \<and>
   clear_timers (clear_timer_fires (flash False m2 (flash False m1 s))) = clear_timers s + 1"
  by (simp add: flash_def clear_timer_fires_def)

text \<open>The QR parser of the sidebar understands the code the sidebar shows.\<close>

lemma own_qr_code_is_understood:
  "well_formed (winkdId p) \<Longrightarrow> winkd_id_format (winkdId p) \<Longrightarrow>
    \<exists>raw. myQrData p = Inr raw \<and> parseQrToWinkdId raw = Inr (Some (winkdId p))"
  using parse_own_qr by (simp add: myQrData_def)

end
