(* ===== verification/EmojiPicker.thy ===== *)
theory EmojiPicker
  imports RichEmoji AuthStore
begin

text \<open>
  apps/web/src/components/EmojiPicker.tsx: the tables of the picker, what is offered, and what a pick puts
  into the message; with the lemmas that say what the token of a pick becomes in a message. The names are
  ASCII, so \<open>js_lower\<close> decides the search exactly.
\<close>

section \<open>Tables\<close>

datatype EmojiItem = Unicode jstr | Classic jstr jstr | Spikey jstr jstr

record Category =
  label :: jstr
  emojis :: "EmojiItem list"

definition unicode :: "jstr list \<Rightarrow> EmojiItem list" where
  "unicode values = map Unicode values"

text \<open>A literal, by its code points.\<close>

definition emo :: "nat list \<Rightarrow> jstr" where
  "emo cps = concat (map utf16_encode cps)"

definition CLASSIC_CATEGORY :: Category where
  "CLASSIC_CATEGORY = \<lparr>label = js ''Classic'', emojis = [
    Classic (js ''Smile'') (js ''smile''), Classic (js ''Open-mouthed smile'') (js ''open-mouthed-smile''),
    Classic (js ''Winking smile'') (js ''winking-smile''), Classic (js ''Surprised smile'') (js ''surprised-smile''),
    Classic (js ''Smile with tongue out'') (js ''smile-with-tongue-out''),
    Classic (js ''Hot smile'') (js ''hot-smile''), Classic (js ''Angry smile'') (js ''angry-smile''),
    Classic (js ''Embarrassed smile'') (js ''embarrassed-smile''),
    Classic (js ''Confused smile'') (js ''confused-smile''), Classic (js ''Sad smile'') (js ''sad-smile''),
    Classic (js ''Crying face'') (js ''crying-face''),
    Classic (js ''Disappointed smile'') (js ''disappointed-smile''), Classic (js ''Devil'') (js ''devil''),
    Classic (js ''Angel'') (js ''angel''), Classic (js ''Red heart'') (js ''red-heart''),
    Classic (js ''Broken heart'') (js ''broken-heart''), Classic (js ''Messenger'') (js ''messenger''),
    Classic (js ''Cat face'') (js ''cat-face''), Classic (js ''Dog face'') (js ''dog-face''),
    Classic (js ''Sleeping half-moon'') (js ''sleeping-half-moon''), Classic (js ''Star'') (js ''star''),
    Classic (js ''Filmstrip'') (js ''filmstrip''), Classic (js ''Note'') (js ''note''),
    Classic (js ''E-mail'') (js ''e-mail''), Classic (js ''Red rose'') (js ''red-rose''),
    Classic (js ''Wilted rose'') (js ''wilted-rose''), Classic (js ''Clock'') (js ''clock''),
    Classic (js ''Red lips'') (js ''red-lips''), Classic (js ''Gift with a bow'') (js ''gift-with-a-bow''),
    Classic (js ''Birthday cake'') (js ''birthday-cake''), Classic (js ''Camera'') (js ''camera''),
    Classic (js ''Light bulb'') (js ''light-bulb''), Classic (js ''Coffee cup'') (js ''coffee-cup''),
    Classic (js ''Telephone receiver'') (js ''telephone-receiver''), Classic (js ''Left hug'') (js ''left-hug''),
    Classic (js ''Right hug'') (js ''right-hug''), Classic (js ''Beer mug'') (js ''beer-mug''),
    Classic (js ''Martini glass'') (js ''martini-glass''), Classic (js ''Boy'') (js ''boy''),
    Classic (js ''Girl'') (js ''girl''), Classic (js ''Thumbs up'') (js ''thumbs-up''),
    Classic (js ''Thumbs down'') (js ''thumbs-down''), Classic (js ''Vampire bat'') (js ''vampire-bat''),
    Classic (js ''Goat'') (js ''goat''), Classic (js ''Sun'') (js ''sun''),
    Classic (js ''Rainbow'') (js ''rainbow''),
    Classic (js ''Don'' @ 39 # js ''t tell anyone smile'') (js ''dont-tell-anyone-smile''),
    Classic (js ''Baring teeth smile'') (js ''baring-teeth-smile''), Classic (js ''Nerd smile'') (js ''nerd-smile''),
    Classic (js ''Sarcastic smile'') (js ''sarcastic-smile''),
    Classic (js ''Secret telling smile'') (js ''secret-telling-smile''),
    Classic (js ''Sick smile'') (js ''sick-smile''), Classic (js ''Snail'') (js ''snail''),
    Classic (js ''Turtle'') (js ''turtle''), Classic (js ''Plate'') (js ''plate''),
    Classic (js ''Bowl'') (js ''bowl''), Classic (js ''Pizza'') (js ''pizza''),
    Classic (js ''Soccer ball'') (js ''soccer-ball''), Classic (js ''Auto'') (js ''auto''),
    Classic (js ''Airplane'') (js ''airplane''), Classic (js ''Umbrella'') (js ''umbrella''),
    Classic (js ''Island with a palm tree'') (js ''island-with-a-palm-tree''),
    Classic (js ''Computer'') (js ''computer''), Classic (js ''Mobile phone'') (js ''mobile-phone''),
    Classic (js ''Be right back'') (js ''be-right-back''), Classic (js ''Storm cloud'') (js ''storm-cloud''),
    Classic (js ''High five'') (js ''high-five''), Classic (js ''Money'') (js ''money''),
    Classic (js ''Black sheep'') (js ''black-sheep''),
    Classic (js ''I don'' @ 39 # js ''t know smile'') (js ''i-dont-know-smile''),
    Classic (js ''Thinking smile'') (js ''thinking-smile''), Classic (js ''Lightning'') (js ''lightning''),
    Classic (js ''Party smile'') (js ''party-smile''), Classic (js ''Eye-rolling smile'') (js ''eye-rolling-smile''),
    Classic (js ''Sleepy smile'') (js ''sleepy-smile''), Classic (js ''Bunny'') (js ''bunny'')]\<rparr>"

definition SMILEYS_CATEGORY :: Category where
  "SMILEYS_CATEGORY = \<lparr>label = js ''Smileys'', emojis = unicode (map emo [
    [0x1F600], [0x1F601], [0x1F602], [0x1F923], [0x1F603], [0x1F604], [0x1F605], [0x1F606], [0x1F609], [0x1F60A],
    [0x1F60B], [0x1F60E], [0x1F60D], [0x1F970], [0x1F618], [0x1F617], [0x1F619], [0x1F61A], [0x1F642], [0x1F917],
    [0x1F929], [0x1F914], [0x1F928], [0x1F610], [0x1F611], [0x1F636], [0x1F644], [0x1F60F], [0x1F623], [0x1F625],
    [0x1F62E], [0x1F910], [0x1F62F], [0x1F62A], [0x1F62B], [0x1F971], [0x1F634], [0x1F60C], [0x1F61B], [0x1F61C],
    [0x1F61D], [0x1F924], [0x1F612], [0x1F613], [0x1F614], [0x1F615], [0x1F643], [0x1F911], [0x1F632],
    [0x2639, 0xFE0F], [0x1F641], [0x1F616], [0x1F61E], [0x1F61F], [0x1F624], [0x1F622], [0x1F62D], [0x1F626],
    [0x1F627], [0x1F628], [0x1F629], [0x1F92F], [0x1F62C], [0x1F630], [0x1F631], [0x1F975], [0x1F976], [0x1F633],
    [0x1F92A], [0x1F635], [0x1F920], [0x1F974], [0x1F637], [0x1F912], [0x1F915], [0x1F927], [0x1F973], [0x1F978],
    [0x1F921], [0x1F479]])\<rparr>"

definition GESTURES_CATEGORY :: Category where
  "GESTURES_CATEGORY = \<lparr>label = js ''Gestures'', emojis = unicode (map emo [
    [0x1F44D], [0x1F44E], [0x1F44C], [0x270C, 0xFE0F], [0x1F91E], [0x1F91F], [0x1F918], [0x1F919], [0x1F448],
    [0x1F449], [0x1F446], [0x1F595], [0x1F447], [0x261D, 0xFE0F], [0x1F44B], [0x1F91A], [0x1F590, 0xFE0F], [0x270B],
    [0x1F596], [0x1F44F], [0x1F64C], [0x1F932], [0x1F91D], [0x1F64F], [0x270D, 0xFE0F], [0x1F4AA], [0x1F9BE],
    [0x1F9B5], [0x1F9B6], [0x1F442], [0x1F9BB], [0x1F443], [0x1F440], [0x1F441, 0xFE0F], [0x1F445], [0x1F444],
    [0x1F48B], [0x1FAC0], [0x1FAC1], [0x1F9E0]])\<rparr>"

definition HEARTS_CATEGORY :: Category where
  "HEARTS_CATEGORY = \<lparr>label = js ''Hearts'', emojis = unicode (map emo [
    [0x2764, 0xFE0F], [0x1F9E1], [0x1F49B], [0x1F49A], [0x1F499], [0x1F49C], [0x1F5A4], [0x1F90D], [0x1F90E],
    [0x1F494], [0x2763, 0xFE0F], [0x1F495], [0x1F49E], [0x1F493], [0x1F497], [0x1F496], [0x1F498], [0x1F49D],
    [0x1F49F], [0x262E, 0xFE0F], [0x271D, 0xFE0F], [0x262A, 0xFE0F], [0x1F52F], [0x2648], [0x2649], [0x264A],
    [0x264B], [0x264C], [0x264D], [0x264E]])\<rparr>"

definition PEOPLE_CATEGORY :: Category where
  "PEOPLE_CATEGORY = \<lparr>label = js ''People'', emojis = unicode (map emo [
    [0x1F476], [0x1F9D2], [0x1F466], [0x1F467], [0x1F9D1], [0x1F471], [0x1F468], [0x1F9D4], [0x1F469], [0x1F9D3],
    [0x1F474], [0x1F475], [0x1F64D], [0x1F64E], [0x1F645], [0x1F646], [0x1F481], [0x1F64B], [0x1F9CF], [0x1F647],
    [0x1F926], [0x1F937], [0x1F486], [0x1F487], [0x1F6B6], [0x1F9CD], [0x1F9CE], [0x1F3C3], [0x1F483], [0x1F57A],
    [0x1F46B], [0x1F46C], [0x1F46D], [0x1F491], [0x1F48F], [0x1F46A], [0x1F9D1, 0x200D, 0x1F91D, 0x200D, 0x1F9D1]])\<rparr>"

definition NATURE_CATEGORY :: Category where
  "NATURE_CATEGORY = \<lparr>label = js ''Nature'', emojis = unicode (map emo [
    [0x1F436], [0x1F431], [0x1F42D], [0x1F439], [0x1F430], [0x1F98A], [0x1F43B], [0x1F43C], [0x1F428], [0x1F42F],
    [0x1F981], [0x1F42E], [0x1F437], [0x1F438], [0x1F435], [0x1F648], [0x1F649], [0x1F64A], [0x1F414], [0x1F427],
    [0x1F426], [0x1F424], [0x1F986], [0x1F985], [0x1F989], [0x1F987], [0x1F43A], [0x1F417], [0x1F434], [0x1F984],
    [0x1F41D], [0x1F41B], [0x1F98B], [0x1F40C], [0x1F41E], [0x1F41C], [0x1F99F], [0x1F997], [0x1F577, 0xFE0F],
    [0x1F982], [0x1F338], [0x1F33C], [0x1F33B], [0x1F339], [0x1F940], [0x1F337], [0x1F331], [0x1F33F],
    [0x2618, 0xFE0F], [0x1F340], [0x1F38B], [0x1F38D], [0x1F343], [0x1F342], [0x1F341], [0x1F344], [0x1F33E],
    [0x1F490], [0x1F332], [0x1F333]])\<rparr>"

definition FOOD_CATEGORY :: Category where
  "FOOD_CATEGORY = \<lparr>label = js ''Food'', emojis = unicode (map emo [
    [0x1F34E], [0x1F34A], [0x1F34B], [0x1F347], [0x1F353], [0x1FAD0], [0x1F348], [0x1F351], [0x1F352], [0x1F34D],
    [0x1F96D], [0x1F345], [0x1F346], [0x1F951], [0x1F966], [0x1F96C], [0x1F952], [0x1F336, 0xFE0F], [0x1FAD1],
    [0x1F9C4], [0x1F9C5], [0x1F954], [0x1F360], [0x1F950], [0x1F96F], [0x1F35E], [0x1F956], [0x1F968], [0x1F9C0],
    [0x1F95A], [0x1F373], [0x1F9C8], [0x1F95E], [0x1F9C7], [0x1F953], [0x1F969], [0x1F357], [0x1F356], [0x1F9B4],
    [0x1F32D], [0x1F354], [0x1F35F], [0x1F355], [0x1FAD3], [0x1F96A], [0x1F959], [0x1F9C6], [0x1F32E], [0x1F32F],
    [0x1FAD4], [0x1F957], [0x1F35C], [0x1F35D], [0x1F35B], [0x1F372], [0x1F363], [0x1F371], [0x1F95F], [0x1F9AA],
    [0x1F364], [0x2615], [0x1FAD6], [0x1F375], [0x1F9C3], [0x1F964], [0x1F9CB], [0x1F37A], [0x1F37B], [0x1F942],
    [0x1F377]])\<rparr>"

definition ACTIVITIES_CATEGORY :: Category where
  "ACTIVITIES_CATEGORY = \<lparr>label = js ''Activities'', emojis = unicode (map emo [
    [0x26BD], [0x1F3C0], [0x1F3C8], [0x26BE], [0x1F94E], [0x1F3BE], [0x1F3D0], [0x1F3C9], [0x1F94F], [0x1F3B1],
    [0x1F3D3], [0x1F3F8], [0x1F3D2], [0x1F945], [0x26F3], [0x1F3BF], [0x1F6F7], [0x1F94C], [0x1F3AF], [0x1F3B1],
    [0x1F3AE], [0x1F3B2], [0x1F3AD], [0x1F3A8], [0x1F3AC], [0x1F3A4], [0x1F3A7], [0x1F3BC], [0x1F3B9], [0x1F941],
    [0x1F3B7], [0x1F3BA], [0x1F3B8], [0x1FA95], [0x1F3BB], [0x1F3B5], [0x1F3B6], [0x1F399, 0xFE0F], [0x1F4FB],
    [0x1F39A, 0xFE0F]])\<rparr>"

definition TRAVEL_CATEGORY :: Category where
  "TRAVEL_CATEGORY = \<lparr>label = js ''Travel'', emojis = unicode (map emo [
    [0x1F697], [0x1F695], [0x1F699], [0x1F68C], [0x1F68E], [0x1F3CE, 0xFE0F], [0x1F693], [0x1F691], [0x1F692],
    [0x1F690], [0x1F6FB], [0x1F69A], [0x1F69B], [0x1F69C], [0x1F3CD, 0xFE0F], [0x1F6F5], [0x1F6B2], [0x1F6F4],
    [0x1F6F9], [0x1F6FC], [0x2708, 0xFE0F], [0x1F680], [0x1F6F8], [0x1F682], [0x1F6A2], [0x1F6E5, 0xFE0F], [0x1F681],
    [0x1FA82], [0x1F6F6], [0x26F5], [0x1F30D], [0x1F30E], [0x1F30F], [0x1F5FA, 0xFE0F], [0x1F9ED], [0x1F3D4, 0xFE0F],
    [0x1F30B], [0x1F5FB], [0x1F3D5, 0xFE0F], [0x1F3D6, 0xFE0F]])\<rparr>"

definition OBJECTS_CATEGORY :: Category where
  "OBJECTS_CATEGORY = \<lparr>label = js ''Objects'', emojis = unicode (map emo [
    [0x1F4A1], [0x1F526], [0x1F56F, 0xFE0F], [0x1F4B0], [0x1F4B5], [0x1F4B3], [0x1F4F1], [0x1F4BB], [0x2328, 0xFE0F],
    [0x1F5A5, 0xFE0F], [0x1F5A8, 0xFE0F], [0x1F5B1, 0xFE0F], [0x1F4BE], [0x1F4BF], [0x1F4C0], [0x1F4F7], [0x1F4F8],
    [0x1F4F9], [0x1F3A5], [0x1F4FD, 0xFE0F], [0x1F4DE], [0x260E, 0xFE0F], [0x1F4DF], [0x1F4E0], [0x1F4FA], [0x1F4FB],
    [0x1F399, 0xFE0F], [0x1F4E1], [0x1F50B], [0x1FAAB], [0x1F50C], [0x1F4A1], [0x1F526], [0x1F56F, 0xFE0F],
    [0x1FA94], [0x1F9EF], [0x1F6E2, 0xFE0F], [0x1F4B8], [0x1F4E6], [0x1F4EB], [0x1F4EE], [0x1F5F3, 0xFE0F],
    [0x270F, 0xFE0F], [0x1F4DD], [0x1F4D6], [0x1F4DA], [0x1F4CB], [0x1F4C5], [0x1F4C6], [0x1F4C7], [0x1F5C2, 0xFE0F],
    [0x1F5D2, 0xFE0F], [0x1F4F0], [0x1F4DC], [0x1F4C4], [0x1F4C3], [0x1F5D1, 0xFE0F], [0x1F512], [0x1F513], [0x1F511]])\<rparr>"

definition SYMBOLS_CATEGORY :: Category where
  "SYMBOLS_CATEGORY = \<lparr>label = js ''Symbols'', emojis = unicode (map emo [
    [0x2705], [0x274C], [0x274E], [0x1F534], [0x1F7E0], [0x1F7E1], [0x1F7E2], [0x1F535], [0x1F7E3], [0x26AB],
    [0x26AA], [0x1F7E4], [0x1F536], [0x1F537], [0x1F538], [0x1F539], [0x1F53A], [0x1F53B], [0x1F4A0], [0x1F518],
    [0x1F532], [0x1F533], [0x25AA, 0xFE0F], [0x25AB, 0xFE0F], [0x25FE], [0x25FD], [0x25FC, 0xFE0F], [0x25FB, 0xFE0F],
    [0x1F7E5], [0x1F7E7], [0x1F7E8], [0x1F7E9], [0x1F7E6], [0x1F7EA], [0x2B1B], [0x2B1C], [0x1F525], [0x1F4A7],
    [0x1F30A], [0x2B50], [0x1F31F], [0x2728], [0x1F4AB], [0x26A1], [0x2601, 0xFE0F], [0x1F308], [0x2744, 0xFE0F],
    [0x2603, 0xFE0F], [0x26C4], [0x1F30A], [0x1F389], [0x1F38A], [0x1F388], [0x1F380], [0x1F381], [0x1F3C6],
    [0x1F947], [0x1F948], [0x1F949], [0x1F396, 0xFE0F]])\<rparr>"

definition SPIKEY_CATEGORY :: Category where
  "SPIKEY_CATEGORY = \<lparr>label = js ''Spikey'', emojis = [
    Spikey (js ''Spikey Smile'') (js ''Smile.png''), Spikey (js ''Spikey Laugh'') (js ''Laugh.png''),
    Spikey (js ''Spikey Smirk'') (js ''Smirk.png''), Spikey (js ''Spikey Love'') (js ''Love.png''),
    Spikey (js ''Spikey Hug'') (js ''Hug.png''), Spikey (js ''Spikey Party'') (js ''Party.png''),
    Spikey (js ''Spikey Heart'') (js ''Heart.png''), Spikey (js ''Spikey Music'') (js ''Music.png'')]\<rparr>"

definition CATEGORIES :: "Category list" where
  "CATEGORIES = [CLASSIC_CATEGORY, SMILEYS_CATEGORY, GESTURES_CATEGORY, HEARTS_CATEGORY, PEOPLE_CATEGORY,
     NATURE_CATEGORY, FOOD_CATEGORY, ACTIVITIES_CATEGORY, TRAVEL_CATEGORY, OBJECTS_CATEGORY, SYMBOLS_CATEGORY]"

section \<open>The picker\<close>

record picker =
  activeCategory :: nat
  search :: jstr

definition new_picker :: picker where
  "new_picker = \<lparr>activeCategory = 0, search = []\<rparr>"

definition spikeyUnlocked :: "SupporterState option \<Rightarrow> bool" where
  "spikeyUnlocked supp = (case supp of None \<Rightarrow> False | Some x \<Rightarrow>
     (let extras = map js_lower (purchasedExtras x) in supporter_tier x = Plus \<or>
        js ''emoji-pack-spikey'' \<in> set extras \<or> js ''emoji_pack_spikey'' \<in> set extras \<or> js ''spikey'' \<in> set extras))"

definition categories :: "SupporterState option \<Rightarrow> Category list" where
  "categories supp = (if spikeyUnlocked supp then CATEGORIES @ [SPIKEY_CATEGORY] else CATEGORIES)"

definition name_matches :: "jstr \<Rightarrow> EmojiItem \<Rightarrow> bool" where
  "name_matches q item = (case item of Classic name _ \<Rightarrow> js_includes q (js_lower name)
     | Spikey name _ \<Rightarrow> js_includes q (js_lower name) | Unicode _ \<Rightarrow> True)"

definition filtered :: "SupporterState option \<Rightarrow> picker \<Rightarrow> EmojiItem list" where
  "filtered supp p = (let q = js_lower (js_trim (search p)) in
     if q \<noteq> [] then filter (name_matches q) (concat (map emojis (categories supp)))
     else if activeCategory p < length (categories supp) then emojis (categories supp ! activeCategory p) else [])"

definition getPreview :: "EmojiItem \<Rightarrow> jstr" where
  "getPreview item = (case item of Classic _ filename \<Rightarrow> MSN_EMOTICON_BASE_URL @ 47 # filename @ js ''.png''
     | Spikey _ filename \<Rightarrow> js ''/emoji-packs/spikey/'' @ filename | Unicode v \<Rightarrow> v)"

text \<open>\<open>replace(/\.png$/i, '')\<close>\<close>

definition strip_png :: "jstr \<Rightarrow> jstr" where
  "strip_png s = (let n = length s - 4 in if 4 \<le> length s \<and> map to_ascii_lower (drop n s) = js ''.png'' then take n s else s)"

definition getInsertValue :: "EmojiItem \<Rightarrow> jstr" where
  "getInsertValue item = (case item of Classic _ filename \<Rightarrow> js '':classic-'' @ filename @ js '': ''
     | Spikey _ filename \<Rightarrow> js '':spikey-'' @ js_lower (strip_png filename) @ js '': '' | Unicode v \<Rightarrow> v)"

section \<open>What the picker shows\<close>

datatype picker_control = PickerClose | SearchField jstr | CategoryTab jstr bool jstr | EmojiButton jstr jstr jstr

definition type_search :: "jstr \<Rightarrow> picker \<Rightarrow> picker" where
  "type_search t p = p\<lparr>search := t\<rparr>"

definition choose_category :: "nat \<Rightarrow> picker \<Rightarrow> picker" where
  "choose_category i p = p\<lparr>activeCategory := i\<rparr>"

text \<open>A tab has its first emoji as its face; all categories have one.\<close>

definition category_tabs :: "SupporterState option \<Rightarrow> picker \<Rightarrow> picker_control list" where
  "category_tabs supp p = (if js_trim (search p) \<noteq> [] then []
     else map (\<lambda>(i, c). CategoryTab (label c) (i = activeCategory p) (getPreview (hd (emojis c)))) (enumerate 0 (categories supp)))"

text \<open>The title of a button, what it shows and what a click on it inserts.\<close>

definition emoji_button :: "EmojiItem \<Rightarrow> picker_control" where
  "emoji_button item = EmojiButton (case item of Classic name _ \<Rightarrow> name | Spikey name _ \<Rightarrow> name | Unicode v \<Rightarrow> v)
     (getPreview item) (getInsertValue item)"

definition picker_view :: "bool \<Rightarrow> SupporterState option \<Rightarrow> picker \<Rightarrow> picker_control list" where
  "picker_view closable supp p = (if closable then [PickerClose] else []) @ [SearchField (search p)] @
     category_tabs supp p @ map emoji_button (filtered supp p)"

section \<open>Slugs\<close>

definition slug :: "jstr \<Rightarrow> bool" where
  "slug s \<longleftrightarrow> s \<noteq> [] \<and> list_all (token_char False) s"

lemma token_char_plain:
  assumes "token_char False c"
  shows "\<not> js_ws c" "c \<noteq> 58" "token_char True c" "\<not> (65 \<le> unat c \<and> unat c \<le> 90)" "c \<noteq> 0x212A" "c \<noteq> 0x130"
  using assms by (auto simp: token_char_def js_ws_def Let_def)

lemma js_lower_plain: "list_all (token_char False) s \<Longrightarrow> js_lower s = s"
  by (induction s) (auto simp: js_lower_def dest: token_char_plain)

lemma takeWhile_slug: "list_all (token_char False) s \<Longrightarrow> takeWhile (token_char ci) (s @ 58 # r) = s \<and> dropWhile (token_char ci) (s @ 58 # r) = 58 # r"
proof (induction s)
  case Nil
  then show ?case by (simp add: token_char_def)
next
  case (Cons c s)
  then have "token_char ci c" using token_char_plain(3) [of c] by (cases ci) auto
  with Cons show ?case by simp
qed

lemma match_colon_slug: "slug s \<Longrightarrow> match_colon ci (58 # s @ 58 # r) = Some (58 # s @ [58], r)"
  using takeWhile_slug [of s ci r] by (simp add: match_colon_def slug_def del: dropWhile_eq_Nil_conv)

lemma slug_pack: "slug s \<Longrightarrow> slug (js ''classic-'' @ s)" "slug s \<Longrightarrow> slug (js ''spikey-'' @ s)"
  by (simp_all add: slug_def js_def token_char_def Let_def)

lemma slug_no_ws: "slug s \<Longrightarrow> \<forall>c \<in> set s. \<not> js_ws c"
  by (auto simp: slug_def list_all_iff dest: token_char_plain)

lemma trim_token: "slug s \<Longrightarrow> js_trim (58 # s @ [58]) = 58 # s @ [58]"
  using slug_no_ws [of s] by (intro trim_plain) (auto simp: js_ws_def)

lemma lower_token: "slug s \<Longrightarrow> js_lower (58 # s @ [58]) = 58 # s @ [58]"
  using js_lower_plain [of s] js_lower_append [of "[58]" "s @ [58]"] js_lower_append [of s "[58]"]
  by (simp add: slug_def) (simp add: js_lower_def)

lemma colon_token_slug: "slug s \<Longrightarrow> colon_token (58 # s @ [58])"
  using match_colon_slug [of s False "[]"] by (simp add: colon_token_def)

lemma pack_prefixes:
  "58 # (js ''classic-'' @ s) @ [58] = CLASSIC_TOKEN_PREFIX @ s @ [58]"
  "58 # (js ''spikey-'' @ s) @ [58] = SPIKEY_TOKEN_PREFIX @ s @ [58]"
  "\<not> starts_with CLASSIC_TOKEN_PREFIX (SPIKEY_TOKEN_PREFIX @ t)"
  by (simp_all add: CLASSIC_TOKEN_PREFIX_def SPIKEY_TOKEN_PREFIX_def js_def starts_with_def)

lemma token_url:
  assumes "slug s"
  shows "getEmojiAssetUrlFromToken (CLASSIC_TOKEN_PREFIX @ s @ [58]) = Some (MSN_EMOTICON_BASE_URL @ 47 # s @ js ''.png'')"
    and "getEmojiAssetUrlFromToken (SPIKEY_TOKEN_PREFIX @ s @ [58]) = Some (js ''/emoji-packs/spikey/'' @ s @ js ''.png'')"
proof -
  note c = slug_pack(1) [OF assms] and k = slug_pack(2) [OF assms]
  have "s \<noteq> []" using assms by (simp add: slug_def)
  moreover have "js_lower (js_trim (CLASSIC_TOKEN_PREFIX @ s @ [58])) = CLASSIC_TOKEN_PREFIX @ s @ [58]"
    "js_lower (js_trim (SPIKEY_TOKEN_PREFIX @ s @ [58])) = SPIKEY_TOKEN_PREFIX @ s @ [58]"
    using trim_token [OF c] lower_token [OF c] trim_token [OF k] lower_token [OF k] unfolding pack_prefixes by simp_all
  moreover have "colon_token (CLASSIC_TOKEN_PREFIX @ s @ [58])" "colon_token (SPIKEY_TOKEN_PREFIX @ s @ [58])"
    using colon_token_slug [OF c] colon_token_slug [OF k] unfolding pack_prefixes by simp_all
  ultimately show "getEmojiAssetUrlFromToken (CLASSIC_TOKEN_PREFIX @ s @ [58]) = Some (MSN_EMOTICON_BASE_URL @ 47 # s @ js ''.png'')"
    "getEmojiAssetUrlFromToken (SPIKEY_TOKEN_PREFIX @ s @ [58]) = Some (js ''/emoji-packs/spikey/'' @ s @ js ''.png'')"
    by (simp_all add: getEmojiAssetUrlFromToken_def pack_prefixes(3) butlast_append)
qed

section \<open>The pictures of the packs in a text\<close>

text \<open>A text that is one token, or one address, is split into itself between two empty texts.\<close>

lemma js_split_whole: "inline_match ci s = Some (s, []) \<Longrightarrow> js_split ci s = [[], s, []]"
  by (simp add: js_split_def split_tokens.simps [of ci "[]" s] split_tokens.simps [of ci "[]" "[]"])
    (simp add: inline_match_def match_run_def match_colon_def prefix_ci_def js_def Let_def)

lemma match_run_whole:
  "map to_ascii_lower p = p \<Longrightarrow> t \<noteq> [] \<Longrightarrow> \<forall>c \<in> set t. \<not> js_ws c \<Longrightarrow> match_run ci p (p @ t) = Some (p @ t, [])"
  by (simp add: match_run_def prefix_ci_def Let_def takeWhile_eq_all_conv [THEN iffD2])

lemma lower_literals: "map to_ascii_lower (js ''https://'') = js ''https://''" "map to_ascii_lower (js ''/emoji-packs/'') = js ''/emoji-packs/''"
  by (simp_all add: js_def to_ascii_lower_def)

lemma not_a_scheme: "match_run ci (js ''https://'') (js ''/emoji-packs/'' @ t) = None" "match_run ci (js ''http://'') (js ''/emoji-packs/'' @ t) = None"
  by (simp_all add: match_run_def prefix_ci_def Let_def js_def to_ascii_lower_def)

definition classic_rest :: jstr where
  "classic_rest = js ''github.com/bernzrdo/msn-emoticons/raw/main/original/''"

lemma classic_url: "MSN_EMOTICON_BASE_URL @ 47 # s = js ''https://'' @ classic_rest @ s"
  "js ''https://'' @ classic_rest = js ''https://github.com/bernzrdo/msn-emoticons/raw/main/original/''"
  by (simp_all add: MSN_EMOTICON_BASE_URL_def classic_rest_def js_def)

lemma spikey_url: "js ''/emoji-packs/spikey/'' @ s = js ''/emoji-packs/'' @ js ''spikey/'' @ s"
  by (simp add: js_def)

lemma later_suffix_slug: "slug s \<Longrightarrow> later_suffix (s @ js ''.png'')"
proof (induction s)
  case (Cons c s)
  then have "\<not> js_newline c" by (auto simp: slug_def token_char_def js_newline_def Let_def)
  moreover have "image_suffix (js ''.png'')" by (simp add: image_suffix_def starts_with_def)
  ultimately show ?case using Cons by (cases s) (auto simp: slug_def)
qed (simp add: slug_def)

lemma plain_literals:
  "\<forall>c \<in> set (classic_rest @ js ''.png''). \<not> js_ws c" "\<forall>c \<in> set (js ''spikey/.png''). \<not> js_ws c"
  "js_lower classic_rest = classic_rest" "js_lower (js ''https://'') = js ''https://''" "js_lower (js ''.png'') = js ''.png''"
  "js_lower (js ''/emoji-packs/'') = js ''/emoji-packs/''" "js_lower (js ''spikey/'') = js ''spikey/''"
  by (simp_all add: classic_rest_def js_def js_ws_def js_lower_def)

lemma rich_url:
  assumes "slug s"
  shows "renderRichEmojiText (MSN_EMOTICON_BASE_URL @ 47 # s @ js ''.png'') = [EmojiSpan (MSN_EMOTICON_BASE_URL @ 47 # s @ js ''.png'') []]"
    and "renderRichEmojiText (js ''/emoji-packs/spikey/'' @ s @ js ''.png'') = [EmojiSpan (js ''/emoji-packs/spikey/'' @ s @ js ''.png'') []]"
proof -
  have plain: "js_lower s = s" "\<forall>c \<in> set s. \<not> js_ws c" "s \<noteq> []"
    using assms js_lower_plain slug_no_ws by (auto simp: slug_def)
  have one: "renderRichEmojiText u = [EmojiSpan u []]"
    if "inline_match True u = Some (u, [])" "js_trim u = u" "isInlineEmojiAsset u" "getEmojiAssetUrlFromToken u = None" "u \<noteq> []" for u
    using that by (simp add: renderRichEmojiText_def js_split_whole rich_token_def splitInlineEmojiToken_def)
  have no_colon: "getEmojiAssetUrlFromToken u = None" if "js_trim u = u" "js_lower u = u" "hd u \<noteq> 58" "u \<noteq> []" for u
    using that by (cases u) (simp_all add: getEmojiAssetUrlFromToken_def colon_token_def match_colon_def)
  let ?t = "classic_rest @ s @ js ''.png''" let ?u = "js ''https://'' @ ?t"
  have t: "\<forall>c \<in> set ?t. \<not> js_ws c" "?t \<noteq> []" using plain plain_literals(1) by auto
  have u: "js_trim ?u = ?u" using t by (intro trim_plain) (auto simp: js_def js_ws_def)
  have l: "js_lower ?u = ?u" by (simp only: js_lower_append plain_literals plain)
  have m: "inline_match True ?u = Some (?u, [])"
    using match_run_whole [OF lower_literals(1) t(2,1)] by (simp add: inline_match_def)
  have a: "isInlineEmojiAsset ?u"
    unfolding isInlineEmojiAsset_def Let_def l after_prefix_def
    using later_suffix_slug [OF assms] starts_with_append [of "js ''https://'' @ classic_rest" "s @ js ''.png''"]
    by (simp add: classic_url(2) [symmetric] del: starts_with_append)
  have "hd ?u \<noteq> 58" "?u \<noteq> []" by (simp_all add: js_def)
  from one [OF m u a no_colon [OF u l this] this(2)]
  show "renderRichEmojiText (MSN_EMOTICON_BASE_URL @ 47 # s @ js ''.png'') = [EmojiSpan (MSN_EMOTICON_BASE_URL @ 47 # s @ js ''.png'') []]"
    by (simp only: classic_url(1) append_assoc)
  let ?r = "js ''spikey/'' @ s @ js ''.png''" let ?v = "js ''/emoji-packs/'' @ ?r"
  have r: "\<forall>c \<in> set ?r. \<not> js_ws c" "?r \<noteq> []" using plain plain_literals(2) by (auto simp: js_def)
  have v: "js_trim ?v = ?v" using r by (intro trim_plain) (auto simp: js_def js_ws_def)
  have lv: "js_lower ?v = ?v" by (simp only: js_lower_append plain_literals plain)
  have mv: "inline_match True ?v = Some (?v, [])"
    using match_run_whole [OF lower_literals(2) r(2,1)] not_a_scheme by (simp add: inline_match_def)
  have "later_suffix ?r" using later_suffix_slug [OF assms] plain(3) by (simp add: js_def js_newline_def)
  then have av: "isInlineEmojiAsset ?v"
    unfolding isInlineEmojiAsset_def Let_def lv after_prefix_def by simp
  have "hd ?v \<noteq> 58" "?v \<noteq> []" by (simp_all add: js_def)
  from one [OF mv v av no_colon [OF v lv this] this(2)]
  show "renderRichEmojiText (js ''/emoji-packs/spikey/'' @ s @ js ''.png'') = [EmojiSpan (js ''/emoji-packs/spikey/'' @ s @ js ''.png'') []]"
    by (simp only: spikey_url)
qed

end
