(* ===== verification/EmojiProperties.thy ===== *)
theory EmojiProperties
  imports EmojiPicker MessageBubble ChatWindow
begin

text \<open>From a pick in the emoji picker to the picture in the message.\<close>

section \<open>A message that is one token\<close>

lemma inline_match_token: "slug s \<Longrightarrow> inline_match ci (58 # s @ [58]) = Some (58 # s @ [58], [])"
proof -
  assume "slug s"
  have "match_run ci p (58 # s @ [58]) = None" if "p \<in> {js ''https://'', js ''http://'', js ''/emoji-packs/'', js ''/msn-emoticons/''}" for p
    using that by (auto simp: match_run_def prefix_ci_def Let_def js_def to_ascii_lower_def)
  then show ?thesis using match_colon_slug [OF \<open>slug s\<close>, of ci "[]"] by (simp add: inline_match_def)
qed

lemma inline_match_Nil: "inline_match ci [] = None"
  by (simp add: inline_match_def match_run_def match_colon_def prefix_ci_def Let_def)

lemma bubble_of_token:
  assumes "slug s" and "getEmojiAssetUrlFromToken (58 # s @ [58]) = Some u"
    and "msg_type m = TText" and "m_body m = Val (58 # s @ [58])" and "mediaData m = Absent" and "mediaUrl m = Absent"
  shows "MessageBubble m isMe = Inr (TextBubble [PText [], PInline (renderRichEmojiText u) [], PText []] None)"
proof -
  let ?t = "58 # s @ [58]"
  have "part_view b [] = Some (PText [])" for b
    by (simp add: part_view_def has_match_def inline_match_Nil)
  moreover have "has_match ?t" using inline_match_token [OF assms(1)] by (simp add: has_match_def)
  then have "part_view b ?t = Some (PInline (renderRichEmojiText u) [])" for b
    using assms(2) trim_token [OF assms(1)]
    by (simp add: part_view_def isImageAssetUrl_def splitInlineEmojiToken_mb_def splitInlineEmojiToken_def isInlineEmojiAsset_mb_def)
  ultimately show ?thesis
    using assms(3-6) js_split_whole [OF inline_match_token [OF assms(1)]]
    by (simp add: MessageBubble_def media_view_def js_or_def prop_string_def List.map_filter_simps)
qed

section \<open>The items\<close>

lemma classic_items: "item \<in> set (emojis CLASSIC_CATEGORY) \<Longrightarrow> \<exists>n f. item = Classic n f \<and> slug f"
proof -
  have "list_all (\<lambda>x. case x of Classic n f \<Rightarrow> slug f | _ \<Rightarrow> False) (emojis CLASSIC_CATEGORY)"
    by (simp add: CLASSIC_CATEGORY_def slug_def js_def token_char_def)
  moreover assume "item \<in> set (emojis CLASSIC_CATEGORY)"
  ultimately show ?thesis by (cases item) (auto simp: list_all_iff)
qed

lemma spikey_items: "item \<in> set (emojis SPIKEY_CATEGORY) \<Longrightarrow>
    \<exists>n f. item = Spikey n f \<and> slug (js_lower (strip_png f)) \<and> f \<noteq> js_lower f \<and> js_lower (strip_png f) @ js ''.png'' = js_lower f"
proof -
  have "list_all (\<lambda>x. case x of Spikey n f \<Rightarrow> slug (js_lower (strip_png f)) \<and> f \<noteq> js_lower f \<and>
      js_lower (strip_png f) @ js ''.png'' = js_lower f | _ \<Rightarrow> False) (emojis SPIKEY_CATEGORY)"
    by (simp add: SPIKEY_CATEGORY_def slug_def js_def token_char_def strip_png_def js_lower_def to_ascii_lower_def Let_def)
  moreover assume "item \<in> set (emojis SPIKEY_CATEGORY)"
  ultimately show ?thesis by (cases item) (auto simp: list_all_iff)
qed

lemma other_items:
  "item \<in> set (concat (map emojis (drop 1 CATEGORIES))) \<Longrightarrow> \<exists>v. item = Unicode v"
  by (auto simp: CATEGORIES_def SMILEYS_CATEGORY_def GESTURES_CATEGORY_def HEARTS_CATEGORY_def PEOPLE_CATEGORY_def
    NATURE_CATEGORY_def FOOD_CATEGORY_def ACTIVITIES_CATEGORY_def TRAVEL_CATEGORY_def OBJECTS_CATEGORY_def
    SYMBOLS_CATEGORY_def unicode_def)

text \<open>The Spikey pack is offered to those who have it only, whatever is searched or chosen.\<close>

lemma spikey_not_free: "Spikey n f \<notin> set (concat (map emojis CATEGORIES))"
  using other_items [of "Spikey n f"] classic_items [of "Spikey n f"] by (auto simp: CATEGORIES_def)

lemma filtered_subset: "set (filtered supp p) \<subseteq> set (concat (map emojis (categories supp)))"
  by (auto simp: filtered_def Let_def intro: nth_mem)

theorem spikey_offered_when_unlocked:
  assumes "Spikey n f \<in> set (filtered supp p)"
  shows "spikeyUnlocked supp"
proof (rule ccontr)
  assume "\<not> spikeyUnlocked supp"
  then have "categories supp = CATEGORIES" by (simp add: categories_def)
  with filtered_subset [of supp p] spikey_not_free [of n f] assms show False by auto
qed

text \<open>A chosen tab shows its emoji; and when the pack is taken away while its tab is chosen, nothing is shown
  and no tab is marked.\<close>

lemma chosen_category_shown:
  "js_trim (search p) = [] \<Longrightarrow> i < length (categories supp) \<Longrightarrow>
    filtered supp (choose_category i p) = emojis (categories supp ! i)"
  by (simp add: filtered_def choose_category_def js_lower_def)

lemma stale_category_shows_nothing:
  "js_trim (search p) = [] \<Longrightarrow> \<not> spikeyUnlocked supp \<Longrightarrow>
    filtered supp (choose_category 11 p) = [] \<and> (\<forall>l v. CategoryTab l True v \<notin> set (picker_view c supp (choose_category 11 p)))"
  by (auto simp: filtered_def choose_category_def js_lower_def categories_def CATEGORIES_def picker_view_def category_tabs_def
    emoji_button_def)

lemma trim_token_space: "slug s \<Longrightarrow> js_trim (58 # s @ [58, 32]) = 58 # s @ [58]"
  by (simp add: js_trim_def js_ws_def)

lemma sent_token:
  assumes "slug s"
  shows "\<exists>m w' s'. handleSend i now conv ses (onSelect (58 # s @ [58, 32]) new_window) st = (Some (CmdSendMessage, m), w', s') \<and>
    msg_type m = TText \<and> m_body m = Val (58 # s @ [58]) \<and> mediaData m = Absent \<and> mediaUrl m = Absent"
  using trim_token_space [OF assms]
  by (simp add: handleSend_def onSelect_def new_window_def sendText_def base_message_def Let_def)

section \<open>What is picked is shown\<close>

text \<open>C40: an emoji of the picker's picture packs that is picked and sent is shown in the message as a picture, with no
  text beside it. For the classic pack it is the picture the picker offered; for the Spikey pack the
  address in the message is in lower case while the file the picker offered begins with a capital, so
  where paths are case-sensitive the picture is not found.\<close>

theorem picked_emoji_is_shown:
  assumes "item \<in> set (emojis CLASSIC_CATEGORY) \<or> item \<in> set (emojis SPIKEY_CATEGORY)"
  shows "\<exists>m w' s' url. handleSend i now conv ses (onSelect (getInsertValue item) new_window) st = (Some (CmdSendMessage, m), w', s') \<and>
    MessageBubble m isMe = Inr (TextBubble [PText [], PInline [EmojiSpan url []] [], PText []] None) \<and>
    (item \<in> set (emojis CLASSIC_CATEGORY) \<longrightarrow> url = getPreview item) \<and>
    (item \<in> set (emojis SPIKEY_CATEGORY) \<longrightarrow> url = js_lower (getPreview item) \<and> url \<noteq> getPreview item)"
proof (cases "item \<in> set (emojis CLASSIC_CATEGORY)")
  case True
  then obtain n f where f: "item = Classic n f" "slug f" using classic_items by blast
  have v: "getInsertValue item = 58 # (js ''classic-'' @ f) @ [58, 32]" by (simp add: f getInsertValue_def js_def)
  note s = slug_pack(1) [OF f(2)]
  have u: "getEmojiAssetUrlFromToken (58 # (js ''classic-'' @ f) @ [58]) = Some (getPreview item)"
    using token_url(1) [OF f(2)] unfolding pack_prefixes by (simp add: f getPreview_def)
  have "renderRichEmojiText (getPreview item) = [EmojiSpan (getPreview item) []]"
    using rich_url(1) [OF f(2)] by (simp add: f getPreview_def)
  moreover have "item \<notin> set (emojis SPIKEY_CATEGORY)" using spikey_items [of item] f(1) by blast
  ultimately show ?thesis
    using sent_token [OF s, of i now conv ses st] bubble_of_token [OF s u] unfolding v by metis
next
  case False
  then have sp: "item \<in> set (emojis SPIKEY_CATEGORY)" using assms by simp
  then obtain n f where f: "item = Spikey n f" "slug (js_lower (strip_png f))" "f \<noteq> js_lower f"
    "js_lower (strip_png f) @ js ''.png'' = js_lower f" using spikey_items by blast
  let ?g = "js_lower (strip_png f)" and ?u = "js ''/emoji-packs/spikey/'' @ js_lower f"
  have v: "getInsertValue item = 58 # (js ''spikey-'' @ ?g) @ [58, 32]" by (simp add: f getInsertValue_def js_def)
  note s = slug_pack(2) [OF f(2)]
  have u: "getEmojiAssetUrlFromToken (58 # (js ''spikey-'' @ ?g) @ [58]) = Some ?u"
    using token_url(2) [OF f(2)] f(4) unfolding pack_prefixes by simp
  have "renderRichEmojiText ?u = [EmojiSpan ?u []]" using rich_url(2) [OF f(2)] f(4) by simp
  moreover have "?u = js_lower (getPreview item)"
    by (simp add: f(1) getPreview_def js_lower_append spikey_url plain_literals)
  moreover have "?u \<noteq> getPreview item" using f(1,3) by (simp add: getPreview_def)
  ultimately show ?thesis
    using False sent_token [OF s, of i now conv ses st] bubble_of_token [OF s u] unfolding v by metis
qed

theorem picked_emoji_is_shown_witness:
  "\<forall>ses st. \<exists>m w' s'. handleSend [] [] \<lparr>conv_id = None, conv_contactId = None, conv_messages = None, isShaking = None\<rparr> ses
      (onSelect (getInsertValue (Classic (js ''Smile'') (js ''smile''))) new_window) st = (Some (CmdSendMessage, m), w', s') \<and>
    MessageBubble m True = Inr (TextBubble [PText [], PInline [EmojiSpan (MSN_EMOTICON_BASE_URL @ 47 # js ''smile'' @ js ''.png'') []] [],
      PText []] None)"
proof -
  have c: "Classic (js ''Smile'') (js ''smile'') \<in> set (emojis CLASSIC_CATEGORY)" by (simp add: CLASSIC_CATEGORY_def)
  then show ?thesis using picked_emoji_is_shown [OF disjI1 [OF c]] by (fastforce simp: getPreview_def)
qed

end
