(* ===== verification/SecurityRuns.thy ===== *)
theory SecurityRuns
  imports SecuritySettings Machines
begin

text \<open>
  The security panel over time: every control of its view, the timers of its messages, and the answers,
  which come in any order. Opening the panel asks for the two-factor status and the devices; a button that
  asks for something else waits until such a request is answered. An answer whose fields are not of their
  declared types is outside the model.
\<close>

datatype sec_request = StatusReq | DevicesReq | SetupReq | ConfirmReq | DisableReq | RegenReq | RevokeReq int | AuditReq

record security_run =
  panel :: security
  tok :: jstr
  requests :: "sec_request list"
  sec_asked :: "(sec_request \<times> http_request) list"
  given :: "(sec_request \<times> http) list"

definition status_request :: http_request where
  "status_request = \<lparr>rq_path = js ''/api/auth/recovery-codes'', rq_body = JNull\<rparr>"

definition asks :: "sec_request \<Rightarrow> http_request \<times> security \<Rightarrow> security_run \<Rightarrow> security_run" where
  "asks k q r = r\<lparr>panel := snd q, requests := requests r @ [k], sec_asked := sec_asked r @ [(k, fst q)]\<rparr>"

definition may_ask :: "sec_request \<Rightarrow> (http_request \<times> security) option \<Rightarrow> security_run \<Rightarrow> security_run" where
  "may_ask k q r = (case q of None \<Rightarrow> r | Some x \<Rightarrow> asks k x r)"

definition opened_panel :: "jstr \<Rightarrow> security_run" where
  "opened_panel t = (let r = \<lparr>panel = new_security, tok = t, requests = [], sec_asked = [], given = []\<rparr> in
     if t = [] then r else may_ask DevicesReq (loadDevices t new_security) (asks StatusReq (status_request, new_security) r))"

definition finish_request :: "sec_request \<Rightarrow> http \<Rightarrow> security \<Rightarrow> security option" where
  "finish_request k r s = (case k of StatusReq \<Rightarrow> status_answer r s | DevicesReq \<Rightarrow> devices_answer r s
     | SetupReq \<Rightarrow> setup_answer r s | ConfirmReq \<Rightarrow> confirm_answer r s | DisableReq \<Rightarrow> Some (disable_answer r s)
     | RegenReq \<Rightarrow> regenerate_answer r s | RevokeReq j \<Rightarrow> Some (revoke_answer j r s) | AuditReq \<Rightarrow> audit_answer r s)"

datatype security_event =
    PressEnable | TypeConfirm jstr | PressConfirm | PressCancel | PressSetupDone
  | TypeDisable jstr | PressDisable | TypeRegen jstr | PressRegen | PressCodesDone
  | PressLoadDevices | PressRevoke int | PressAudit | TimerFires | RequestDone nat http

definition on_panel :: "(security \<Rightarrow> security) \<Rightarrow> security_run \<Rightarrow> security_run" where
  "on_panel f r = r\<lparr>panel := f (panel r)\<rparr>"

definition request_done :: "nat \<Rightarrow> http \<Rightarrow> security_run \<Rightarrow> security_run" where
  "request_done i h r = (case finish_request (requests r ! i) h (panel r) of None \<Rightarrow> r
     | Some s \<Rightarrow> r\<lparr>panel := s, requests := take i (requests r) @ drop (Suc i) (requests r), given := given r @ [(requests r ! i, h)]\<rparr>)"

fun security_handle :: "security_event \<Rightarrow> security_run \<Rightarrow> security_run" where
  "security_handle PressEnable r = asks SetupReq (startSetup (panel r)) r"
| "security_handle (TypeConfirm t) r = on_panel (type_confirm_code t) r"
| "security_handle PressConfirm r = asks ConfirmReq (confirmSetup (panel r)) r"
| "security_handle PressCancel r = on_panel cancel_setup r"
| "security_handle PressSetupDone r = on_panel setup_done r"
| "security_handle (TypeDisable t) r = on_panel (type_disable_code t) r"
| "security_handle PressDisable r = may_ask DisableReq (disableTotp (panel r)) r"
| "security_handle (TypeRegen t) r = on_panel (type_regen_code t) r"
| "security_handle PressRegen r = may_ask RegenReq (regenerateCodes (panel r)) r"
| "security_handle PressCodesDone r = on_panel codes_done r"
| "security_handle PressLoadDevices r = may_ask DevicesReq (loadDevices (tok r) (panel r)) r"
| "security_handle (PressRevoke k) r = asks (RevokeReq k) (revokeDevice k (panel r)) r"
| "security_handle PressAudit r = asks AuditReq (loadAuditLog (panel r)) r"
| "security_handle TimerFires r = on_panel clear_timer_fires r"
| "security_handle (RequestDone i h) r = request_done i h r"

text \<open>A control can be used while the view has it, a button while it is not disabled.\<close>

definition has_control :: "(security_control \<Rightarrow> bool) \<Rightarrow> security_run \<Rightarrow> bool" where
  "has_control p r \<longleftrightarrow> list_ex p (security_view (panel r))"

definition revokes :: "int \<Rightarrow> security_control \<Rightarrow> bool" where
  "revokes k c \<longleftrightarrow> (case c of DeviceRow n cur j free \<Rightarrow> j = k \<and> free | _ \<Rightarrow> False)"

fun security_enabled :: "security_run \<Rightarrow> security_event \<Rightarrow> bool" where
  "security_enabled r PressEnable \<longleftrightarrow> has_control (\<lambda>c. c = EnableButton True) r"
| "security_enabled r (TypeConfirm t) \<longleftrightarrow> has_control (\<lambda>c. c = ConfirmField (confirmCode (panel r))) r \<and> length t \<le> 6"
| "security_enabled r PressConfirm \<longleftrightarrow> has_control (\<lambda>c. c = ConfirmButton True) r"
| "security_enabled r PressCancel \<longleftrightarrow> has_control (\<lambda>c. c = CancelButton True) r"
| "security_enabled r PressSetupDone \<longleftrightarrow> has_control (\<lambda>c. c = SetupDone) r"
| "security_enabled r (TypeDisable t) \<longleftrightarrow> has_control (\<lambda>c. c = DisableField (disableCode (panel r))) r \<and> length t \<le> 36"
| "security_enabled r PressDisable \<longleftrightarrow> has_control (\<lambda>c. c = DisableButton True) r"
| "security_enabled r (TypeRegen t) \<longleftrightarrow> has_control (\<lambda>c. c = RegenField (regenCode (panel r))) r \<and> length t \<le> 36"
| "security_enabled r PressRegen \<longleftrightarrow> has_control (\<lambda>c. c = RegenButton True) r"
| "security_enabled r PressCodesDone \<longleftrightarrow> has_control (\<lambda>c. c = CodesDone) r"
| "security_enabled r PressLoadDevices \<longleftrightarrow> has_control (\<lambda>c. c = RetryButton True \<or> c = RefreshButton True) r"
| "security_enabled r (PressRevoke k) \<longleftrightarrow> has_control (revokes k) r"
| "security_enabled r PressAudit \<longleftrightarrow> has_control (\<lambda>c. c = AuditButton True) r"
| "security_enabled r TimerFires \<longleftrightarrow> 0 < clear_timers (panel r)"
| "security_enabled r (RequestDone i h) \<longleftrightarrow> i < length (requests r) \<and> finish_request (requests r ! i) h (panel r) \<noteq> None"

abbreviation security_runs :: "security_run \<Rightarrow> security_event list \<Rightarrow> security_run \<Rightarrow> bool" where
  "security_runs \<equiv> runs security_enabled security_handle"

section \<open>What a run keeps\<close>

text \<open>The requests the loading flag stands for.\<close>

fun guarded_req :: "sec_request \<Rightarrow> bool" where
  "guarded_req StatusReq = False"
| "guarded_req DevicesReq = False"
| "guarded_req _ = True"

text \<open>A code that was sent: six digits to confirm, at least six characters without white space otherwise.\<close>

definition code_sent_ok :: "sec_request \<times> http_request \<Rightarrow> bool" where
  "code_sent_ok a \<longleftrightarrow> (case fst a of
     ConfirmReq \<Rightarrow> (\<exists>c. rq_body (snd a) = code_body c \<and> length c = 6 \<and> list_all is_digit c)
   | DisableReq \<Rightarrow> (\<exists>c. rq_body (snd a) = code_body c \<and> 6 \<le> length c \<and> \<not> list_ex js_ws c)
   | RegenReq \<Rightarrow> (\<exists>c. rq_body (snd a) = code_body c \<and> 6 \<le> length c \<and> \<not> list_ex js_ws c)
   | _ \<Rightarrow> True)"

definition codes_given :: "(sec_request \<times> http) list \<Rightarrow> jstr list \<Rightarrow> bool" where
  "codes_given g cs \<longleftrightarrow> cs = [] \<or> (\<exists>k d. (k, Response True (Inr d)) \<in> set g \<and> (k = ConfirmReq \<or> k = RegenReq) \<and>
     strings_of (json_get d (js ''backup_codes'')) = Some cs)"

definition fields_ok :: "security \<Rightarrow> bool" where
  "fields_ok s \<longleftrightarrow> list_all is_digit (confirmCode s) \<and> \<not> list_ex js_ws (disableCode s) \<and> \<not> list_ex js_ws (regenCode s)"

definition security_inv :: "security_run \<Rightarrow> bool" where
  "security_inv r \<longleftrightarrow> length (filter guarded_req (requests r)) \<le> 1 \<and>
     (sec_loading (panel r) \<longleftrightarrow> filter guarded_req (requests r) \<noteq> []) \<and>
     list_all code_sent_ok (sec_asked r) \<and> fields_ok (panel r) \<and> codes_given (given r) (backupCodes (panel r))"

lemma list_ex_filter_not: "\<not> list_ex P (filter (\<lambda>x. \<not> P x) xs)" "list_all P (filter P xs)"
  by (induction xs) auto

lemma finish_effect:
  assumes "finish_request k h s = Some s'" and "fields_ok s"
  shows "sec_loading s' = (\<not> guarded_req k \<and> sec_loading s)" "fields_ok s'"
    "backupCodes s' = backupCodes s \<or> (\<exists>d. h = Response True (Inr d) \<and> (k = ConfirmReq \<or> k = RegenReq) \<and>
       strings_of (json_get d (js ''backup_codes'')) = Some (backupCodes s'))"
  using assms
  by (cases k; auto simp: finish_request_def status_answer_def devices_answer_def security_answers fields_ok_def
    split: http.splits bool.splits sum.splits option.splits if_splits json.splits)+

lemma codes_given_more: "codes_given g cs \<Longrightarrow> codes_given (g @ xs) cs"
  by (auto simp: codes_given_def)

lemma codes_given_nil: "codes_given g []"
  by (simp add: codes_given_def)

lemma inv_on_panel:
  "security_inv r \<Longrightarrow> sec_loading (f (panel r)) = sec_loading (panel r) \<Longrightarrow> fields_ok (f (panel r)) \<Longrightarrow>
    backupCodes (f (panel r)) = backupCodes (panel r) \<or> backupCodes (f (panel r)) = [] \<Longrightarrow> security_inv (on_panel f r)"
  by (cases "backupCodes (f (panel r)) = []") (auto simp: security_inv_def on_panel_def codes_given_nil)

lemma inv_asks:
  "security_inv r \<Longrightarrow> \<not> sec_loading (panel r) \<Longrightarrow> guarded_req k \<Longrightarrow> snd q = started (panel r) \<Longrightarrow> code_sent_ok (k, fst q) \<Longrightarrow>
    security_inv (asks k q r)"
  by (auto simp: security_inv_def asks_def started_def fields_ok_def)

lemma filter_drop_one:
  "i < length xs \<Longrightarrow> filter P (take i xs @ drop (Suc i) xs) =
    (if P (xs ! i) then filter P (take i xs) @ filter P (drop (Suc i) xs) else filter P xs)"
  using id_take_nth_drop [of i xs] by (metis filter.simps(2) filter_append)

lemma filter_split_one:
  "i < length xs \<Longrightarrow> P (xs ! i) \<Longrightarrow> filter P xs = filter P (take i xs) @ xs ! i # filter P (drop (Suc i) xs)"
  using id_take_nth_drop [of i xs] by (metis filter.simps(2) filter_append)

lemma inv_request_done:
  assumes I: "security_inv r" and e: "security_enabled r (RequestDone i h)"
  shows "security_inv (request_done i h r)"
proof -
  let ?k = "requests r ! i"
  obtain s where s: "finish_request ?k h (panel r) = Some s" using e by auto
  have "fields_ok (panel r)" using I by (simp add: security_inv_def)
  note eff = finish_effect [OF s this]
  let ?rest = "take i (requests r) @ drop (Suc i) (requests r)"
  have len: "i < length (requests r)" using e by simp
  have rest: "filter guarded_req ?rest = (if guarded_req ?k then [] else filter guarded_req (requests r))"
    using I filter_split_one [OF len, of guarded_req] filter_drop_one [OF len, of guarded_req] by (auto simp: security_inv_def)
  have "codes_given (given r @ [(?k, h)]) (backupCodes s)"
    using eff(3)
  proof
    assume "backupCodes s = backupCodes (panel r)"
    then show ?thesis using I codes_given_more by (simp add: security_inv_def)
  qed (auto simp: codes_given_def)
  then show ?thesis using I eff(1,2) rest by (auto simp: security_inv_def request_done_def s)
qed

text \<open>What a control that is there says of the panel.\<close>

lemma in_flashed: "c \<in> set (flashed s) \<longleftrightarrow> c = Shown (msg s) \<and> msg s \<noteq> [] \<or> c = ShownError (err s) \<and> err s \<noteq> []"
  by (auto simp: flashed_def)

lemmas view_defs = has_control_def security_view_def in_flashed setup_controls_def code_controls_def device_controls_def audit_controls_def

lemma enabled_buttons:
  "security_enabled r PressEnable \<Longrightarrow> \<not> sec_loading (panel r)"
  "security_enabled r PressConfirm \<Longrightarrow> \<not> sec_loading (panel r) \<and> length (confirmCode (panel r)) = 6"
  "security_enabled r PressDisable \<Longrightarrow> \<not> sec_loading (panel r) \<and> 6 \<le> length (js_trim (disableCode (panel r)))"
  "security_enabled r PressRegen \<Longrightarrow> \<not> sec_loading (panel r) \<and> 6 \<le> length (js_trim (regenCode (panel r)))"
  "security_enabled r (PressRevoke k) \<Longrightarrow> \<not> sec_loading (panel r)"
  "security_enabled r PressAudit \<Longrightarrow> \<not> sec_loading (panel r)"
  by (auto simp: view_defs list_ex_iff revokes_def audit_row_def Let_def split: if_splits)

lemma trim_no_ws: "\<not> list_ex js_ws s \<Longrightarrow> js_trim s = s"
  by (rule trim_plain) (simp add: list_ex_iff)

lemma inv_press:
  assumes I: "security_inv r"
  shows "security_enabled r PressEnable \<Longrightarrow> security_inv (security_handle PressEnable r)"
    "security_enabled r PressConfirm \<Longrightarrow> security_inv (security_handle PressConfirm r)"
    "security_enabled r PressDisable \<Longrightarrow> security_inv (security_handle PressDisable r)"
    "security_enabled r PressRegen \<Longrightarrow> security_inv (security_handle PressRegen r)"
    "security_enabled r (PressRevoke k) \<Longrightarrow> security_inv (security_handle (PressRevoke k) r)"
    "security_enabled r PressAudit \<Longrightarrow> security_inv (security_handle PressAudit r)"
proof -
  have f: "fields_ok (panel r)" using I by (simp add: security_inv_def)
  note press = inv_asks [OF I] and parts = startSetup_def confirmSetup_def disableTotp_def regenerateCodes_def
    revokeDevice_def loadAuditLog_def code_sent_ok_def may_ask_def
  show "security_enabled r PressEnable \<Longrightarrow> security_inv (security_handle PressEnable r)"
    using enabled_buttons(1) [of r] by (auto intro!: press simp: parts)
  show "security_enabled r PressConfirm \<Longrightarrow> security_inv (security_handle PressConfirm r)"
    using enabled_buttons(2) [of r] f by (auto intro!: press simp: parts fields_ok_def)
  show "security_enabled r PressDisable \<Longrightarrow> security_inv (security_handle PressDisable r)"
    using enabled_buttons(3) [of r] f trim_no_ws [of "disableCode (panel r)"] by (auto intro!: press simp: parts fields_ok_def)
  show "security_enabled r PressRegen \<Longrightarrow> security_inv (security_handle PressRegen r)"
    using enabled_buttons(4) [of r] f trim_no_ws [of "regenCode (panel r)"] by (auto intro!: press simp: parts fields_ok_def)
  show "security_enabled r (PressRevoke k) \<Longrightarrow> security_inv (security_handle (PressRevoke k) r)"
    using enabled_buttons(5) [of r] by (auto intro!: press simp: parts)
  show "security_enabled r PressAudit \<Longrightarrow> security_inv (security_handle PressAudit r)"
    using enabled_buttons(6) [of r] by (auto intro!: press simp: parts)
qed

lemma security_inv_handle:
  assumes I: "security_inv r" and e: "security_enabled r e"
  shows "security_inv (security_handle e r)"
proof -
  have f: "fields_ok (panel r)" using I by (simp add: security_inv_def)
  note updates = type_confirm_code_def type_disable_code_def type_regen_code_def cancel_setup_def setup_done_def
    codes_done_def clear_timer_fires_def
  show ?thesis
  proof (cases e)
    case PressLoadDevices
    then show ?thesis using I by (auto simp: may_ask_def asks_def loadDevices_def security_inv_def code_sent_ok_def fields_ok_def)
  next
    case (RequestDone i h)
    then show ?thesis using inv_request_done [OF I, of i h] e by simp
  qed (use inv_press [OF I] e f in \<open>auto intro!: inv_on_panel [OF I] simp: updates fields_ok_def list_ex_filter_not simp del: security_handle.simps(1,3,7,9,12,13) security_enabled.simps\<close>)
qed

interpretation security_machine: machine_invariant security_enabled security_handle security_inv
  by unfold_locales (rule security_inv_handle)

lemma security_inv_opened: "security_inv (opened_panel t)"
  by (simp add: security_inv_def opened_panel_def may_ask_def asks_def loadDevices_def new_security_def code_sent_ok_def
    fields_ok_def codes_given_def Let_def)

lemmas security_run_inv = security_machine.run_keeps [OF _ security_inv_opened]

end

