(* ===== verification/SecurityProperties.thy ===== *)
theory SecurityProperties
  imports SecurityRuns
begin

text \<open>Properties of the security panel over all its runs.\<close>

section \<open>Requests and backup codes\<close>

text \<open>C39: over all runs of the security panel, whatever the order of clicks, typing, timers and answers: at
  most one of the requests that change anything is on its way, and the panel shows that it is loading exactly
  then; a code sent to confirm has six digits and every other code sent at least six characters and no white
  space; and backup codes are shown only as an accepted confirmation or regeneration gave them.\<close>

theorem security_panel_runs:
  assumes "security_runs (opened_panel t) es r"
  shows "length (filter guarded_req (requests r)) \<le> 1 \<and>
    (sec_loading (panel r) \<longleftrightarrow> filter guarded_req (requests r) \<noteq> []) \<and>
    list_all code_sent_ok (sec_asked r) \<and> codes_given (given r) (backupCodes (panel r))"
  using security_run_inv [OF assms] by (simp add: security_inv_def)

section \<open>The two buttons Done\<close>

text \<open>After Done of the lower card the panel is in a step that no card is shown in, and stays there.\<close>

definition two_factor_control :: "security_control \<Rightarrow> bool" where
  "two_factor_control c \<longleftrightarrow> (case c of EnableButton b \<Rightarrow> True | ConfirmButton b \<Rightarrow> True | SetupDone \<Rightarrow> True
     | DisableField t \<Rightarrow> True | DisableButton b \<Rightarrow> True | _ \<Rightarrow> False)"

fun sets_step :: "sec_request \<Rightarrow> bool" where
  "sets_step SetupReq = True"
| "sets_step ConfirmReq = True"
| "sets_step RegenReq = True"
| "sets_step _ = False"

definition lost_step :: "security_run \<Rightarrow> bool" where
  "lost_step r \<longleftrightarrow> setupStep (panel r) = Done \<and> backupCodes (panel r) = [] \<and> \<not> list_ex sets_step (requests r)"

lemma finish_lost:
  assumes "finish_request k h s = Some s'" and "\<not> sets_step k"
  shows "setupStep s' = setupStep s" "backupCodes s' = backupCodes s"
  using assms
  by (cases k; auto simp: finish_request_def status_answer_def devices_answer_def security_answers
    split: http.splits bool.splits sum.splits option.splits if_splits json.splits)+

lemma lost_view: "lost_step r \<Longrightarrow> \<not> list_ex two_factor_control (security_view (panel r))"
  by (auto simp: lost_step_def view_defs list_ex_iff two_factor_control_def audit_row_def Let_def split: if_splits)

lemma lost_disabled:
  "lost_step r \<Longrightarrow> \<not> security_enabled r PressEnable \<and> \<not> security_enabled r PressConfirm \<and>
    \<not> security_enabled r PressCancel \<and> \<not> security_enabled r PressSetupDone"
  by (auto simp: lost_step_def view_defs list_ex_iff audit_row_def Let_def split: if_splits)

lemma list_ex_drop_one: "\<not> list_ex P xs \<Longrightarrow> \<not> list_ex P (take i xs @ drop (Suc i) xs)"
  by (auto simp: list_ex_iff dest: in_set_takeD in_set_dropD)

lemma lost_handle:
  assumes l: "lost_step r" and e: "security_enabled r e \<and> e \<noteq> PressRegen"
  shows "lost_step (security_handle e r)"
proof (cases e)
  case (RequestDone i h)
  with e obtain s where s: "finish_request (requests r ! i) h (panel r) = Some s" and i: "i < length (requests r)" by auto
  with l have "\<not> sets_step (requests r ! i)" by (auto simp: lost_step_def list_ex_iff)
  from finish_lost [OF s this] show ?thesis using l s list_ex_drop_one [of sets_step "requests r" i]
    by (simp add: RequestDone request_done_def lost_step_def)
qed (use l e lost_disabled [OF l] in \<open>auto simp: lost_step_def asks_def may_ask_def on_panel_def
    disableTotp_def revokeDevice_def loadAuditLog_def loadDevices_def started_def type_confirm_code_def type_disable_code_def
    type_regen_code_def codes_done_def clear_timer_fires_def simp del: security_enabled.simps split: option.splits\<close>)

interpretation lost_machine:
  machine_invariant "\<lambda>r e. security_enabled r e \<and> e \<noteq> PressRegen" security_handle lost_step
  by unfold_locales (rule lost_handle)

text \<open>The lower button Done takes the two-factor controls away. When the confirmation has shown the backup
  codes and nothing is loading, both cards have a button Done; after the lower one, the panel shows no control
  to enable, confirm or disable two-factor authentication, whatever happens next, until new backup codes are
  asked for.\<close>

theorem lower_done_hides_two_factor:
  assumes "security_runs (opened_panel t) es r" and "setupStep (panel r) = Done" and "backupCodes (panel r) \<noteq> []"
    and "totpEnabled (panel r)" and "\<not> sec_loading (panel r)"
    and "security_runs (security_handle PressCodesDone r) es' r'" and "PressRegen \<notin> set es'"
  shows "security_enabled r PressSetupDone \<and> security_enabled r PressCodesDone \<and>
    \<not> list_ex two_factor_control (security_view (panel r'))"
proof -
  have "\<not> list_ex sets_step (requests r)"
    using security_run_inv [OF assms(1)] assms(5) by (auto simp: security_inv_def list_ex_iff filter_empty_conv elim!: sets_step.elims)
  then have "lost_step (security_handle PressCodesDone r)"
    using assms(2) by (simp add: lost_step_def on_panel_def codes_done_def)
  moreover have "runs (\<lambda>r e. security_enabled r e \<and> e \<noteq> PressRegen) security_handle (security_handle PressCodesDone r) es' r'"
    using assms(7) by (intro runs_restrict [OF assms(6)]) auto
  ultimately have "lost_step r'" by (rule lost_machine.run_keeps [rotated])
  then show ?thesis using lost_view assms(2-4) by (auto simp: view_defs)
qed

section \<open>A refused status\<close>

text \<open>The status of an account with two factors that the server refuses to give, for instance because the session
  has ended, reads as two factors disabled: the panel offers to enable them.\<close>

lemma refused_status_reads_disabled:
  assumes "json_get d (js ''totp_enabled'') = None" and "json_get d (js ''recovery_codes_remaining'') = None"
    and "t \<noteq> []" and "d \<noteq> JNull"
  shows "\<exists>r. security_runs (opened_panel t) [RequestDone 0 (Response False (Inr d))] r \<and>
    EnableButton True \<in> set (security_view (panel r)) \<and> recoveryRemaining (panel r) = Undef"
  using assms
  by (simp add: runs_execute opened_panel_def may_ask_def asks_def loadDevices_def finish_request_def status_answer_def
    status_fields_def new_security_def request_done_def security_view_def setup_controls_def)

section \<open>Witnesses\<close>

definition demo_enabling :: "security_event list" where
  "demo_enabling = [RequestDone 0 (Response True (Inr (JObj [(js ''totp_enabled'', JBool False), (js ''recovery_codes_remaining'', JInt 0)]))),
     RequestDone 0 NetworkError, PressEnable,
     RequestDone 0 (Response True (Inr (JObj [(js ''secret'', JStr (js ''K'')), (js ''uri'', JStr (js ''otpauth''))]))),
     TypeConfirm (js ''123456''), PressConfirm,
     RequestDone 0 (Response True (Inr (JObj [(js ''backup_codes'', JArr [JStr (js ''c1''), JStr (js ''c2'')])])))]"

lemma demo_enabling_run:
  "\<exists>r. security_runs (opened_panel (js ''t'')) demo_enabling r \<and> setupStep (panel r) = Done \<and>
    backupCodes (panel r) = [js ''c1'', js ''c2''] \<and> totpEnabled (panel r) \<and> \<not> sec_loading (panel r)"
proof -
  have "map_option (\<lambda>r. (setupStep (panel r), backupCodes (panel r), totpEnabled (panel r), sec_loading (panel r)))
      (execute security_enabled security_handle demo_enabling (opened_panel (js ''t''))) =
    Some (Done, [js ''c1'', js ''c2''], True, False)"
    by code_simp
  then show ?thesis by (auto simp: runs_execute)
qed

theorem security_panel_runs_witness:
  "\<exists>r. security_runs (opened_panel (js ''t'')) demo_enabling r \<and> backupCodes (panel r) = [js ''c1'', js ''c2''] \<and>
    codes_given (given r) [js ''c1'', js ''c2''] \<and> list_all code_sent_ok (sec_asked r)"
  using demo_enabling_run security_panel_runs by metis

theorem lower_done_hides_two_factor_witness:
  "\<exists>r. security_runs (opened_panel (js ''t'')) demo_enabling r \<and> security_enabled r PressCodesDone \<and>
    totpEnabled (panel r) \<and> \<not> list_ex two_factor_control (security_view (panel (security_handle PressCodesDone r)))"
proof -
  obtain r where r: "security_runs (opened_panel (js ''t'')) demo_enabling r" "setupStep (panel r) = Done"
      "backupCodes (panel r) \<noteq> []" "totpEnabled (panel r)" "\<not> sec_loading (panel r)"
    using demo_enabling_run by auto
  from lower_done_hides_two_factor [OF r, of "[]" "security_handle PressCodesDone r"] show ?thesis
    using r by (auto simp: runs_Nil)
qed

end
