(* ===== verification/Relay.thy ===== *)
theory Relay
  imports ChatWindow UseSocket UiKit
begin

text \<open>
  A message on its way: the object the chat store hands to the socket as JSON, what the server makes of it
  for the recipient and for the sender (server/src/router.rs, the relay of send_message between users who
  may write to each other), and the message the other side's hook reads. Every part of the web client on
  that way is the model's own.
\<close>

section \<open>The command as JSON\<close>

definition message_type_name :: "MessageType \<Rightarrow> jstr" where
  "message_type_name t = (case t of TText \<Rightarrow> js ''text'' | TWinkd \<Rightarrow> js ''winkd'' | TNudge \<Rightarrow> js ''nudge''
     | TWink \<Rightarrow> js ''wink'' | TEmoticon \<Rightarrow> js ''emoticon'' | TSystem \<Rightarrow> js ''system'' | OtherType s \<Rightarrow> s)"

text \<open>JSON.stringify leaves out a property that is not there or undefined.\<close>

definition prop_field :: "string \<Rightarrow> ('a \<Rightarrow> json) \<Rightarrow> 'a js_prop \<Rightarrow> (jstr \<times> json) list" where
  "prop_field k f p = (case p of Val x \<Rightarrow> [(js k, f x)] | _ \<Rightarrow> [])"

definition message_json :: "Message \<Rightarrow> json" where
  "message_json m = JObj ([(js ''id'', JStr (msg_id m)), (js ''conversationId'', JStr (conversationId m)),
       (js ''senderId'', JStr (senderId m)), (js ''type'', JStr (message_type_name (msg_type m)))]
     @ prop_field ''body'' JStr (m_body m) @ prop_field ''mediaData'' JStr (mediaData m)
     @ prop_field ''mediaName'' JStr (mediaName m) @ prop_field ''mediaMime'' JStr (mediaMime m)
     @ prop_field ''mediaSize'' (\<lambda>v. v) (mediaSize m)
     @ [(js ''sentAt'', JStr (sentAt m)), (js ''delivered'', JBool (delivered m)), (js ''read'', JBool (msg_read m))])"

definition command_json :: "command \<Rightarrow> json" where
  "command_json c = JObj [(js ''command'', JStr (command_name (fst c))), (js ''payload'', message_json (snd c))]"

section \<open>The server's relay\<close>

definition json_with :: "string \<Rightarrow> json \<Rightarrow> json \<Rightarrow> json" where
  "json_with k v j = (case j of JObj fs \<Rightarrow> JObj (obj_set (js k) v fs) | _ \<Rightarrow> j)"

definition relay_forwarded :: "jstr \<Rightarrow> json \<Rightarrow> json" where
  "relay_forwarded user payload = json_with ''delivered'' (JBool True) (json_with ''senderId'' (JStr user)
     (json_with ''conversationId'' (JStr user) payload))"

definition relay_echo :: "jstr \<Rightarrow> jstr \<Rightarrow> bool \<Rightarrow> json \<Rightarrow> json" where
  "relay_echo user recipient live payload = json_with ''delivered'' (JBool live) (json_with ''senderId'' (JStr user)
     (json_with ''conversationId'' (JStr recipient) payload))"

text \<open>The recipient is a string under the first of these names that is there; a payload without one is dropped.\<close>

fun first_present :: "json \<Rightarrow> string list \<Rightarrow> json option" where
  "first_present p [] = None"
| "first_present p (k # ks) = (case json_get p (js k) of None \<Rightarrow> first_present p ks | Some v \<Rightarrow> Some v)"

definition relay_recipient :: "json \<Rightarrow> jstr option" where
  "relay_recipient p = string_of (first_present p
     [''conversationId'', ''conversation_id'', ''recipient_winkd_id'', ''recipientId'', ''recipient_id''])"

definition relay_event :: "json \<Rightarrow> json" where
  "relay_event p = JObj [(js ''event'', JStr (js ''message'')), (js ''payload'', p)]"

text \<open>A frame of \<open>user\<close> gives the recipient, the frame for the recipient and the frame for \<open>user\<close>.\<close>

definition server_relay :: "jstr \<Rightarrow> bool \<Rightarrow> jstr \<Rightarrow> (jstr \<times> jstr \<times> jstr) option" where
  "server_relay user live frame = (case json_parse frame of Inl _ \<Rightarrow> None
   | Inr c \<Rightarrow> (case json_get c (js ''payload'') of None \<Rightarrow> None
     | Some p \<Rightarrow> map_option (\<lambda>r. (r, json_stringify (relay_event (relay_forwarded user p)),
         json_stringify (relay_event (relay_echo user r live p)))) (relay_recipient p)))"

section \<open>What the other side reads\<close>

text \<open>The messages the chat store makes: a declared type, a size that is a whole number, no other property.\<close>

definition own_made :: "Message \<Rightarrow> bool" where
  "own_made m \<longleftrightarrow> msg_id m \<noteq> [] \<and> msg_type m \<in> {TText, TWinkd, TNudge} \<and> mediaUrl m = Absent \<and>
     packId m = Absent \<and> animationId m = Absent \<and> (\<forall>v. mediaSize m = Val v \<longrightarrow> (\<exists>n. v = JInt n))"

text \<open>A property read from JSON is there, if with the value undefined.\<close>

definition read_prop :: "'a js_prop \<Rightarrow> 'a js_prop" where
  "read_prop p = (case p of Val x \<Rightarrow> Val x | _ \<Rightarrow> Undef)"

definition message_read_as :: "Message \<Rightarrow> jstr \<Rightarrow> jstr \<Rightarrow> bool \<Rightarrow> Message" where
  "message_read_as m cid sender del = m\<lparr>conversationId := cid, senderId := sender, delivered := del,
     m_body := read_prop (m_body m), mediaData := read_prop (mediaData m), mediaUrl := Undef,
     mediaName := read_prop (mediaName m), mediaMime := read_prop (mediaMime m), mediaSize := read_prop (mediaSize m)\<rparr>"

lemma type_name_read: "t \<in> {TText, TWinkd, TNudge} \<Longrightarrow> type_of_message (message_type_name t) = t"
  by (auto simp: type_of_message_def message_type_name_def)

definition prop_val :: "'a js_prop \<Rightarrow> 'a option" where
  "prop_val p = (case p of Val x \<Rightarrow> Some x | _ \<Rightarrow> None)"

lemma map_of_prop_field: "map_of (prop_field k f p) x = (if x = js k then map_option f (prop_val p) else None)"
  by (simp add: prop_field_def prop_val_def split: js_prop.split)

lemma keys_prop_field: "fst ` set (prop_field k f p) = (if prop_val p = None then {} else {js k})"
  by (simp add: prop_field_def prop_val_def split: js_prop.split)

lemma distinct_prop_field: "distinct (map fst (prop_field k f p))"
  by (simp add: prop_field_def split: js_prop.split)

definition message_fields :: "Message \<Rightarrow> (jstr \<times> json) list" where
  "message_fields m = (case message_json m of JObj fs \<Rightarrow> fs | _ \<Rightarrow> [])"

lemma message_json_fields: "message_json m = JObj (message_fields m)"
  by (simp add: message_fields_def message_json_def)

lemma distinct_message_fields: "distinct (map fst (message_fields m))"
  by (simp add: message_fields_def message_json_def distinct_prop_field keys_prop_field)

lemma message_field:
  "map_of (message_fields m) (js k) = (
     if k = ''id'' then Some (JStr (msg_id m)) else if k = ''type'' then Some (JStr (message_type_name (msg_type m)))
     else if k = ''conversationId'' then Some (JStr (conversationId m)) else if k = ''senderId'' then Some (JStr (senderId m))
     else if k = ''sentAt'' then Some (JStr (sentAt m)) else if k = ''read'' then Some (JBool (msg_read m))
     else if k = ''delivered'' then Some (JBool (delivered m))
     else if k = ''body'' then map_option JStr (prop_val (m_body m))
     else if k = ''mediaData'' then map_option JStr (prop_val (mediaData m))
     else if k = ''mediaName'' then map_option JStr (prop_val (mediaName m))
     else if k = ''mediaMime'' then map_option JStr (prop_val (mediaMime m))
     else if k = ''mediaSize'' then prop_val (mediaSize m) else None)"
  by (simp add: message_fields_def message_json_def map_add_def map_of_prop_field option.map_id0 id_def split: option.split)

lemma json_with_fields:
  "distinct (map fst fs) \<Longrightarrow> \<exists>gs. json_with k v (JObj fs) = JObj gs \<and> distinct (map fst gs) \<and>
    map_of gs = (map_of fs)(js k \<mapsto> v)"
  by (simp add: json_with_def distinct_obj map_of_obj_set fun_eq_iff)

lemma echo_fields: "\<exists>gs. relay_echo user recipient live (message_json m) = JObj gs \<and> distinct (map fst gs) \<and>
    map_of gs = (map_of (message_fields m))(js ''conversationId'' \<mapsto> JStr recipient, js ''senderId'' \<mapsto> JStr user,
      js ''delivered'' \<mapsto> JBool live)"
  using json_with_fields distinct_message_fields unfolding relay_echo_def message_json_fields by metis

lemma get_distinct:
  assumes "distinct (map fst fs)"
  shows "json_get (JObj fs) k = map_of fs k"
proof -
  have "map_of (rev fs) k = Some v \<longleftrightarrow> map_of fs k = Some v" for v
    using assms by (simp add: map_of_eq_Some_iff flip: rev_map)
  then show ?thesis unfolding json_get_def by (simp add: option.expand) (metis option.exhaust)
qed

lemma read_prop_val: "read_prop p = (case prop_val p of Some x \<Rightarrow> Val x | None \<Rightarrow> Undef)"
  by (simp add: read_prop_def prop_val_def split: js_prop.split)

theorem relayed_message:
  assumes "own_made m" and "recipient \<noteq> []" and "user \<noteq> []"
  shows "message_of (relay_echo user recipient live (message_json m)) now = message_read_as m recipient user live"
proof -
  obtain gs where gs: "relay_echo user recipient live (message_json m) = JObj gs" "distinct (map fst gs)"
      "map_of gs = (map_of (message_fields m))(js ''conversationId'' \<mapsto> JStr recipient, js ''senderId'' \<mapsto> JStr user,
        js ''delivered'' \<mapsto> JBool live)"
    using echo_fields by blast
  note get = get_distinct [OF gs(2)] gs(3) message_field
  have texts: "text_field (JObj gs) ''id'' ''id'' d = msg_id m" "text_field (JObj gs) ''conversationId'' ''conversation_id'' d = recipient"
      "text_field (JObj gs) ''senderId'' ''sender_id'' d = user" "text_field (JObj gs) ''sentAt'' ''sent_at'' d = sentAt m"
      "text_field (JObj gs) ''type'' ''type'' d = message_type_name (msg_type m)" for d
    by (simp_all add: text_field_def coalesce_def nullish_def get)
  have bools: "js_Boolean (json_get (JObj gs) (js ''delivered'')) = live" "js_Boolean (json_get (JObj gs) (js ''read'')) = msg_read m"
    by (simp_all add: get js_Boolean_def)
  have strings: "either_name string_of (JObj gs) ''body'' ''body'' = read_prop (m_body m)"
      "either_name string_of (JObj gs) ''mediaData'' ''media_data'' = read_prop (mediaData m)"
      "either_name string_of (JObj gs) ''mediaUrl'' ''media_url'' = Undef"
      "either_name string_of (JObj gs) ''mediaName'' ''media_name'' = read_prop (mediaName m)"
      "either_name string_of (JObj gs) ''mediaMime'' ''media_mime'' = read_prop (mediaMime m)"
    by (simp_all add: either_name_def get string_of_def read_prop_val split: option.split)
  have size: "either_name number_of (JObj gs) ''mediaSize'' ''media_size'' = read_prop (mediaSize m)"
    using assms(1) by (auto simp: either_name_def get number_of_def read_prop_def prop_val_def own_made_def split: js_prop.split)
  have "type_of_message (message_type_name (msg_type m)) = msg_type m" using assms(1) by (simp add: own_made_def type_name_read)
  then show ?thesis using assms(1)
    by (simp add: gs(1) message_of_def texts bools strings size message_read_as_def own_made_def)
qed

lemma forwarded_echo: "relay_forwarded user p = relay_echo user user True p"
  by (simp add: relay_forwarded_def relay_echo_def)

section \<open>The frames parse\<close>

lemma json_wf_with: "json_wf (JObj fs) \<Longrightarrow> json_wf v \<Longrightarrow> json_wf (json_with k v (JObj fs))"
  by (auto simp: json_with_def obj_set_def)

lemma json_with_obj: "\<exists>gs. json_with k v (JObj fs) = JObj gs"
  by (simp add: json_with_def)

lemma message_json_wf:
  assumes "own_made m"
  shows "json_wf (message_json m)"
proof -
  have "json_wf v" if "mediaSize m = Val v" for v using assms that by (auto simp: own_made_def)
  then show ?thesis by (auto simp: message_json_def prop_field_def split: js_prop.splits)
qed

lemma json_wf_with_obj: "json_wf (JObj fs) \<Longrightarrow> json_wf v \<Longrightarrow> \<exists>gs. json_with k v (JObj fs) = JObj gs \<and> json_wf (JObj gs)"
  using json_wf_with [of fs v k] json_with_obj [of k v fs] by metis

lemma echo_wf:
  assumes "own_made m"
  shows "json_wf (relay_echo user recipient live (message_json m))"
proof -
  have "json_wf (JObj (message_fields m))" using message_json_wf [OF assms] unfolding message_json_fields .
  from json_wf_with_obj [OF this] obtain fs where
    fs: "json_with ''conversationId'' (JStr recipient) (message_json m) = JObj fs" "json_wf (JObj fs)"
    unfolding message_json_fields by (metis json_wf.simps)
  from json_wf_with_obj [OF fs(2)] obtain gs where gs: "json_with ''senderId'' (JStr user) (JObj fs) = JObj gs" "json_wf (JObj gs)"
    by (metis json_wf.simps)
  show ?thesis unfolding relay_echo_def fs(1) gs(1) by (rule json_wf_with [OF gs(2)]) simp
qed

lemma command_parses: "own_made (snd c) \<Longrightarrow> json_parse (json_stringify (command_json c)) = Inr (command_json c)"
  using message_json_wf by (intro json_roundtrip) (simp add: command_json_def)

lemma echo_parses: "own_made m \<Longrightarrow> json_parse (json_stringify (relay_event (relay_echo user recipient live (message_json m)))) =
    Inr (relay_event (relay_echo user recipient live (message_json m)))"
  using echo_wf by (intro json_roundtrip) (simp add: relay_event_def)

section \<open>What the receiving hook does with it\<close>

lemma hook_takes_message:
  assumes "authed (hook_sockets h ! k)" and "json_parse data = Inr (relay_event p)" and "m = message_of p now"
    and "msg_id m \<noteq> []" and "conversationId m \<noteq> []" and "senderId m \<noteq> []"
  shows "chat (hook_handle (HReceived k data now) h) = receiveMessage m (chat h) \<and>
    contacts (buddies (hook_handle (HReceived k data now) h)) = contacts (buddies h) \<and>
    auth (hook_handle (HReceived k data now) h) = auth h"
  using assms by (simp add: hook_onmessage_def relay_event_def json_get_def handle_event_def on_message_event_def Let_def
    incrementUnread_def)

lemma received_messages:
  "messages_of (conversationId m) (receiveMessage m s) = merge_message m (messages_of (conversationId m) s)"
  by (simp add: receiveMessage_def Let_def messages_of_def spread_conv_def find_conv_def)

lemma server_relay_command:
  assumes "own_made m" and "fst c = CmdSendMessage" and "snd c = m"
  shows "server_relay user live (json_stringify (command_json c)) = Some (conversationId m,
    json_stringify (relay_event (relay_echo user user True (message_json m))),
    json_stringify (relay_event (relay_echo user (conversationId m) live (message_json m))))"
proof -
  have "json_get (message_json m) (js ''conversationId'') = Some (JStr (conversationId m))"
    unfolding message_json_fields get_distinct [OF distinct_message_fields] by (simp add: message_field)
  moreover have "json_get (command_json c) (js ''payload'') = Some (message_json m)"
    by (simp add: command_json_def json_get_def assms(3))
  ultimately show ?thesis using assms
    by (simp add: server_relay_def command_parses relay_recipient_def string_of_def forwarded_echo)
qed

end
