(* ===== verification/ChatRuns.thy ===== *)
theory ChatRuns
  imports ChatWindow Machines
begin

text \<open>
  The chat window over time: typing, the send keys, files that are picked and read later, the toolbar, and
  what the rest of the page does to the stores in between. A file that is being read keeps what its handler
  closed over; when the session goes, the page takes the window away, and what such a reader sets then
  reaches no window, while the message it sends is sent.
\<close>

record chat_run =
  cr_window :: chat_window
  cr_auth :: AuthState
  cr_chat :: ChatState
  cr_buddies :: ContactsState
  cr_reading :: "(bool \<times> pending_file) list"
  cr_sent :: "command list"
  cr_blocks :: "json list"

definition mounted_chat :: "AuthState \<Rightarrow> ChatState \<Rightarrow> ContactsState \<Rightarrow> chat_run" where
  "mounted_chat a c b = \<lparr>cr_window = new_window, cr_auth = a, cr_chat = c, cr_buddies = b, cr_reading = [],
     cr_sent = [], cr_blocks = []\<rparr>"

text \<open>An event that sends carries the identifier and the time of the message it may make.\<close>

datatype chat_event =
    TypeText jstr | PressKey jstr bool jstr jstr | ClickSend jstr jstr
  | ClickPick | PickFile "picked_file option" | FileDone nat "unit + jstr" jstr jstr
  | ClickTool toolbar_action jstr jstr | PickEmoji jstr | ClosePicker | MouseDown bool | ClickBlockUser
  | StoresMove AuthState ChatState ContactsState

definition on_window :: "(chat_window \<Rightarrow> chat_window) \<Rightarrow> chat_run \<Rightarrow> chat_run" where
  "on_window f r = r\<lparr>cr_window := f (cr_window r)\<rparr>"

definition emit :: "command option \<times> chat_window \<times> ChatState \<Rightarrow> chat_run \<Rightarrow> chat_run" where
  "emit q r = r\<lparr>cr_sent := cr_sent r @ (case fst q of None \<Rightarrow> [] | Some c \<Rightarrow> [c]), cr_window := fst (snd q), cr_chat := snd (snd q)\<rparr>"

text \<open>What the handlers close over: the conversation, the contact and the session that are shown.\<close>

definition cr_shown :: "chat_run \<Rightarrow> (Conversation \<times> Contact \<times> Session) option" where
  "cr_shown r = chat_shown (cr_auth r) (cr_buddies r) (cr_chat r)"

definition with_shown :: "(Conversation \<Rightarrow> Contact \<Rightarrow> Session \<Rightarrow> chat_run \<Rightarrow> chat_run) \<Rightarrow> chat_run \<Rightarrow> chat_run" where
  "with_shown f r = (case cr_shown r of None \<Rightarrow> r | Some (conv, contact, ses) \<Rightarrow> f conv contact ses r)"

definition click_tool :: "toolbar_action \<Rightarrow> jstr \<Rightarrow> jstr \<Rightarrow> Conversation \<Rightarrow> Session \<Rightarrow> chat_run \<Rightarrow> chat_run" where
  "click_tool a i now conv ses r = (let me = winkdId (profile ses) in case a of
     DoWinkd \<Rightarrow> (let (c, s) = sendWinkd i now (own_id conv) me (cr_chat r) in emit (Some c, cr_window r, s) r)
   | DoNudge \<Rightarrow> (let (c, s) = sendNudge i now (own_id conv) me (cr_chat r) in emit (Some c, cr_window r, s) r)
   | _ \<Rightarrow> on_window (toolbar_effect a) r)"

definition pick_file :: "picked_file option \<Rightarrow> Conversation \<Rightarrow> Session \<Rightarrow> chat_run \<Rightarrow> chat_run" where
  "pick_file f conv ses r = (let (p, w) = handleAttachmentSelect f conv ses (cr_window r) in
     r\<lparr>cr_window := w, cr_reading := cr_reading r @ (case p of None \<Rightarrow> [] | Some q \<Rightarrow> [(True, q)])\<rparr>)"

definition file_done :: "nat \<Rightarrow> unit + jstr \<Rightarrow> jstr \<Rightarrow> jstr \<Rightarrow> chat_run \<Rightarrow> chat_run" where
  "file_done k d i now r = (let (mine, p) = cr_reading r ! k;
       r' = emit (file_read i now p d (cr_window r) (cr_chat r)) (r\<lparr>cr_reading := take k (cr_reading r) @ drop (Suc k) (cr_reading r)\<rparr>)
     in if mine then r' else r'\<lparr>cr_window := cr_window r\<rparr>)"

definition stores_move :: "AuthState \<Rightarrow> ChatState \<Rightarrow> ContactsState \<Rightarrow> chat_run \<Rightarrow> chat_run" where
  "stores_move a c b r = (let r' = r\<lparr>cr_auth := a, cr_chat := c, cr_buddies := b\<rparr> in
     if session a = None then r'\<lparr>cr_window := new_window, cr_reading := map (\<lambda>(m, p). (False, p)) (cr_reading r)\<rparr> else r')"

fun chat_handle :: "chat_event \<Rightarrow> chat_run \<Rightarrow> chat_run" where
  "chat_handle (TypeText t) r = on_window (inputValue_update (\<lambda>_. t)) r"
| "chat_handle (PressKey key shift i now) r =
     with_shown (\<lambda>conv contact ses r. emit (handleKeyDown key shift i now conv ses (cr_window r) (cr_chat r)) r) r"
| "chat_handle (ClickSend i now) r =
     with_shown (\<lambda>conv contact ses r. emit (handleSend i now conv ses (cr_window r) (cr_chat r)) r) r"
| "chat_handle ClickPick r = on_window handleFilePick r"
| "chat_handle (PickFile f) r = with_shown (\<lambda>conv contact ses. pick_file f conv ses) r"
| "chat_handle (FileDone k d i now) r = file_done k d i now r"
| "chat_handle (ClickTool a i now) r = with_shown (\<lambda>conv contact ses. click_tool a i now conv ses) r"
| "chat_handle (PickEmoji e) r = on_window (onSelect e) r"
| "chat_handle ClosePicker r = on_window onClose r"
| "chat_handle (MouseDown inside) r = on_window (mouse_down inside) r"
| "chat_handle ClickBlockUser r = with_shown (\<lambda>conv contact ses r. r\<lparr>cr_blocks := cr_blocks r @ [block_command contact]\<rparr>) r"
| "chat_handle (StoresMove a c b) r = stores_move a c b r"

fun chat_enabled :: "chat_run \<Rightarrow> chat_event \<Rightarrow> bool" where
  "chat_enabled r (StoresMove a c b) \<longleftrightarrow> True"
| "chat_enabled r (FileDone k d i now) \<longleftrightarrow> k < length (cr_reading r)"
| "chat_enabled r (ClickSend i now) \<longleftrightarrow> cr_shown r \<noteq> None \<and> can_send (cr_window r)"
| "chat_enabled r (PickEmoji e) \<longleftrightarrow> cr_shown r \<noteq> None \<and> showEmojiPicker (cr_window r)"
| "chat_enabled r e \<longleftrightarrow> cr_shown r \<noteq> None"

abbreviation chat_runs :: "chat_run \<Rightarrow> chat_event list \<Rightarrow> chat_run \<Rightarrow> bool" where
  "chat_runs \<equiv> runs chat_enabled chat_handle"

section \<open>What a run hands to the socket\<close>

text \<open>A message that is new, with a text that is not empty, and, when it carries a file, one the policy
  lets through.\<close>

definition attachment_allowed :: "Message \<Rightarrow> bool" where
  "attachment_allowed m \<longleftrightarrow> (case mediaName m of
     Val n \<Rightarrow> fileExtension n \<notin> set BLOCKED_ATTACHMENT_EXTENSIONS \<and> (\<exists>k. mediaSize m = Val (JInt k) \<and> k \<le> MAX_ATTACHMENT_BYTES)
   | _ \<Rightarrow> mediaData m = Absent \<and> mediaSize m = Absent)"

definition message_ok :: "command \<Rightarrow> bool" where
  "message_ok c \<longleftrightarrow> fst c = CmdSendMessage \<and> \<not> delivered (snd c) \<and> msg_type (snd c) \<in> {TText, TWinkd, TNudge} \<and>
     (msg_type (snd c) = TText \<longrightarrow> (\<exists>b. m_body (snd c) = Val b \<and> b \<noteq> [])) \<and> attachment_allowed (snd c)"

definition file_allowed :: "pending_file \<Rightarrow> bool" where
  "file_allowed p \<longleftrightarrow> fileExtension (file_name (pend_file p)) \<notin> set BLOCKED_ATTACHMENT_EXTENSIONS \<and>
     file_size (pend_file p) \<le> MAX_ATTACHMENT_BYTES"

definition chat_inv :: "chat_run \<Rightarrow> bool" where
  "chat_inv r \<longleftrightarrow> list_all message_ok (cr_sent r) \<and> list_all (\<lambda>(mine, p). file_allowed p) (cr_reading r)"

lemma ok_text: "js_trim t \<noteq> [] \<Longrightarrow> sendText i now cid me (js_trim t) s = (c, s') \<Longrightarrow> message_ok c"
  by (auto simp: sendText_def base_message_def message_ok_def attachment_allowed_def Let_def)

lemma ok_shake: "sendWinkd i now cid me s = (c, s') \<Longrightarrow> message_ok c" "sendNudge i now cid me s = (c, s') \<Longrightarrow> message_ok c"
  by (auto simp: sendWinkd_def sendNudge_def base_message_def message_ok_def attachment_allowed_def Let_def)

lemma ok_attachment:
  "file_allowed p \<Longrightarrow> sendAttachment i now cid me (attachment_of p d) s = (c, s') \<Longrightarrow> message_ok c"
  by (auto simp: sendAttachment_def attachment_of_def base_message_def message_ok_def attachment_allowed_def
    file_allowed_def paperclip_def Let_def)

lemma ok_handlers:
  "fst (handleSend i now conv ses w s) = Some c \<Longrightarrow> message_ok c"
  "fst (handleKeyDown key shift i now conv ses w s) = Some c \<Longrightarrow> message_ok c"
  "file_allowed p \<Longrightarrow> fst (file_read i now p d w s) = Some c \<Longrightarrow> message_ok c"
  by (auto simp: handleSend_def handleKeyDown_def file_read_def Let_def intro: ok_text ok_attachment split: if_splits prod.splits sum.splits)

lemma chat_inv_emit: "chat_inv r \<Longrightarrow> (\<And>c. fst q = Some c \<Longrightarrow> message_ok c) \<Longrightarrow> chat_inv (emit q r)"
  by (auto simp: chat_inv_def emit_def split: option.split)

lemma chat_inv_window [simp]: "chat_inv (on_window f r) \<longleftrightarrow> chat_inv r"
  by (simp add: chat_inv_def on_window_def)

lemma chat_inv_with_shown: "chat_inv r \<Longrightarrow> (\<And>conv contact ses. chat_inv (f conv contact ses r)) \<Longrightarrow> chat_inv (with_shown f r)"
  by (simp add: with_shown_def split: option.split)

lemma chat_inv_pick: "chat_inv r \<Longrightarrow> chat_inv (pick_file f conv ses r)"
  by (auto simp: chat_inv_def pick_file_def handleAttachmentSelect_def file_allowed_def split: option.split)

lemma chat_inv_tool: "chat_inv r \<Longrightarrow> chat_inv (click_tool a i now conv ses r)"
  by (auto simp: click_tool_def Let_def intro!: chat_inv_emit dest: ok_shake split: toolbar_action.split prod.split)

lemma chat_inv_file:
  assumes "chat_inv r" and "k < length (cr_reading r)"
  shows "chat_inv (file_done k d i now r)"
proof -
  obtain mine p where p: "cr_reading r ! k = (mine, p)" by fastforce
  let ?r = "r\<lparr>cr_reading := take k (cr_reading r) @ drop (Suc k) (cr_reading r)\<rparr>"
  have "file_allowed p" using assms p by (auto simp: chat_inv_def list_all_length dest!: spec [where x = k])
  moreover have "chat_inv ?r" using assms(1) by (auto simp: chat_inv_def list_all_iff dest: in_set_takeD in_set_dropD)
  ultimately have "chat_inv (emit (file_read i now p d (cr_window r) (cr_chat r)) ?r)"
    by (intro chat_inv_emit ok_handlers(3))
  then show ?thesis by (simp add: file_done_def p Let_def chat_inv_def)
qed

lemma chat_inv_handle:
  assumes "chat_inv r" and "chat_enabled r e"
  shows "chat_inv (chat_handle e r)"
proof (cases e)
  case (StoresMove a c b)
  with assms(1) show ?thesis by (auto simp: stores_move_def chat_inv_def Let_def list_all_iff)
next
  case ClickBlockUser
  with assms(1) show ?thesis by (simp add: chat_inv_def with_shown_def split: option.split)
qed (use assms in \<open>auto intro!: chat_inv_with_shown chat_inv_emit chat_inv_pick chat_inv_tool chat_inv_file intro: ok_handlers\<close>)

text \<open>The button that shows the picker does not hide it: a click begins with a press of the mouse outside of
  the picker, which closes it, and the button then opens it again.\<close>

lemma emoji_button_reopens:
  assumes "cr_shown r \<noteq> None"
  shows "chat_enabled r (MouseDown False) \<and> chat_enabled (chat_handle (MouseDown False) r) (ClickTool DoEmoticons i now) \<and>
    showEmojiPicker (cr_window (chat_handle (ClickTool DoEmoticons i now) (chat_handle (MouseDown False) r)))"
  using assms by (auto simp: on_window_def with_shown_def cr_shown_def click_tool_def toolbar_effect_def onEmoticons_def
    mouse_down_def)

interpretation chat_machine: machine_invariant chat_enabled chat_handle chat_inv
  by unfold_locales (rule chat_inv_handle)

lemmas chat_run_inv = chat_machine.run_keeps

end
