(* ===== verification/SidebarRuns.thy ===== *)
theory SidebarRuns
  imports Sidebar Machines
begin

text \<open>
  The sidebar over time: every control it shows, with the stores it shares and the commands it hands to
  the socket. A control can be used while it is shown. What other parts of the page and the server do to
  the stores is one event; when the session goes, App.tsx takes the sidebar away and a later one is new.
\<close>

record sidebar_run =
  sr_side :: sidebar
  sr_auth :: AuthState
  sr_chat :: ChatState
  sr_buddies :: ContactsState
  sr_sent :: "json list"

definition mounted_sidebar :: "AuthState \<Rightarrow> ChatState \<Rightarrow> ContactsState \<Rightarrow> sidebar_run" where
  "mounted_sidebar a c b = \<lparr>sr_side = new_sidebar, sr_auth = a, sr_chat = c, sr_buddies = b, sr_sent = []\<rparr>"

datatype sidebar_event =
    ClickOwnName | ClickOwnMood | ClickOwnStatus
  | TypeSearch jstr | ClickGroup UIGroup | ClickContact Contact
  | OpenSecurity | CloseSecurity | OpenBlocked | CloseBlocked | ClickUnblock jstr
  | OpenPending | ClosePending | ClickAccept jstr | ClickDeny jstr | ClickBlock jstr
  | OpenAdd | CloseAdd | ChooseAdd add_mode | TypeId jstr | SubmitId | TypeQr jstr | UseQr
  | StoresChange AuthState ChatState ContactsState

definition on_side :: "(sidebar \<Rightarrow> sidebar) \<Rightarrow> sidebar_run \<Rightarrow> sidebar_run" where
  "on_side f r = r\<lparr>sr_side := f (sr_side r)\<rparr>"

definition side_sends :: "json list \<times> sidebar \<Rightarrow> sidebar_run \<Rightarrow> sidebar_run" where
  "side_sends q r = r\<lparr>sr_side := snd q, sr_sent := sr_sent r @ fst q\<rparr>"

definition answers_invitation :: "json list \<times> ContactsState \<Rightarrow> sidebar_run \<Rightarrow> sidebar_run" where
  "answers_invitation q r = r\<lparr>sr_buddies := snd q, sr_sent := sr_sent r @ fst q\<rparr>"

definition cycles_status :: "sidebar_run \<Rightarrow> sidebar_run" where
  "cycles_status r = (case session (sr_auth r) of None \<Rightarrow> r
     | Some ses \<Rightarrow> (let q = cycleStatus ses (sr_auth r) in r\<lparr>sr_auth := snd q, sr_sent := sr_sent r @ fst q\<rparr>))"

definition clicks_contact :: "Contact \<Rightarrow> sidebar_run \<Rightarrow> sidebar_run" where
  "clicks_contact c r = (let q = handleContactClick c (sr_chat r, sr_buddies r) in r\<lparr>sr_chat := fst q, sr_buddies := snd q\<rparr>)"

definition stores_changed :: "AuthState \<Rightarrow> ChatState \<Rightarrow> ContactsState \<Rightarrow> sidebar_run \<Rightarrow> sidebar_run" where
  "stores_changed a c b r = r\<lparr>sr_side := (if session a = None then new_sidebar else sr_side r),
     sr_auth := a, sr_chat := c, sr_buddies := b\<rparr>"

fun sidebar_handle :: "sidebar_event \<Rightarrow> sidebar_run \<Rightarrow> sidebar_run" where
  "sidebar_handle ClickOwnName r = on_side (showProfileEdit_update (\<lambda>_. True)) r"
| "sidebar_handle ClickOwnMood r = on_side (showProfileEdit_update (\<lambda>_. True)) r"
| "sidebar_handle ClickOwnStatus r = cycles_status r"
| "sidebar_handle (TypeSearch t) r = on_side (searchQuery_update (\<lambda>_. t)) r"
| "sidebar_handle (ClickGroup k) r = on_side (toggle_group k) r"
| "sidebar_handle (ClickContact c) r = clicks_contact c r"
| "sidebar_handle OpenSecurity r = on_side (showSecurity_update (\<lambda>_. True)) r"
| "sidebar_handle CloseSecurity r = on_side (showSecurity_update (\<lambda>_. False)) r"
| "sidebar_handle OpenBlocked r = side_sends (openBlockedUsers (sr_side r)) r"
| "sidebar_handle CloseBlocked r = on_side (showBlockedUsers_update (\<lambda>_. False)) r"
| "sidebar_handle (ClickUnblock u) r = side_sends (handleUnblock u, sr_side r) r"
| "sidebar_handle OpenPending r = on_side (showPendingModal_update (\<lambda>_. True)) r"
| "sidebar_handle ClosePending r = on_side (showPendingModal_update (\<lambda>_. False)) r"
| "sidebar_handle (ClickAccept i) r = answers_invitation (handleApprove i (sr_buddies r)) r"
| "sidebar_handle (ClickDeny i) r = answers_invitation (handleReject i (sr_buddies r)) r"
| "sidebar_handle (ClickBlock i) r = answers_invitation (handleBlock i (sr_buddies r)) r"
| "sidebar_handle OpenAdd r = on_side (showAddContact_update (\<lambda>_. True)) r"
| "sidebar_handle CloseAdd r = on_side closeAddContact r"
| "sidebar_handle (ChooseAdd m) r = on_side (choose_add_mode m) r"
| "sidebar_handle (TypeId t) r = on_side (type_contact_id t) r"
| "sidebar_handle SubmitId r = side_sends (handleAddContact (sr_side r)) r"
| "sidebar_handle (TypeQr t) r = on_side (type_qr_payload t) r"
| "sidebar_handle UseQr r = on_side use_qr_payload r"
| "sidebar_handle (StoresChange a c b) r = stores_changed a c b r"

text \<open>Whether a control is there. A row is taken to be there for every accepted contact, whatever the search
  and the collapsed groups hide. The form for a new contact has no field and no send button once a request
  was sent; its field and its button for an id are both \<open>SubmitId\<close>, and the button is there in both modes.\<close>

definition add_form_open :: "sidebar \<Rightarrow> bool" where
  "add_form_open s \<longleftrightarrow> showAddContact s \<and> \<not> addContactSent s"

fun control_shown :: "sidebar_run \<Rightarrow> sidebar_event \<Rightarrow> bool" where
  "control_shown r (ClickContact c) \<longleftrightarrow> c \<in> set (contacts (sr_buddies r)) \<and> requestStatus c = Accepted"
| "control_shown r CloseSecurity \<longleftrightarrow> showSecurity (sr_side r)"
| "control_shown r CloseBlocked \<longleftrightarrow> showBlockedUsers (sr_side r)"
| "control_shown r (ClickUnblock u) \<longleftrightarrow> showBlockedUsers (sr_side r) \<and> u \<in> bu_userId ` set (blockedUsers (sr_buddies r))"
| "control_shown r OpenPending \<longleftrightarrow> pendingInvitations (sr_buddies r) \<noteq> []"
| "control_shown r ClosePending \<longleftrightarrow> showPendingModal (sr_side r)"
| "control_shown r (ClickAccept i) \<longleftrightarrow> showPendingModal (sr_side r) \<and> i \<in> requestId ` set (pendingInvitations (sr_buddies r))"
| "control_shown r (ClickDeny i) \<longleftrightarrow> showPendingModal (sr_side r) \<and> i \<in> requestId ` set (pendingInvitations (sr_buddies r))"
| "control_shown r (ClickBlock i) \<longleftrightarrow> showPendingModal (sr_side r) \<and> i \<in> requestId ` set (pendingInvitations (sr_buddies r))"
| "control_shown r CloseAdd \<longleftrightarrow> showAddContact (sr_side r)"
| "control_shown r (ChooseAdd m) \<longleftrightarrow> add_form_open (sr_side r)"
| "control_shown r (TypeId t) \<longleftrightarrow> add_form_open (sr_side r) \<and> addContactMode (sr_side r) = IdMode"
| "control_shown r SubmitId \<longleftrightarrow> add_form_open (sr_side r)"
| "control_shown r (TypeQr t) \<longleftrightarrow> add_form_open (sr_side r) \<and> addContactMode (sr_side r) = QrMode"
| "control_shown r UseQr \<longleftrightarrow> add_form_open (sr_side r) \<and> addContactMode (sr_side r) = QrMode"
| "control_shown r _ \<longleftrightarrow> True"

text \<open>The conditions are those of the view.\<close>

lemma form_controls:
  "showAddContact (sr_side r) \<Longrightarrow> control_shown r (TypeId t) \<longleftrightarrow> (\<exists>e. IdField (addContactInput (sr_side r)) e \<in> set (add_form_view qr own (sr_side r)))"
  "showAddContact (sr_side r) \<Longrightarrow> control_shown r (TypeQr t) \<longleftrightarrow> (\<exists>e. QrField (qrScanInput (sr_side r)) e \<in> set (add_form_view qr own (sr_side r)))"
  "showAddContact (sr_side r) \<Longrightarrow> control_shown r SubmitId \<longleftrightarrow> SendButton \<in> set (add_form_view qr own (sr_side r))"
  "showAddContact (sr_side r) \<Longrightarrow> control_shown r UseQr \<longleftrightarrow> UseQrButton \<in> set (add_form_view qr own (sr_side r))"
  "showBlockedUsers (sr_side r) \<Longrightarrow> control_shown r (ClickUnblock u) \<longleftrightarrow> u \<in> fst ` set (blocked_rows (sr_buddies r))"
  "showPendingModal (sr_side r) \<Longrightarrow> control_shown r (ClickAccept i) \<longleftrightarrow> i \<in> fst ` set (invitation_rows (sr_buddies r))"
  by (auto simp: add_form_open_def add_form_view_def mode_controls_def some_line_def blocked_rows_def invitation_rows_def
    image_image; cases "addContactMode (sr_side r)"; auto simp: mode_controls_def some_line_def Let_def)+

fun sidebar_enabled :: "sidebar_run \<Rightarrow> sidebar_event \<Rightarrow> bool" where
  "sidebar_enabled r (StoresChange a c b) \<longleftrightarrow> True"
| "sidebar_enabled r e \<longleftrightarrow> session (sr_auth r) \<noteq> None \<and> control_shown r e"

abbreviation sidebar_runs :: "sidebar_run \<Rightarrow> sidebar_event list \<Rightarrow> sidebar_run \<Rightarrow> bool" where
  "sidebar_runs \<equiv> runs sidebar_enabled sidebar_handle"

section \<open>What a run hands to the socket\<close>

definition add_request :: "jstr \<Rightarrow> json" where
  "add_request w = sb_command ''add_contact'' [(''winkd_id'', w)]"

definition is_add :: "json \<Rightarrow> bool" where
  "is_add c \<longleftrightarrow> json_get c (js ''command'') = Some (JStr (js ''add_contact''))"

definition is_profile_change :: "json \<Rightarrow> bool" where
  "is_profile_change c \<longleftrightarrow> json_get c (js ''command'') = Some (JStr (js ''set_display_name'')) \<or>
     json_get c (js ''command'') = Some (JStr (js ''set_mood''))"

definition good_command :: "json \<Rightarrow> bool" where
  "good_command c \<longleftrightarrow> \<not> is_profile_change c \<and> (is_add c \<longrightarrow> (\<exists>w. c = add_request w \<and> winkd_id_format w \<and> js_trim w = w))"

text \<open>Whether an event leaves a form behind in which a request was sent.\<close>

definition clears_form :: "sidebar_event \<Rightarrow> bool" where
  "clears_form e \<longleftrightarrow> e = CloseAdd \<or> (\<exists>a c b. e = StoresChange a c b \<and> session a = None)"

definition count_if :: "('a \<Rightarrow> bool) \<Rightarrow> 'a list \<Rightarrow> nat" where
  "count_if P xs = length (filter P xs)"

lemma count_if_simps [simp]:
  "count_if P [] = 0" "count_if P (x # xs) = (if P x then Suc (count_if P xs) else count_if P xs)"
  "count_if P (xs @ ys) = count_if P xs + count_if P ys"
  by (simp_all add: count_if_def)

lemma dropWhile_stays: "w \<noteq> [] \<Longrightarrow> \<not> P (hd w) \<Longrightarrow> dropWhile P w = w"
  by (cases w) simp_all

lemma js_trim_twice: "js_trim (js_trim s) = js_trim s"
proof (cases "js_trim s = []")
  case False
  with js_trim_ends [OF False] show ?thesis
    unfolding js_trim_def [of "js_trim s"] by (simp add: dropWhile_stays hd_rev)
qed simp

lemma command_name:
  "json_get (sb_command c fs) (js ''command'') = Some (JStr (js c))"
  by (simp add: sb_command_def json_get_def)

lemma good_commands:
  "good_command (sb_command ''set_status'' fs)" "good_command (sb_command ''list_blocked'' fs)"
  "good_command (sb_command ''unblock_contact'' fs)" "good_command (sb_command ''accept_contact'' fs)"
  "good_command (sb_command ''reject_contact'' fs)" "good_command (sb_command ''block_contact'' fs)"
  by (simp_all add: good_command_def is_profile_change_def is_add_def command_name)

lemma good_add: "winkd_id_format w \<Longrightarrow> js_trim w = w \<Longrightarrow> good_command (sb_command ''add_contact'' [(''winkd_id'', w)])"
  by (auto simp: good_command_def is_profile_change_def is_add_def add_request_def command_name)

lemma not_add:
  "c \<noteq> ''add_contact'' \<Longrightarrow> \<not> is_add (sb_command c fs)" "is_add (sb_command ''add_contact'' fs)"
  by (simp_all add: is_add_def command_name)

lemmas handler_defs = on_side_def side_sends_def answers_invitation_def cycles_status_def clicks_contact_def
  stores_changed_def cycleStatus_def handleContactClick_def openBlockedUsers_def handleUnblock_def handleApprove_def
  handleReject_def handleBlock_def answer_invitation_def Let_def

text \<open>The condition that every run keeps, together with the events that led there.\<close>

definition run_ok :: "sidebar_event list \<Rightarrow> sidebar_run \<Rightarrow> bool" where
  "run_ok es r \<longleftrightarrow> list_all good_command (sr_sent r) \<and>
     count_if is_add (sr_sent r) \<le> count_if clears_form es + (if addContactSent (sr_side r) then 1 else 0)"

lemma run_ok_quiet:
  "run_ok es r \<Longrightarrow> sr_sent r' = sr_sent r @ cs \<Longrightarrow> list_all good_command cs \<Longrightarrow> \<not> list_ex is_add cs \<Longrightarrow>
    addContactSent (sr_side r') = addContactSent (sr_side r) \<or> clears_form e \<Longrightarrow> run_ok (es @ [e]) r'"
proof -
  assume "\<not> list_ex is_add cs"
  then have "count_if is_add cs = 0" by (induction cs) auto
  then show "run_ok es r \<Longrightarrow> sr_sent r' = sr_sent r @ cs \<Longrightarrow> list_all good_command cs \<Longrightarrow>
    addContactSent (sr_side r') = addContactSent (sr_side r) \<or> clears_form e \<Longrightarrow> run_ok (es @ [e]) r'"
    by (auto simp: run_ok_def split: if_splits)
qed

lemma run_ok_submit:
  assumes "run_ok es r" and "\<not> addContactSent (sr_side r)"
  shows "run_ok (es @ [SubmitId]) (side_sends (handleAddContact (sr_side r)) r)"
  using assms good_add [of "js_trim (addContactInput (sr_side r))"]
  by (auto simp: run_ok_def side_sends_def handleAddContact_def sendContactRequest_def Let_def js_trim_twice not_add
    clears_form_def)

lemma addContactSent_qr: "addContactSent (use_qr_payload s) = addContactSent s"
  by (auto simp: use_qr_payload_def handleUseQrPayload_def split: sum.split option.split)

lemma run_ok_handle:
  assumes "run_ok es r" and "sidebar_enabled r e"
  shows "run_ok (es @ [e]) (sidebar_handle e r)"
proof (cases "e = SubmitId")
  case True
  with assms run_ok_submit show ?thesis by (simp add: add_form_open_def)
next
  case False
  let ?r = "sidebar_handle e r"
  have "\<exists>cs. sr_sent ?r = sr_sent r @ cs \<and> list_all good_command cs \<and> \<not> list_ex is_add cs"
    using False by (cases e) (auto simp: handler_defs good_commands not_add split: option.split)
  moreover have "addContactSent (sr_side ?r) = addContactSent (sr_side r) \<or> clears_form e"
    using False by (cases e) (auto simp: handler_defs clears_form_def addContactSent_qr choose_add_mode_def
      type_contact_id_def type_qr_payload_def toggle_group_def split: option.split)
  ultimately show ?thesis using run_ok_quiet [OF assms(1)] by blast
qed

lemma sidebar_runs_ok: "sidebar_runs (mounted_sidebar a c b) es r \<Longrightarrow> run_ok es r"
proof (induction rule: runs.induct)
  case no_event
  then show ?case by (simp add: run_ok_def mounted_sidebar_def)
qed (rule run_ok_handle)

end
