(* ===== verification/SidebarView.thy ===== *)
theory SidebarView
  imports SidebarRuns RichEmoji
begin

text \<open>
  What components/Sidebar.tsx shows: the user's own profile, the groups of contacts, the footer and the overlays over
  them. Rendering throws when the own status is none of the four (its label is undefined) and when the own id is not
  well formed (it goes into the address of the QR code). The date of a renewal is left as it is stored.
\<close>

text \<open>The first of a list of parts that throws throws for all of them.\<close>

fun all_inr :: "('e + 'a) list \<Rightarrow> 'e + 'a list" where
  "all_inr [] = Inr []"
| "all_inr (r # rs) = bindR r (\<lambda>x. bindR (all_inr rs) (\<lambda>xs. Inr (x # xs)))"

lemma all_inr_Inl: "Inl e \<in> set rs \<Longrightarrow> \<exists>e. all_inr rs = Inl e"
proof (induction rs)
  case (Cons r rs)
  show ?case
  proof (cases r)
    case (Inr x)
    with Cons obtain e' where "all_inr rs = Inl e'" by auto
    with Inr show ?thesis by simp
  qed simp
qed simp

lemma all_inr_shown: "\<forall>x \<in> set xs. \<exists>y. f x = Inr y \<Longrightarrow> \<exists>ys. all_inr (map f xs) = Inr ys"
  by (induction xs) auto

datatype side_control =
    OwnProfileBox avatar jstr "rich_node list" "jstr option" | MoodLine "rich_node list"
  | PerksTitle | RenewsLine jstr | SupporterButton jstr jstr
  | SearchBox jstr | GroupBox "rich_node list" nat "contact_row list option" | PendingBox "(avatar \<times> jstr) list" | NoContacts
  | SecurityButton | BlockedButton | InvitationsButton jstr | AddContactButton | SideStatus "jstr list"
  | SecurityOverlay | AddOverlay "form_control list" | BlockedOverlay "(avatar \<times> jstr \<times> jstr \<times> jstr) list"
  | InvitationsOverlay "(avatar \<times> jstr \<times> jstr \<times> jstr) list"

section \<open>The parts\<close>

definition own_status_line :: "Session \<Rightarrow> error + rich_node list" where
  "own_status_line ses = (case STATUS_LABELS (status (profile ses)) of None \<Rightarrow> Inl TypeErr | Some l \<Rightarrow> Inr (renderRichEmojiText l))"

definition own_mood_nodes :: "Session \<Rightarrow> rich_node list" where
  "own_mood_nodes ses = (if moodMessage (profile ses) \<noteq> [] then renderRichEmojiText (moodMessage (profile ses)) else [TextSpan (own_mood_line ses)])"

definition perks :: "jstr option \<Rightarrow> jstr option \<Rightarrow> SupporterState \<Rightarrow> side_control list" where
  "perks membership plusUrl sst = (if supporter_tier sst = Plus then [PerksTitle] else []) @
     (case renewal_shown sst of None \<Rightarrow> [] | Some t \<Rightarrow> [RenewsLine t]) @
     [case supporter_button membership plusUrl sst of (l, u) \<Rightarrow> SupporterButton l u]"

definition profile_area :: "(jstr \<Rightarrow> jstr) \<Rightarrow> jstr option \<Rightarrow> jstr option \<Rightarrow> Session \<Rightarrow> error + side_control list" where
  "profile_area up membership plusUrl ses = (let me = profile ses in
     bindR (Avatar up (displayName me) (avatarData me) (Some (status me))) (\<lambda>a.
     bindR (own_status_line ses) (\<lambda>st.
     Inr ([OwnProfileBox a (own_name_line ses) st (STATUS_COLORS (status me)), MoodLine (own_mood_nodes ses)] @
       perks membership plusUrl (supporter ses)))))"

definition group_label :: "UIGroup \<Rightarrow> jstr" where
  "group_label k = (case k of GOnline \<Rightarrow> js ''Online'' | GAway \<Rightarrow> js ''Away / Busy'' | GOffline \<Rightarrow> js ''Offline'')"

definition group_boxes :: "(jstr \<Rightarrow> jstr) \<Rightarrow> sidebar \<Rightarrow> ChatState \<Rightarrow> ContactsState \<Rightarrow> side_control list" where
  "group_boxes lower s ch b = map (\<lambda>(k, n, rows). GroupBox (renderRichEmojiText (group_label k)) n rows) (group_views lower s ch b)"

text \<open>Contacts, blocked users and invitations are shown with the dot of an invisible user.\<close>

definition pale_avatar :: "(jstr \<Rightarrow> jstr) \<Rightarrow> jstr \<Rightarrow> jstr option \<Rightarrow> (avatar \<Rightarrow> 'a) \<Rightarrow> error + 'a" where
  "pale_avatar up name d f = bindR (Avatar up name d (Some Invisible)) (\<lambda>a. Inr (f a))"

definition pending_part :: "(jstr \<Rightarrow> jstr) \<Rightarrow> (jstr \<Rightarrow> jstr) \<Rightarrow> sidebar \<Rightarrow> ContactsState \<Rightarrow> error + side_control list" where
  "pending_part up lower s b = (let cs = filteredPendingOut lower (searchQuery s) b in
     bindR (all_inr (map (\<lambda>c. pale_avatar up (displayName c) (avatarData c) (\<lambda>a. (a, displayName c))) cs)) (\<lambda>rows.
     Inr (if cs = [] then [] else [PendingBox rows])))"

definition footer :: "Session \<Rightarrow> ContactsState \<Rightarrow> side_control list" where
  "footer ses b = [SecurityButton, BlockedButton] @
     (case invitations_button b of None \<Rightarrow> [] | Some t \<Rightarrow> [InvitationsButton t]) @
     [AddContactButton, SideStatus (StatusBar (Some False) (Some (winkdId (profile ses))))]"

definition blocked_part :: "(jstr \<Rightarrow> jstr) \<Rightarrow> sidebar \<Rightarrow> ContactsState \<Rightarrow> error + side_control list" where
  "blocked_part up s b = (if \<not> showBlockedUsers s then Inr [] else
     bindR (all_inr (map (\<lambda>u. pale_avatar up (bu_displayName u) (bu_avatarData u)
       (\<lambda>a. (a, bu_userId u, bu_displayName u, bu_winkdId u))) (blockedUsers b))) (\<lambda>rows. Inr [BlockedOverlay rows]))"

definition invitations_part :: "(jstr \<Rightarrow> jstr) \<Rightarrow> sidebar \<Rightarrow> ContactsState \<Rightarrow> error + side_control list" where
  "invitations_part up s b = (if \<not> showPendingModal s then Inr [] else
     bindR (all_inr (map (\<lambda>i. pale_avatar up (fromDisplayName i) (fromAvatarData i)
       (\<lambda>a. (a, requestId i, fromDisplayName i, fromWinkdId i))) (pendingInvitations b))) (\<lambda>rows. Inr [InvitationsOverlay rows]))"

definition overlays :: "(jstr \<Rightarrow> jstr) \<Rightarrow> jstr \<Rightarrow> Session \<Rightarrow> sidebar \<Rightarrow> ContactsState \<Rightarrow> error + side_control list" where
  "overlays up qr ses s b =
     bindR (blocked_part up s b) (\<lambda>bl. bindR (invitations_part up s b) (\<lambda>inv.
     Inr ((if showSecurity s then [SecurityOverlay] else []) @
       (if showAddContact s then [AddOverlay (add_form_view qr (winkdId (profile ses)) s)] else []) @ bl @ inv)))"

section \<open>The sidebar\<close>

definition sidebar_view :: "(jstr \<Rightarrow> jstr) \<Rightarrow> (jstr \<Rightarrow> jstr) \<Rightarrow> jstr option \<Rightarrow> jstr option \<Rightarrow> sidebar \<Rightarrow> AuthState \<Rightarrow>
    ContactsState \<Rightarrow> ChatState \<Rightarrow> error + side_control list" where
  "sidebar_view up lower membership plusUrl s au b ch = (case session au of None \<Rightarrow> Inr [] | Some ses \<Rightarrow>
     bindR (myQrImageUrl (profile ses)) (\<lambda>qr.
     bindR (profile_area up membership plusUrl ses) (\<lambda>own.
     bindR (pending_part up lower s b) (\<lambda>pend.
     bindR (overlays up qr ses s b) (\<lambda>over.
     Inr (own @ [SearchBox (searchQuery s)] @ group_boxes lower s ch b @ pend @
       (if no_contacts_note lower s b then [NoContacts] else []) @ footer ses b @ over))))))"

lemma pale_avatar_shown: "\<exists>y. pale_avatar up name d f = Inr y"
proof -
  obtain a where "Avatar up name d (Some Invisible) = Inr a" using avatar_shown by metis
  then show ?thesis by (simp add: pale_avatar_def)
qed

lemma parts_shown:
  "\<exists>x. pending_part up lower s b = Inr x" "\<exists>x. blocked_part up s b = Inr x" "\<exists>x. invitations_part up s b = Inr x"
  "\<exists>x. overlays up qr ses s b = Inr x"
proof -
  have rows: "\<exists>ys. all_inr (map (\<lambda>x. pale_avatar up (n x) (d x) (f x)) xs) = Inr ys" for n d and f :: "'x \<Rightarrow> avatar \<Rightarrow> 'y" and xs
    by (rule all_inr_shown) (simp add: pale_avatar_shown)
  show 1: "\<exists>x. pending_part up lower s b = Inr x" "\<exists>x. blocked_part up s b = Inr x" "\<exists>x. invitations_part up s b = Inr x"
    using rows [of displayName avatarData "\<lambda>c a. (a, displayName c)" "filteredPendingOut lower (searchQuery s) b"]
      rows [of bu_displayName bu_avatarData "\<lambda>u a. (a, bu_userId u, bu_displayName u, bu_winkdId u)" "blockedUsers b"]
      rows [of fromDisplayName fromAvatarData "\<lambda>i a. (a, requestId i, fromDisplayName i, fromWinkdId i)" "pendingInvitations b"]
    by (auto simp: pending_part_def blocked_part_def invitations_part_def Let_def)
  then show "\<exists>x. overlays up qr ses s b = Inr x" by (auto simp: overlays_def)
qed

text \<open>The only two things that keep the sidebar from being shown, whatever the contacts are.\<close>

lemma sidebar_view_throws:
  assumes "session au = Some ses"
  shows "(\<exists>v. sidebar_view up lower mb pu s au b ch = Inr v) \<longleftrightarrow>
    (\<exists>q. myQrImageUrl (profile ses) = Inr q) \<and> STATUS_LABELS (status (profile ses)) \<noteq> None"
proof (cases "myQrImageUrl (profile ses)")
  case (Inr q)
  obtain a where a: "Avatar up (displayName (profile ses)) (avatarData (profile ses)) (Some (status (profile ses))) = Inr a"
    using avatar_shown by metis
  obtain p v where pv: "pending_part up lower s b = Inr p" "overlays up q ses s b = Inr v" using parts_shown by metis
  show ?thesis using assms Inr a pv
    by (cases "STATUS_LABELS (status (profile ses))") (simp_all add: sidebar_view_def profile_area_def own_status_line_def Let_def)
qed (simp add: sidebar_view_def assms)

end
