(* ===== verification/AppView.thy ===== *)
theory AppView
  imports SidebarView ChatWindow MessageBubble
begin

text \<open>
  apps/web/src/App.tsx and main.tsx: what the page shows for the stores. Without a session it is the login
  page, with one the sidebar and the chat window with its message history; rendering can throw, and the
  boundary around the application then shows its own page in place of everything.
\<close>

definition history_view :: "Conversation \<Rightarrow> Session \<Rightarrow> error + bubble list" where
  "history_view conv ses = (case conv_messages conv of None \<Rightarrow> Inl TypeErr
     | Some ms \<Rightarrow> all_inr (map (\<lambda>m. MessageBubble m (senderId m = winkdId (profile ses))) ms))"

text \<open>The sidebar makes the QR code's address each time it is rendered, and shows the label of the own status; nothing
  else in it can throw (\<open>sidebar_view_throws\<close>).\<close>

datatype app_view = LoginView | BuddyListView jstr "bubble list option"

definition App :: "AuthState \<Rightarrow> ContactsState \<Rightarrow> ChatState \<Rightarrow> error + app_view" where
  "App a b s = (case session a of None \<Rightarrow> Inr LoginView
     | Some ses \<Rightarrow> bindR (myQrImageUrl (profile ses)) (\<lambda>qr. bindR (own_status_line ses) (\<lambda>st. case chat_shown a b s of
         None \<Rightarrow> Inr (BuddyListView qr None)
       | Some (conv, contact, ses) \<Rightarrow> bindR (history_view conv ses) (\<lambda>bs. Inr (BuddyListView qr (Some bs))))))"

text \<open>The pages that are shown one after the other, from a boundary that has or has not caught an error.\<close>

fun pages :: "bool \<Rightarrow> (error + app_view) list \<Rightarrow> app_view option list" where
  "pages hasError [] = []"
| "pages hasError (v # vs) = (let (e, p) = AppErrorBoundary v hasError in p # pages e vs)"

lemma pages_after_error: "pages True vs = map (\<lambda>_. None) vs"
  by (induction vs) (simp_all add: AppErrorBoundary_def)

lemma history_throws:
  "conv_messages conv = Some ms \<Longrightarrow> m \<in> set ms \<Longrightarrow> msg_type m = TText \<Longrightarrow> m_body m = Undef \<Longrightarrow> \<exists>e. history_view conv ses = Inl e"
  by (auto simp: history_view_def MessageBubble_def intro!: all_inr_Inl [where e = TypeErr] rev_image_eqI)

text \<open>A message that is received is in the history with what it came with, whether it is new or was there.\<close>

lemma merged_in: "\<exists>m'. m' \<in> set (merge_message m ms) \<and> msg_type m' = msg_type m \<and> (m_body m = Undef \<longrightarrow> m_body m' = Undef)"
proof (cases "\<exists>x \<in> set ms. msg_id x = msg_id m")
  case True
  then have "\<exists>x. spread_message x m \<in> set (replace_first (\<lambda>x. msg_id x = msg_id m) (\<lambda>x. spread_message x m) ms)"
    by (induction ms) auto
  then obtain x where x: "spread_message x m \<in> set (merge_message m ms)" using True by (auto simp: merge_message_def)
  moreover have "msg_type (spread_message x m) = msg_type m" "m_body m = Undef \<longrightarrow> m_body (spread_message x m) = Undef"
    by (simp_all add: spread_message_def spread_prop_def)
  ultimately show ?thesis by blast
next
  case False
  then show ?thesis by (auto simp: merge_message_def intro!: exI [where x = m])
qed

lemma receive_keeps_shown:
  assumes "chat_shown a b s = Some (conv, contact, ses)" and "activeConversationId s = Some (conversationId m)"
  shows "\<exists>conv'. chat_shown a b (receiveMessage m s) = Some (conv', contact, ses) \<and>
    conv_messages conv' = Some (merge_message m (messages_of (conversationId m) s))"
proof -
  have conv: "find_conv (conversationId m) s = Some conv" "conversationId m \<noteq> []" "shown_contact conv b = Some contact"
      "session a = Some ses"
    using assms by (auto simp: chat_shown_def shown_conversation_def split: option.splits if_splits)
  from conv(3) obtain c where c: "conv_contactId conv = Some c"
    by (auto simp: shown_contact_def find_Some_iff dest: sym [of "Some _"])
  let ?s = "receiveMessage m s"
  have "find_conv (conversationId m) ?s = Some \<lparr>conv_id = Some (conversationId m), conv_contactId = Some c,
      conv_messages = Some (merge_message m (messages_of (conversationId m) s)), isShaking = Some (msg_type m = TWinkd)\<rparr>"
    "activeConversationId ?s = Some (conversationId m)"
    using assms(2) conv(1) c by (simp_all add: receiveMessage_def Let_def find_conv_def spread_conv_def)
  then show ?thesis using conv c by (simp add: chat_shown_def shown_conversation_def shown_contact_def)
qed

end
