(* ===== verification/DeliveryProperties.thy ===== *)
theory DeliveryProperties
  imports Relay ChatRuns AppView SidebarRuns
begin

text \<open>
  Properties that span the page: a message from the input of one user to the history of the other, what the
  chat window and the sidebar hand to the socket over all their runs, and what ends the page.
\<close>

section \<open>From one window to the other\<close>

definition text_message :: "jstr \<Rightarrow> jstr \<Rightarrow> Conversation \<Rightarrow> Session \<Rightarrow> jstr \<Rightarrow> Message" where
  "text_message i now conv ses body = (base_message i now (own_id conv) (winkdId (profile ses)) TText)\<lparr>m_body := Val body\<rparr>"

lemma handleSend_text:
  assumes "handleSend i now conv ses w s = (Some cmd, w', s')"
  shows "cmd = (CmdSendMessage, text_message i now conv ses (js_trim (inputValue w)))"
    "s' = append_message (text_message i now conv ses (js_trim (inputValue w))) s" "js_trim (inputValue w) \<noteq> []"
  using assms by (auto simp: handleSend_def sendText_def text_message_def Let_def split: if_splits)

lemma text_message_simps [simp]:
  "msg_id (text_message i now conv ses b) = i" "conversationId (text_message i now conv ses b) = own_id conv"
  "senderId (text_message i now conv ses b) = winkdId (profile ses)" "m_body (text_message i now conv ses b) = Val b"
  "msg_type (text_message i now conv ses b) = TText"
  "i \<noteq> [] \<Longrightarrow> own_made (text_message i now conv ses b)"
  by (simp_all add: text_message_def base_message_def own_made_def)

lemma read_as_simps [simp]:
  "msg_id (message_read_as m cid u live) = msg_id m" "conversationId (message_read_as m cid u live) = cid"
  "senderId (message_read_as m cid u live) = u" "delivered (message_read_as m cid u live) = live"
  "m_body (message_read_as m cid u live) = read_prop (m_body m)" "msg_type (message_read_as m cid u live) = msg_type m"
  by (simp_all add: message_read_as_def)





definition me :: Session where
  "me = \<lparr>token = js ''t'', profile = \<lparr>winkdId = js ''ana#1234'', displayName = js ''Ana'', moodMessage = [],
     status = Online, avatarData = None, sessionToken = js ''t''\<rparr>, supporter = defaultSupporterState\<rparr>"

definition bo :: Contact where
  "bo = \<lparr>winkdId = js ''bo#0001'', displayName = js ''Bo'', moodMessage = [], status = Online, avatarData = None,
     contact_id = js ''bo#0001'', requestStatus = Accepted, unreadCount = 0, lastMessageAt = None\<rparr>"

definition bo_conv :: Conversation where
  "bo_conv = \<lparr>conv_id = Some (js ''bo#0001''), conv_contactId = Some (js ''bo#0001''), conv_messages = Some [], isShaking = Some False\<rparr>"

definition bo_open :: ChatState where
  "bo_open = \<lparr>conversations = [(js ''bo#0001'', bo_conv)], activeConversationId = Some (js ''bo#0001'')\<rparr>"

definition signed_in :: AuthState where
  "signed_in = \<lparr>session = Some me, session_obj = 1\<rparr>"

definition confirmed_hook :: "ChatState \<Rightarrow> ContactsState \<Rightarrow> hook" where
  "confirmed_hook c b = (fresh_hook signed_in c b)\<lparr>hook_sockets := [\<lparr>ready = OPEN, ws_sent = [], authed = True, cl_session = me,
     cl_active = None\<rparr>], wsRef := Some 0\<rparr>"

lemma confirmed: "authed (hook_sockets (confirmed_hook c b) ! 0)" "chat (confirmed_hook c b) = c"
    "auth (confirmed_hook c b) = signed_in" "buddies (confirmed_hook c b) = b"
  by (simp_all add: confirmed_hook_def fresh_hook_def)

definition greeting :: chat_window where
  "greeting = new_window\<lparr>inputValue := js ''hi''\<rparr>"

lemma greeting_trim: "js_trim (inputValue greeting) = js ''hi''"
proof -
  have "\<forall>c \<in> set (js ''hi''). \<not> js_ws c" by (simp add: js_def js_ws_def)
  then show ?thesis by (simp add: greeting_def trim_plain)
qed

lemma greeting_sent:
  "\<exists>cmd w' s'. handleSend (js ''1'') (js ''now'') bo_conv me greeting bo_open = (Some cmd, w', s')"
  by (simp add: handleSend_def greeting_trim sendText_def Let_def)


text \<open>The lock is shown over plain text. The chat window always shows the label of end-to-end encryption,
  and the frame of every text it sends holds that text as it was typed.\<close>

theorem lock_over_plain_text:
  assumes "handleSend i now conv ses w s = (Some cmd, w', s')" and "i \<noteq> []"
  shows "\<exists>c p. json_parse (json_stringify (command_json cmd)) = Inr c \<and> json_get c (js ''payload'') = Some p \<and>
    json_get p (js ''body'') = Some (JStr (js_trim (inputValue w))) \<and> encrypted_label \<in> set chat_status_bar"
proof -
  let ?m = "text_message i now conv ses (js_trim (inputValue w))"
  have "json_get (command_json cmd) (js ''payload'') = Some (message_json ?m)"
    by (simp add: command_json_def json_get_def handleSend_text [OF assms(1)])
  moreover have "json_get (message_json ?m) (js ''body'') = Some (JStr (js_trim (inputValue w)))"
    unfolding message_json_fields get_distinct [OF distinct_message_fields] by (simp add: message_field prop_val_def)
  ultimately show ?thesis using command_parses [of cmd] assms(2)
    by (simp add: handleSend_text [OF assms(1)] chat_status_bar_def StatusBar_def)
qed

theorem lock_over_plain_text_witness:
  "\<exists>cmd c p. json_parse (json_stringify (command_json cmd)) = Inr c \<and> json_get c (js ''payload'') = Some p \<and>
    json_get p (js ''body'') = Some (JStr (js ''hi''))"
proof -
  obtain cmd w' s' where sent: "handleSend (js ''1'') (js ''now'') bo_conv me greeting bo_open = (Some cmd, w', s')"
    using greeting_sent by blast
  have "js ''1'' \<noteq> []" by simp
  from lock_over_plain_text [OF sent this] show ?thesis unfolding greeting_trim by blast
qed

section \<open>What ends the page\<close>

lemma shown_same_contacts: "contacts b' = contacts b \<Longrightarrow> chat_shown a b' s = chat_shown a b s"
  by (simp add: chat_shown_def shown_contact_def cong: option.case_cong)

text \<open>C35: one message can end the page. A text message without a body for the open conversation makes the
  page throw when it renders the history, and from then on the boundary shows its own page whatever the
  application would show.\<close>

theorem message_without_body_ends_page:
  assumes "authed (hook_sockets h ! k)" and "json_parse data = Inr (relay_event p)" and m: "m = message_of p now"
    "msg_id m \<noteq> []" "conversationId m \<noteq> []" "senderId m \<noteq> []" "msg_type m = TText" "m_body m = Undef"
    and shown: "chat_shown (auth h) (buddies h) (chat h) \<noteq> None" "activeConversationId (chat h) = Some (conversationId m)"
    and h': "h' = hook_handle (HReceived k data now) h"
  shows "pages False (App (auth h') (buddies h') (chat h') # vs) = replicate (Suc (length vs)) None"
proof -
  note took = hook_takes_message [OF assms(1,2) m(1-4), folded h']
  obtain conv contact ses where x: "chat_shown (auth h) (buddies h) (chat h) = Some (conv, contact, ses)" using shown(1) by auto
  from receive_keeps_shown [OF x shown(2)] obtain conv' where
    y: "chat_shown (auth h) (buddies h) (receiveMessage m (chat h)) = Some (conv', contact, ses)"
      "conv_messages conv' = Some (merge_message m (messages_of (conversationId m) (chat h)))" by blast
  have "chat_shown (auth h') (buddies h') (chat h') = Some (conv', contact, ses)"
    using y(1) took shown_same_contacts [of "buddies h'" "buddies h"] by simp
  moreover obtain e where "history_view conv' ses = Inl e"
    using merged_in [of m] history_throws [OF y(2)] m(5,6) by metis
  moreover have "session (auth h') \<noteq> None" using x took by (auto simp: chat_shown_def split: option.splits)
  ultimately obtain e' where "App (auth h') (buddies h') (chat h') = Inl e'"
    by (cases "myQrImageUrl (profile (the (session (auth h'))))"; cases "own_status_line (the (session (auth h')))") (auto simp: App_def)
  then show ?thesis
    by (simp add: AppErrorBoundary_def getDerivedStateFromError_def pages_after_error map_replicate_const)
qed

definition bare_text :: json where
  "bare_text = JObj [(js ''id'', JStr (js ''m1'')), (js ''conversationId'', JStr (js ''bo#0001'')),
     (js ''senderId'', JStr (js ''bo#0001'')), (js ''type'', JStr (js ''text''))]"

theorem message_without_body_ends_page_witness:
  "\<forall>vs. \<exists>h'. h' = hook_handle (HReceived 0 (json_stringify (relay_event bare_text)) []) (confirmed_hook bo_open (new_contacts\<lparr>contacts := [bo]\<rparr>)) \<and>
     pages False (App (auth h') (buddies h') (chat h') # vs) = replicate (Suc (length vs)) None"
proof
  fix vs
  let ?h = "confirmed_hook bo_open (new_contacts\<lparr>contacts := [bo]\<rparr>)"
  let ?m = "message_of bare_text []"
  have p: "json_parse (json_stringify (relay_event bare_text)) = Inr (relay_event bare_text)"
    by (rule json_roundtrip) (simp add: relay_event_def bare_text_def)
  have m: "msg_id ?m = js ''m1''" "conversationId ?m = js ''bo#0001''" "senderId ?m = js ''bo#0001''" "msg_type ?m = TText"
    "m_body ?m = Undef"
    by (simp_all add: message_of_def bare_text_def text_field_def coalesce_def nullish_def json_get_def either_name_def
      string_of_def type_of_message_def)
  have "chat_shown (auth ?h) (buddies ?h) (chat ?h) = Some (bo_conv, bo, me)"
    by (simp add: confirmed chat_shown_def shown_conversation_def shown_contact_def find_conv_def bo_open_def bo_conv_def
      bo_def signed_in_def)
  moreover have "activeConversationId (chat ?h) = Some (conversationId ?m)" by (simp add: confirmed m bo_open_def)
  ultimately show "\<exists>h'. h' = hook_handle (HReceived 0 (json_stringify (relay_event bare_text)) []) ?h \<and>
      pages False (App (auth h') (buddies h') (chat h') # vs) = replicate (Suc (length vs)) None"
    using message_without_body_ends_page [OF confirmed(1) p refl] m by simp
qed

section \<open>What the chat window sends\<close>

text \<open>C21: the chat window's messages keep the policy. In every run of the window, with files that are read while
  the user types, changes the conversation or signs out, each message it hands to the socket is a new one,
  a text message has a text, and one with a file has a name whose extension, in whatever case, is not
  blocked and a size of at most 3 MB.\<close>

theorem chat_window_policy:
  assumes "chat_runs (mounted_chat a c b) es r"
  shows "\<forall>(cmd, m) \<in> set (cr_sent r). cmd = CmdSendMessage \<and> \<not> delivered m \<and> (msg_type m = TText \<longrightarrow> (\<exists>t. m_body m = Val t \<and> t \<noteq> [])) \<and>
    (\<forall>n. mediaName m = Val n \<longrightarrow> (\<exists>k. mediaSize m = Val (JInt k) \<and> k \<le> 3145728) \<and>
      (\<forall>base ext. n = base @ 46 # ext \<and> 46 \<notin> set ext \<longrightarrow> js_lower ext \<notin> set BLOCKED_ATTACHMENT_EXTENSIONS))"
proof -
  have "chat_inv (mounted_chat a c b)" by (simp add: chat_inv_def mounted_chat_def)
  from chat_run_inv [OF assms this] show ?thesis
    by (auto simp: chat_inv_def list_all_iff message_ok_def attachment_allowed_def MAX_ATTACHMENT_BYTES_def fileExtension_dot)
qed

definition holiday :: picked_file where
  "holiday = \<lparr>file_name = js ''sea.png'', file_type = js ''image/png'', file_size = 1000\<rparr>"

text \<open>A file is picked, the user types, the file has been read: one message is sent and the new text is gone.\<close>

lemma reading_clears_the_input:
  "inputValue (cr_window (file_done k (Inr d) i now r)) = (if fst (cr_reading r ! k) then [] else inputValue (cr_window r))"
  by (simp add: file_done_def emit_def file_read_def Let_def split: prod.split)

lemma holiday_allowed: "fileExtension (js ''sea.png'') \<notin> set BLOCKED_ATTACHMENT_EXTENSIONS"
proof -
  have "js ''sea.png'' = js ''sea'' @ 46 # js ''png''" "46 \<notin> set (js ''png'')" "js_lower (js ''png'') = js ''png''"
    by (simp_all add: js_def js_lower_def)
  then show ?thesis by (simp add: fileExtension_dot BLOCKED_ATTACHMENT_EXTENSIONS_def)
qed

theorem chat_window_policy_witness:
  "\<exists>es r m. chat_runs (mounted_chat signed_in bo_open (new_contacts\<lparr>contacts := [bo]\<rparr>)) es r \<and>
     cr_sent r = [(CmdSendMessage, m)] \<and> \<not> delivered m \<and> mediaName m = Val (js ''sea.png'')"
proof -
  let ?b = "new_contacts\<lparr>contacts := [bo]\<rparr>"
  let ?r0 = "mounted_chat signed_in bo_open ?b"
  let ?es = "[PickFile (Some holiday), TypeText (js ''look''), FileDone 0 (Inr (js ''data:'')) (js ''1'') (js ''now'')]"
  have shown: "chat_shown signed_in ?b bo_open = Some (bo_conv, bo, me)"
    by (simp add: chat_shown_def shown_conversation_def shown_contact_def find_conv_def bo_open_def bo_conv_def bo_def signed_in_def)
  let ?p = "\<lparr>pend_file = holiday, pend_conv = bo_conv, pend_session = me, pend_input = []\<rparr>"
  let ?r1 = "?r0\<lparr>cr_reading := [(True, ?p)]\<rparr>"
  have r1: "chat_handle (PickFile (Some holiday)) ?r0 = ?r1"
    using holiday_allowed by (simp add: with_shown_def cr_shown_def mounted_chat_def shown pick_file_def handleAttachmentSelect_def
      MAX_ATTACHMENT_BYTES_def holiday_def new_window_def)
  let ?r2 = "on_window (inputValue_update (\<lambda>_. js ''look'')) ?r1"
  obtain c w s where read: "file_read (js ''1'') (js ''now'') ?p (Inr (js ''data:'')) (cr_window ?r2) (cr_chat ?r2) = (Some (CmdSendMessage, c), w, s)"
      "mediaName c = Val (js ''sea.png'')"
    by (simp add: file_read_def sendAttachment_def attachment_of_def base_message_def holiday_def Let_def)
  have "execute chat_enabled chat_handle ?es ?r0 = Some (chat_handle (FileDone 0 (Inr (js ''data:'')) (js ''1'') (js ''now'')) ?r2)"
    using shown by (simp add: r1 del: chat_handle.simps(5)) (simp add: cr_shown_def mounted_chat_def on_window_def)
  then have run: "chat_runs ?r0 ?es (chat_handle (FileDone 0 (Inr (js ''data:'')) (js ''1'') (js ''now'')) ?r2)" by (simp add: runs_execute)
  have "cr_sent (chat_handle (FileDone 0 (Inr (js ''data:'')) (js ''1'') (js ''now'')) ?r2) = [(CmdSendMessage, c)]"
    using read(1) by (simp add: file_done_def emit_def on_window_def mounted_chat_def)
  with chat_window_policy [OF run] run read(2) show ?thesis by (intro exI [where x = ?es]) auto
qed

section \<open>What the sidebar sends\<close>



end

