(* ===== verification/ServiceWorker.thy ===== *)
theory ServiceWorker
  imports Machines Tables JsonValues
begin

text \<open>
  apps/web/public/sw.js: the service worker. Its caches, its life from install to activate, and every
  promise of a fetch handler that is still open as a job, so that the answers of the network come back
  in any order. A request carries the parts of its parsed address; its Vary headers are not
  modelled, except \<open>*\<close>, which a cache refuses.
\<close>

section \<open>Requests, responses, caches\<close>

datatype request_mode = Navigate | NoCors | Cors | SameOrigin

record request =
  rq_method :: jstr
  rq_url :: jstr
  rq_origin :: jstr
  rq_hostname :: jstr
  rq_mode :: request_mode

text \<open>The status of an opaque response, which answers a cross-origin request without CORS, is 0.\<close>

record response =
  rs_status :: nat
  rs_vary_any :: bool
  rs_body :: jstr

definition response_ok :: "response \<Rightarrow> bool" where
  "response_ok r \<longleftrightarrow> 200 \<le> rs_status r \<and> rs_status r \<le> 299"

text \<open>What \<open>cache.put\<close> takes: it rejects a partial response and one that varies with everything.\<close>

definition putable :: "response \<Rightarrow> bool" where
  "putable r \<longleftrightarrow> rs_status r \<noteq> 206 \<and> \<not> rs_vary_any r"

type_synonym cache = "(jstr \<times> response) list"
type_synonym caches = "(jstr \<times> cache) list"

text \<open>Addresses match without their fragment.\<close>

definition cache_key :: "jstr \<Rightarrow> jstr" where
  "cache_key u = takeWhile (\<lambda>c. c \<noteq> 35) u"

definition cache_match :: "jstr \<Rightarrow> cache \<Rightarrow> response option" where
  "cache_match u c = map_option snd (entry fst c (cache_key u))"

definition cache_put :: "jstr \<Rightarrow> response \<Rightarrow> cache \<Rightarrow> cache" where
  "cache_put u r c = (if putable r then put_last fst (cache_key u, r) c else c)"

definition caches_open :: "jstr \<Rightarrow> caches \<Rightarrow> caches" where
  "caches_open n cs = (if n \<in> fst ` set cs then cs else cs @ [(n, [])])"

definition on_cache :: "jstr \<Rightarrow> (cache \<Rightarrow> cache) \<Rightarrow> caches \<Rightarrow> caches" where
  "on_cache n f cs = map (\<lambda>(m, c). (m, if m = n then f c else c)) cs"

text \<open>\<open>caches.match\<close> asks the caches in the order in which they were made.\<close>

fun caches_match :: "jstr \<Rightarrow> caches \<Rightarrow> response option" where
  "caches_match u [] = None"
| "caches_match u ((n, c) # cs) = (case cache_match u c of None \<Rightarrow> caches_match u cs | Some r \<Rightarrow> Some r)"

section \<open>The worker\<close>

definition CACHE_NAME :: jstr where
  "CACHE_NAME = js ''winkd-v3''"

definition OFFLINE_URL :: jstr where
  "OFFLINE_URL = js ''/app.html''"

definition PRECACHE_ASSETS :: "jstr list" where
  "PRECACHE_ASSETS = [js ''/app.html'', js ''/login.html'', js ''/manifest.json'']"

datatype sw_phase = Parsed | Installed | Activated | Redundant

text \<open>The cache of this version.\<close>

definition current :: "caches \<Rightarrow> cache option" where
  "current cs = map_of cs CACHE_NAME"

text \<open>The open promises: a navigation waits for the network, for the exact page in the caches, for the
  offline page; another request for the cache, then for the network with what the cache had.\<close>

datatype sw_job =
    NavFetch request
  | NavPut request response
  | NavMatch request
  | NavOffline request
  | AssetOpen request
  | AssetFetch request "response option"
  | AssetPut request response

text \<open>An answer of \<open>None\<close> is \<open>respondWith(undefined)\<close>: the browser shows a network error.\<close>

record sw =
  phase :: sw_phase
  storage :: caches
  jobs :: "sw_job list"
  answers :: "(request \<times> response option) list"

definition fresh_sw :: "caches \<Rightarrow> sw" where
  "fresh_sw cs = \<lparr>phase = Parsed, storage = cs, jobs = [], answers = []\<rparr>"

definition add_job :: "sw_job \<Rightarrow> sw \<Rightarrow> sw" where
  "add_job j s = s\<lparr>jobs := jobs s @ [j]\<rparr>"

definition respond :: "request \<Rightarrow> response option \<Rightarrow> sw \<Rightarrow> sw" where
  "respond q a s = s\<lparr>answers := answers s @ [(q, a)]\<rparr>"

text \<open>\<open>cache.addAll\<close> stores all of the answers or, when one is missing or bad, none.\<close>

definition precached :: "jstr \<Rightarrow> response option list \<Rightarrow> (cache \<Rightarrow> cache) option" where
  "precached origin rs = (case those rs of None \<Rightarrow> None
   | Some rs' \<Rightarrow> if list_all (\<lambda>r. response_ok r \<and> putable r) rs'
       then Some (fold (\<lambda>(a, r). cache_put (origin @ a) r) (zip PRECACHE_ASSETS rs')) else None)"

definition sw_install :: "jstr \<Rightarrow> response option list \<Rightarrow> sw \<Rightarrow> sw" where
  "sw_install origin rs s = (let cs = caches_open CACHE_NAME (storage s) in
     case precached origin rs of
       None \<Rightarrow> s\<lparr>storage := cs, phase := Redundant\<rparr>
     | Some f \<Rightarrow> s\<lparr>storage := on_cache CACHE_NAME f cs, phase := Installed\<rparr>)"

definition sw_activate :: "sw \<Rightarrow> sw" where
  "sw_activate s = s\<lparr>storage := filter (\<lambda>(n, c). n = CACHE_NAME) (storage s), phase := Activated\<rparr>"

definition sw_fetch :: "jstr \<Rightarrow> request \<Rightarrow> sw \<Rightarrow> sw" where
  "sw_fetch origin q s =
     (if rq_method q \<noteq> js ''GET'' then s
      else if rq_origin q \<noteq> origin \<and> \<not> js_includes (js ''imgur.com'') (rq_hostname q) then s
      else if rq_mode q = Navigate then add_job (NavFetch q) s
      else add_job (AssetOpen q) s)"

text \<open>One job goes on. \<open>net\<close> is what its request to the network, if it made one, came to: a response or
  a rejection.\<close>

definition sw_job_step :: "jstr \<Rightarrow> response option \<Rightarrow> sw_job \<Rightarrow> sw \<Rightarrow> sw" where
  "sw_job_step origin net j s = (case j of
     NavFetch q \<Rightarrow> (case net of
         None \<Rightarrow> add_job (NavMatch q) s
       | Some r \<Rightarrow> respond q (Some r) (if response_ok r then add_job (NavPut q r) s else s))
   | NavPut q r \<Rightarrow> s\<lparr>storage := on_cache CACHE_NAME (cache_put (rq_url q) r) (caches_open CACHE_NAME (storage s))\<rparr>
   | NavMatch q \<Rightarrow> (case caches_match (rq_url q) (storage s) of
         Some r \<Rightarrow> respond q (Some r) s
       | None \<Rightarrow> add_job (NavOffline q) s)
   | NavOffline q \<Rightarrow> respond q (caches_match (origin @ OFFLINE_URL) (storage s)) s
   | AssetOpen q \<Rightarrow> (let cs = caches_open CACHE_NAME (storage s);
         cached = (case current cs of None \<Rightarrow> None | Some c \<Rightarrow> cache_match (rq_url q) c);
         s' = add_job (AssetFetch q cached) (s\<lparr>storage := cs\<rparr>)
       in if cached = None then s' else respond q cached s')
   | AssetFetch q cached \<Rightarrow> (let s' = (case net of None \<Rightarrow> s
         | Some r \<Rightarrow> if response_ok r then add_job (AssetPut q r) s else s)
       in if cached = None then respond q net s' else s')
   | AssetPut q r \<Rightarrow> s\<lparr>storage := on_cache CACHE_NAME (cache_put (rq_url q) r) (storage s)\<rparr>)"

definition drop_nth :: "nat \<Rightarrow> 'a list \<Rightarrow> 'a list" where
  "drop_nth i xs = take i xs @ drop (Suc i) xs"

text \<open>What can happen: the life of the worker, a request of a page, a job that goes on. Until the worker
  is activated, an earlier version still writes to caches of other names.\<close>

datatype sw_event =
    SwInstall "response option list"
  | SwActivate
  | SwFetch request
  | SwJob nat "response option"
  | OldPut jstr jstr response

fun sw_enabled :: "sw \<Rightarrow> sw_event \<Rightarrow> bool" where
  "sw_enabled s (SwInstall rs) \<longleftrightarrow> phase s = Parsed \<and> length rs = length PRECACHE_ASSETS"
| "sw_enabled s SwActivate \<longleftrightarrow> phase s = Installed"
| "sw_enabled s (SwFetch q) \<longleftrightarrow> phase s = Activated"
| "sw_enabled s (SwJob i net) \<longleftrightarrow> i < length (jobs s)"
| "sw_enabled s (OldPut n u r) \<longleftrightarrow> phase s \<noteq> Activated \<and> n \<noteq> CACHE_NAME"

fun sw_handle :: "jstr \<Rightarrow> sw_event \<Rightarrow> sw \<Rightarrow> sw" where
  "sw_handle origin (SwInstall rs) s = sw_install origin rs s"
| "sw_handle origin SwActivate s = sw_activate s"
| "sw_handle origin (SwFetch q) s = sw_fetch origin q s"
| "sw_handle origin (SwJob i net) s = sw_job_step origin net (jobs s ! i) (s\<lparr>jobs := drop_nth i (jobs s)\<rparr>)"
| "sw_handle origin (OldPut n u r) s =
     s\<lparr>storage := on_cache n (cache_put u r) (caches_open n (storage s))\<rparr>"

abbreviation sw_run :: "jstr \<Rightarrow> sw \<Rightarrow> sw_event list \<Rightarrow> sw \<Rightarrow> bool" where
  "sw_run origin \<equiv> runs sw_enabled (sw_handle origin)"

abbreviation sw_drive :: "jstr \<Rightarrow> sw_event list \<Rightarrow> sw \<Rightarrow> sw option" where
  "sw_drive origin \<equiv> execute sw_enabled (sw_handle origin)"

section \<open>Pages without a network\<close>

text \<open>What a visit of a page is answered with when the network is away: its jobs one after the other.\<close>

definition navigation :: "jstr \<Rightarrow> jstr \<Rightarrow> request" where
  "navigation origin u = \<lparr>rq_method = js ''GET'', rq_url = u, rq_origin = origin, rq_hostname = [], rq_mode = Navigate\<rparr>"

definition offline_visit :: "jstr \<Rightarrow> sw \<Rightarrow> jstr \<Rightarrow> response option" where
  "offline_visit origin s u = (let n = length (jobs s); old = length (answers s) in
     case sw_drive origin [SwFetch (navigation origin u), SwJob n None, SwJob n None] s of None \<Rightarrow> None
     | Some s1 \<Rightarrow> if old < length (answers s1) then snd (last (answers s1))
         else (case sw_drive origin [SwJob n None] s1 of None \<Rightarrow> None | Some s2 \<Rightarrow> snd (last (answers s2))))"

text \<open>
  The first script of apps/web/app.html replaces the page by the login page beside it when the stored
  session has no token; \<open>stored\<close> is what localStorage has under winkd-auth.
\<close>

definition app_guard :: "jstr option \<Rightarrow> bool" where
  "app_guard stored = (case stored of None \<Rightarrow> True | Some t \<Rightarrow> t = [] \<or> (case json_parse t of Inl e \<Rightarrow> True
     | Inr v \<Rightarrow> \<not> js_Boolean (json_chain (json_chain (json_chain (Some v) ''state'') ''session'') ''token'')))"

text \<open>A page that is app.html, which \<open>is_app\<close> tells, goes to the login page.\<close>

definition sends_to_login :: "(response \<Rightarrow> bool) \<Rightarrow> jstr option \<Rightarrow> response \<Rightarrow> bool" where
  "sends_to_login is_app stored p \<longleftrightarrow> is_app p \<and> app_guard stored"

text \<open>A relative address: what follows the last slash of the path, and the query, are replaced.\<close>

definition beside :: "jstr \<Rightarrow> jstr \<Rightarrow> jstr" where
  "beside name u = rev (dropWhile (\<lambda>c. c \<noteq> 47) (rev (takeWhile (\<lambda>c. c \<noteq> 63 \<and> c \<noteq> 35) u))) @ name"

text \<open>A visit with the redirections that follow, to the page that stays. No value: they never end.\<close>

partial_function (option) browse ::
  "(jstr \<Rightarrow> response option) \<Rightarrow> (response \<Rightarrow> bool) \<Rightarrow> jstr \<Rightarrow> (jstr \<times> response option) option" where
  "browse serve guarded u = (case serve u of None \<Rightarrow> Some (u, None)
   | Some p \<Rightarrow> if guarded p then browse serve guarded (beside (js ''login.html'') u) else Some (u, Some p))"

section \<open>Notifications\<close>

text \<open>The options of \<open>showNotification\<close> that the push decides.\<close>

record notification =
  nt_title :: json
  nt_body :: json
  nt_tag :: json
  nt_url :: json
  nt_contactId :: "json option"

definition js_or :: "json option \<Rightarrow> json \<Rightarrow> json" where
  "js_or v d = (case v of Some x \<Rightarrow> if js_Boolean (Some x) then x else d | None \<Rightarrow> d)"

text \<open>\<open>event.data\<close> as a text. Reading a property of \<open>null\<close> throws, outside the try block.\<close>

definition push_data :: "jstr \<Rightarrow> json" where
  "push_data t = (case json_parse t of Inr v \<Rightarrow> v
   | Inl e \<Rightarrow> JObj [(js ''title'', JStr (js ''Winkd'')), (js ''body'', JStr t)])"

definition on_push :: "jstr option \<Rightarrow> error + notification option" where
  "on_push d = (case d of None \<Rightarrow> Inr None
   | Some t \<Rightarrow> (let data = push_data t in if data = JNull then Inl TypeErr else
       Inr (Some \<lparr>nt_title = js_or (json_get data (js ''title'')) (JStr (js ''Winkd Messenger'')),
         nt_body = js_or (json_get data (js ''body'')) (JStr (js ''New message'')),
         nt_tag = js_or (json_get data (js ''tag'')) (JStr (js ''winkd-message'')),
         nt_url = js_or (json_get data (js ''url'')) (JStr (js ''/'')),
         nt_contactId = json_get data (js ''contactId'')\<rparr>)))"

datatype click_effect = Dismissed | FocusClient nat | OpenWindow jstr | NoWindow

text \<open>\<open>notification.data?.url || '/'\<close>: other code can show a notification without data.\<close>

definition click_target :: "json option \<Rightarrow> jstr" where
  "click_target u = js_String (js_or u (JStr (js ''/'')))"

fun find_client :: "nat \<Rightarrow> jstr \<Rightarrow> (jstr \<times> bool) list \<Rightarrow> nat option" where
  "find_client i origin [] = None"
| "find_client i origin ((u, can_focus) # ws) =
     (if js_includes origin u \<and> can_focus then Some i else find_client (Suc i) origin ws)"

definition on_notification_click :: "jstr \<Rightarrow> jstr \<Rightarrow> json option \<Rightarrow> (jstr \<times> bool) list \<Rightarrow> bool \<Rightarrow> click_effect" where
  "on_notification_click origin action u windows can_open =
     (if action = js ''dismiss'' then Dismissed
      else (case find_client 0 origin windows of
          Some i \<Rightarrow> FocusClient i
        | None \<Rightarrow> if can_open then OpenWindow (click_target u) else NoWindow))"

section \<open>Background sync\<close>

text \<open>The stub logs one line and sends nothing.\<close>

definition flushMessageQueue :: "jstr list" where
  "flushMessageQueue = [js ''[Winkd SW] Flushing queued messages after reconnect'']"

definition on_sync :: "jstr \<Rightarrow> jstr list" where
  "on_sync tag = (if tag = js ''winkd-send-queued'' then flushMessageQueue else [])"

section \<open>Caches\<close>

lemma cache_match_put: "putable r \<Longrightarrow>
    cache_match u (cache_put v r c) = (if cache_key u = cache_key v then Some r else cache_match u c)"
  by (simp add: cache_match_def cache_put_def entry_put_last)

lemma cache_match_put_mono: "cache_match u c \<noteq> None \<Longrightarrow> cache_match u (cache_put v r c) \<noteq> None"
  by (cases "putable r") (simp_all add: cache_match_put, simp add: cache_put_def)

lemma current_None: "current cs = None \<longleftrightarrow> CACHE_NAME \<notin> fst ` set cs"
  by (simp add: current_def map_of_eq_None_iff)

lemma current_open: "current (caches_open n cs) =
    (if current cs = None \<and> n = CACHE_NAME then Some [] else current cs)"
  using current_None [of cs] by (auto simp: caches_open_def) (auto simp: current_def map_add_def split: option.split)

lemma current_on_cache: "current (on_cache n f cs) = (if n = CACHE_NAME then map_option f (current cs) else current cs)"
  by (induction cs) (auto simp: current_def on_cache_def)

lemma current_filter: "current (filter (\<lambda>(n, c). n = CACHE_NAME) cs) = current cs"
  by (induction cs) (auto simp: current_def)

lemma current_only: "map fst cs = [CACHE_NAME] \<Longrightarrow> current cs = Some c \<longleftrightarrow> cs = [(CACHE_NAME, c)]"
  by (auto simp: current_def map_eq_Cons_conv)

lemma names_on_cache [simp]: "map fst (on_cache n f cs) = map fst cs"
  by (induction cs) (auto simp: on_cache_def)

lemma names_open: "map fst (caches_open n cs) = (if n \<in> fst ` set cs then map fst cs else map fst cs @ [n])"
  by (simp add: caches_open_def)

section \<open>The invariant of all runs\<close>

text \<open>Only good responses are kept under the current name, each asset is there from installation on, an
  activated worker has no other cache, and no navigation was left without an answer.\<close>

definition good_cache :: "cache \<Rightarrow> bool" where
  "good_cache c \<longleftrightarrow> list_all (\<lambda>(u, r). response_ok r) c"

fun job_ok :: "sw_job \<Rightarrow> bool" where
  "job_ok (NavPut q r) \<longleftrightarrow> response_ok r"
| "job_ok (AssetPut q r) \<longleftrightarrow> response_ok r"
| "job_ok (AssetFetch q cached) \<longleftrightarrow> rq_mode q \<noteq> Navigate \<and> (\<forall>r. cached = Some r \<longrightarrow> response_ok r)"
| "job_ok (AssetOpen q) \<longleftrightarrow> rq_mode q \<noteq> Navigate"
| "job_ok (NavFetch q) \<longleftrightarrow> rq_mode q = Navigate"
| "job_ok (NavMatch q) \<longleftrightarrow> rq_mode q = Navigate"
| "job_ok (NavOffline q) \<longleftrightarrow> rq_mode q = Navigate"

definition has_assets :: "jstr \<Rightarrow> cache \<Rightarrow> bool" where
  "has_assets origin c \<longleftrightarrow> list_all (\<lambda>a. cache_match (origin @ a) c \<noteq> None) PRECACHE_ASSETS"

definition storage_ok :: "jstr \<Rightarrow> sw_phase \<Rightarrow> caches \<Rightarrow> bool" where
  "storage_ok origin ph cs \<longleftrightarrow> distinct (map fst cs) \<and>
     (\<forall>c. current cs = Some c \<longrightarrow> good_cache c) \<and>
     (ph = Installed \<or> ph = Activated \<longrightarrow> (\<exists>c. current cs = Some c \<and> has_assets origin c)) \<and>
     (ph = Activated \<longrightarrow> map fst cs = [CACHE_NAME])"

definition sw_inv :: "jstr \<Rightarrow> sw \<Rightarrow> bool" where
  "sw_inv origin s \<longleftrightarrow> storage_ok origin (phase s) (storage s) \<and>
     list_all job_ok (jobs s) \<and> (phase s \<noteq> Activated \<longrightarrow> jobs s = []) \<and>
     list_all (\<lambda>(q, a). rq_mode q = Navigate \<longrightarrow> a \<noteq> None) (answers s)"

lemma good_cache_put: "good_cache c \<Longrightarrow> response_ok r \<Longrightarrow> good_cache (cache_put u r c)"
  by (auto simp: good_cache_def cache_put_def put_last_def list_all_iff)

lemma good_cache_match: "good_cache c \<Longrightarrow> cache_match u c = Some r \<Longrightarrow> response_ok r"
  by (induction c) (auto simp: good_cache_def cache_match_def split: if_splits)

lemma has_assets_put: "has_assets origin c \<Longrightarrow> has_assets origin (cache_put u r c)"
  unfolding has_assets_def list_all_iff using cache_match_put_mono by blast

lemma storage_ok_open: "storage_ok origin ph cs \<Longrightarrow> storage_ok origin ph (caches_open CACHE_NAME cs)"
  using current_None [of cs] by (auto simp: storage_ok_def names_open current_open good_cache_def)

lemma storage_ok_put:
  "storage_ok origin ph cs \<Longrightarrow> response_ok r \<Longrightarrow> storage_ok origin ph (on_cache CACHE_NAME (cache_put u r) cs)"
  by (auto simp: storage_ok_def current_on_cache good_cache_put has_assets_put)

lemma storage_ok_other:
  "storage_ok origin ph cs \<Longrightarrow> ph \<noteq> Activated \<Longrightarrow> n \<noteq> CACHE_NAME \<Longrightarrow>
    storage_ok origin ph (on_cache n f (caches_open n cs))"
  by (auto simp: storage_ok_def current_on_cache current_open names_open)

lemma storage_ok_activate:
  assumes "storage_ok origin Installed cs"
  shows "storage_ok origin Activated (filter (\<lambda>(n, c). n = CACHE_NAME) cs)"
proof -
  have names: "map fst (filter (\<lambda>(n, c). n = CACHE_NAME) ds) = (if CACHE_NAME \<in> fst ` set ds then [CACHE_NAME] else [])"
    if "distinct (map fst ds)" for ds :: caches
    using that by (induction ds) (auto simp: image_iff)
  have "CACHE_NAME \<in> fst ` set cs" using assms current_None [of cs] by (auto simp: storage_ok_def)
  with assms show ?thesis by (simp add: storage_ok_def current_filter names)
qed

lemma precached_puts:
  "precached origin rs = Some f \<Longrightarrow> good_cache c \<Longrightarrow> length rs = length PRECACHE_ASSETS \<Longrightarrow>
    good_cache (f c) \<and> has_assets origin (f c)"
  by (auto simp: precached_def PRECACHE_ASSETS_def length_Suc_conv has_assets_def good_cache_put
    cache_match_put_mono cache_match_put split: option.splits if_splits)

lemma storage_ok_install:
  assumes "storage_ok origin Parsed cs" and "length rs = length PRECACHE_ASSETS" and "precached origin rs = Some f"
  shows "storage_ok origin Installed (on_cache CACHE_NAME f (caches_open CACHE_NAME cs))"
proof -
  from storage_ok_open [OF assms(1)] obtain c where
      "current (caches_open CACHE_NAME cs) = Some c" "good_cache c"
    by (cases "current cs") (auto simp: storage_ok_def current_open)
  with precached_puts [OF assms(3) _ assms(2)] storage_ok_open [OF assms(1)] show ?thesis
    by (simp add: storage_ok_def current_on_cache)
qed

lemma sw_inv_fresh: "distinct (map fst cs) \<Longrightarrow> CACHE_NAME \<notin> fst ` set cs \<Longrightarrow> sw_inv origin (fresh_sw cs)"
  using current_None [of cs] by (simp add: sw_inv_def storage_ok_def fresh_sw_def)

lemma sw_inv_add_job: "sw_inv origin s \<Longrightarrow> phase s = Activated \<Longrightarrow> job_ok j \<Longrightarrow> sw_inv origin (add_job j s)"
  by (simp add: sw_inv_def add_job_def)

lemma sw_inv_respond:
  "sw_inv origin s \<Longrightarrow> (rq_mode q = Navigate \<Longrightarrow> a \<noteq> None) \<Longrightarrow> sw_inv origin (respond q a s)"
  by (simp add: sw_inv_def respond_def)

lemma sw_inv_storage: "sw_inv origin s \<Longrightarrow> storage_ok origin (phase s) cs \<Longrightarrow> sw_inv origin (s\<lparr>storage := cs\<rparr>)"
  by (simp add: sw_inv_def)

lemma sw_inv_drop: "sw_inv origin s \<Longrightarrow> sw_inv origin (s\<lparr>jobs := drop_nth i (jobs s)\<rparr>)"
  by (auto simp: sw_inv_def drop_nth_def list_all_iff dest: in_set_takeD in_set_dropD)

lemma offline_page_cached:
  assumes "sw_inv origin s" and "phase s = Activated"
  shows "caches_match (origin @ OFFLINE_URL) (storage s) \<noteq> None"
proof -
  from assms obtain c where "storage s = [(CACHE_NAME, c)]" "has_assets origin c"
    by (auto simp: sw_inv_def storage_ok_def current_only)
  then show ?thesis by (auto simp: has_assets_def PRECACHE_ASSETS_def OFFLINE_URL_def split: option.split)
qed

lemma phase_simps [simp]:
  "phase (add_job j s) = phase s" "phase (respond q a s) = phase s"
  "storage (add_job j s) = storage s" "storage (respond q a s) = storage s"
  by (simp_all add: add_job_def respond_def)

lemma sw_inv_job_step:
  assumes inv: "sw_inv origin s" and act: "phase s = Activated" and j: "job_ok j"
  shows "sw_inv origin (sw_job_step origin net j s)"
proof -
  note intros = sw_inv_add_job sw_inv_respond sw_inv_storage storage_ok_open storage_ok_put
  have st: "storage_ok origin (phase s) (storage s)" using inv by (simp add: sw_inv_def)
  have good: "response_ok r" if "current (caches_open CACHE_NAME (storage s)) = Some c" "cache_match u c = Some r"
    for c u r
    using storage_ok_open [OF st] that good_cache_match by (auto simp: storage_ok_def)
  show ?thesis
    using inv act j st offline_page_cached [OF inv act]
    by (cases j) (auto simp: sw_job_step_def Let_def split: option.splits intro!: intros intro: good)
qed

lemma sw_inv_handle:
  assumes "sw_inv origin s" and "sw_enabled s e"
  shows "sw_inv origin (sw_handle origin e s)"
proof (cases e)
  case (SwInstall rs)
  with assms show ?thesis
    by (auto simp: sw_inv_def sw_install_def Let_def storage_ok_install split: option.split)
      (use storage_ok_open [of origin Parsed "storage s"] in \<open>simp add: storage_ok_def\<close>)
next
  case (SwFetch q)
  with assms show ?thesis by (simp add: sw_fetch_def sw_inv_add_job)
next
  case (SwJob i net)
  then have "phase s = Activated" "job_ok (jobs s ! i)" using assms by (auto simp: sw_inv_def list_all_length)
  with SwJob assms show ?thesis by (simp add: sw_inv_job_step sw_inv_drop)
next
  case (OldPut n u r)
  with assms show ?thesis by (simp add: sw_inv_def storage_ok_other)
qed (use assms in \<open>simp add: sw_inv_def sw_activate_def storage_ok_activate\<close>)

interpretation sw_machine: machine_invariant sw_enabled "sw_handle origin" "sw_inv origin" for origin
  by unfold_locales (rule sw_inv_handle)

lemmas sw_run_inv = sw_machine.run_keeps

end
