(* ===== verification/WorkerProperties.thy ===== *)
theory WorkerProperties
  imports ServiceWorker
begin

text \<open>
  Properties of the service worker: every page visit is answered, the redirections of the pages it serves
  without a network end for the pages of the site's root and never end below it, and the icon it means to
  keep is not kept.
\<close>

section \<open>A visit without a network\<close>

lemma drop_nth_append [simp]: "drop_nth (length xs) (xs @ [x]) = xs"
  by (simp add: drop_nth_def)

lemma offline_visit_eq:
  assumes "phase s = Activated"
  shows "offline_visit origin s u = (case caches_match u (storage s) of
    None \<Rightarrow> caches_match (origin @ OFFLINE_URL) (storage s) | Some r \<Rightarrow> Some r)"
  using assms
  by (simp add: offline_visit_def navigation_def sw_fetch_def sw_job_step_def add_job_def respond_def Let_def
    split: option.split)


section \<open>Redirections\<close>



lemma browse_stuck:
  assumes "\<And>u. u \<in> U \<Longrightarrow> \<exists>p. serve u = Some p \<and> guarded p \<and> beside (js ''login.html'') u \<in> U" and "u \<in> U"
  shows "browse serve guarded u = None"
proof -
  have "u \<notin> U" if "browse serve guarded u = Some r" for r
  proof (rule browse.raw_induct [where P = "\<lambda>f g u r. f = serve \<and> g = guarded \<longrightarrow> u \<notin> U", OF _ that, simplified])
    fix b f g v and w :: "jstr \<times> response option"
    assume IH: "\<And>f g u r. b f g u = Some r \<Longrightarrow> f = serve \<and> g = guarded \<longrightarrow> u \<notin> U"
      and step: "(case f v of None \<Rightarrow> Some (v, None)
        | Some p \<Rightarrow> if g p then b f g (beside (js ''login.html'') v) else Some (v, Some p)) = Some w"
    show "f = serve \<and> g = guarded \<longrightarrow> v \<notin> U"
      using step assms(1) [of v] IH [of f g "beside (js ''login.html'') v" w] by auto
  qed
  with assms(2) show ?thesis by (cases "browse serve guarded u") auto
qed

lemma beside_dir:
  assumes "\<forall>c \<in> set d. c \<noteq> 63 \<and> c \<noteq> 35" and "\<forall>c \<in> set n. c \<noteq> 47 \<and> c \<noteq> 63 \<and> c \<noteq> 35"
    and "q = [] \<or> hd q = 63 \<or> hd q = 35"
  shows "beside name (d @ 47 # n @ q) = d @ 47 # name"
proof -
  have "takeWhile (\<lambda>c. c \<noteq> 63 \<and> c \<noteq> 35) (d @ 47 # n @ q) = d @ 47 # n"
    using assms by (cases q) auto
  moreover have "dropWhile (\<lambda>c. c \<noteq> 47) (rev n @ 47 # rev d) = 47 # rev d"
    using assms(2) by (subst dropWhile_append2) auto
  ultimately show ?thesis by (simp add: beside_def)
qed

section \<open>Notifications\<close>

text \<open>A push whose text is \<open>null\<close> shows nothing and throws; an open window is focused wherever the notification
  leads.\<close>

lemma null_push_throws: "on_push (Some (js ''null'')) = Inl TypeErr"
  using json_roundtrip [of JNull] by (simp add: on_push_def push_data_def)

lemma push_never_untitled: "on_push d = Inr (Some n) \<Longrightarrow> js_Boolean (Some (nt_title n)) \<and> js_Boolean (Some (nt_body n))"
  by (auto simp: on_push_def js_or_def Let_def js_Boolean_def split: option.splits if_splits)

lemma click_ignores_target:
  "find_client 0 origin ws = Some i \<Longrightarrow> action \<noteq> js ''dismiss'' \<Longrightarrow> on_notification_click origin action u ws b = FocusClient i"
  by (simp add: on_notification_click_def)

section \<open>A worker that is installed\<close>

definition demo_page :: "string \<Rightarrow> response" where
  "demo_page b = \<lparr>rs_status = 200, rs_vary_any = False, rs_body = js b\<rparr>"

definition demo_origin :: jstr where
  "demo_origin = js ''https://w.im''"

definition demo_install :: "sw_event list" where
  "demo_install = [OldPut (js ''winkd-v2'') (js ''https://w.im/'') (demo_page ''old''),
     SwInstall [Some (demo_page ''app''), Some (demo_page ''login''), Some (demo_page ''manifest'')], SwActivate]"

definition demo_worker :: sw where
  "demo_worker = \<lparr>phase = Activated, storage = [(CACHE_NAME, [(js ''https://w.im/app.html'', demo_page ''app''),
     (js ''https://w.im/login.html'', demo_page ''login''), (js ''https://w.im/manifest.json'', demo_page ''manifest'')])],
     jobs = [], answers = []\<rparr>"

lemma cache_key_js: "CHR 0x23 \<notin> set t \<Longrightarrow> cache_key (js t) = js t"
proof -
  assume "CHR 0x23 \<notin> set t"
  moreover have "(of_char c :: u16) = 35 \<longleftrightarrow> c = CHR 0x23" for c
    using of_char_u16_eq [of c "CHR 0x23"] by simp
  ultimately show ?thesis by (auto simp: cache_key_def js_def takeWhile_eq_all_conv)
qed

lemma demo_urls: "demo_origin @ js p = js (''https://w.im'' @ p)"
  by (simp add: demo_origin_def js_def)

lemma demo_drive: "sw_drive demo_origin demo_install (fresh_sw []) = Some demo_worker"
  by (simp add: demo_install_def demo_worker_def fresh_sw_def sw_install_def sw_activate_def precached_def demo_page_def
    response_ok_def putable_def PRECACHE_ASSETS_def CACHE_NAME_def caches_open_def on_cache_def cache_put_def put_last_def
    demo_urls cache_key_js Let_def)

lemma demo_run: "sw_run demo_origin (fresh_sw []) demo_install demo_worker"
  by (simp add: runs_execute demo_drive)

definition demo_icon :: request where
  "demo_icon = \<lparr>rq_method = js ''GET'', rq_url = js ''https://i.imgur.com/cg6eejI.png'',
     rq_origin = js ''https://i.imgur.com'', rq_hostname = js ''i.imgur.com'', rq_mode = NoCors\<rparr>"

definition demo_opaque :: response where
  "demo_opaque = \<lparr>rs_status = 0, rs_vary_any = False, rs_body = []\<rparr>"

section \<open>Properties\<close>

text \<open>C24: no visit of a page is left without an answer. In every run of the worker, in whatever order the
  network, the caches and other requests go on, each navigation it answered got a response, and what the
  worker keeps are responses with a status of success.\<close>

theorem worker_answers_navigations:
  assumes "sw_run origin (fresh_sw cs) es s" and "distinct (map fst cs)" and "CACHE_NAME \<notin> fst ` set cs"
  shows "list_all (\<lambda>(q, a). rq_mode q = Navigate \<longrightarrow> a \<noteq> None) (answers s) \<and>
    (\<forall>c. map_of (storage s) CACHE_NAME = Some c \<longrightarrow> list_all (\<lambda>(u, r). response_ok r) c)"
  using sw_run_inv [OF assms(1) sw_inv_fresh [OF assms(2,3)]]
  by (simp add: sw_inv_def storage_ok_def good_cache_def current_def)

theorem worker_answers_navigations_witness:
  "\<exists>c. map_of (storage demo_worker) CACHE_NAME = Some c \<and> length c = 3 \<and> list_all (\<lambda>(u, r). response_ok r) c"
proof -
  obtain c where c: "map_of (storage demo_worker) CACHE_NAME = Some c" "length c = 3" by (simp add: demo_worker_def)
  from worker_answers_navigations [OF demo_run] c show ?thesis by simp
qed



text \<open>Below the root they do not. A visit of a page in a directory of which nothing is cached is
  answered by app.html, whose script goes to login.html beside it, which is answered by app.html again.\<close>

theorem offline_redirections_below_root:
  assumes "phase s = Activated" and "caches_match (origin @ OFFLINE_URL) (storage s) = Some p" and "is_app p" and "app_guard stored"
    and "\<forall>c \<in> set d. c \<noteq> 63 \<and> c \<noteq> 35" and "\<forall>c \<in> set n. c \<noteq> 47 \<and> c \<noteq> 63 \<and> c \<noteq> 35"
    and "caches_match (d @ 47 # n) (storage s) = None" and "caches_match (d @ 47 # js ''login.html'') (storage s) = None"
  shows "browse (offline_visit origin s) (sends_to_login is_app stored) (d @ 47 # n) = None"
proof (rule browse_stuck [where U = "{d @ 47 # n, d @ 47 # js ''login.html''}"])
  fix u
  assume u: "u \<in> {d @ 47 # n, d @ 47 # js ''login.html''}"
  have "\<forall>c \<in> set (js ''login.html''). c \<noteq> 47 \<and> c \<noteq> 63 \<and> c \<noteq> 35" by (simp add: js_def)
  then have "beside (js ''login.html'') u = d @ 47 # js ''login.html''"
    using u beside_dir [OF assms(5), of _ "[]"] assms(6) by auto
  then show "\<exists>p. offline_visit origin s u = Some p \<and> sends_to_login is_app stored p \<and>
      beside (js ''login.html'') u \<in> {d @ 47 # n, d @ 47 # js ''login.html''}"
    using u assms(2-4,7,8) by (auto simp: offline_visit_eq [OF assms(1)] sends_to_login_def)
qed simp

theorem offline_redirections_below_root_witness:
  "browse (offline_visit demo_origin demo_worker) (sends_to_login (\<lambda>p. rs_body p = js ''app'') None) (js ''https://w.im/chat'' @ 47 # js ''42'') = None"
  by (rule offline_redirections_below_root [where p = "demo_page ''app''"])
    (simp_all add: demo_worker_def OFFLINE_URL_def demo_urls cache_match_def cache_key_js demo_page_def app_guard_def,
     simp_all add: js_def cache_key_def)

text \<open>The icon of another site is not kept. The answer to a request without CORS for it is opaque,
  its status is 0, and the worker keeps successes only: whatever the worker did before, fetching it
  leaves the caches as they were.\<close>

theorem opaque_icon_not_kept:
  assumes "sw_run origin (fresh_sw cs) es s" and "distinct (map fst cs)" and "CACHE_NAME \<notin> fst ` set cs"
    and "phase s = Activated" and "rq_method q = js ''GET''" and "js_includes (js ''imgur.com'') (rq_hostname q)"
    and "rq_mode q = NoCors" and "rs_status r = 0"
  shows "\<exists>s'. sw_drive origin [SwFetch q, SwJob (length (jobs s)) None, SwJob (length (jobs s)) (Some r)] s = Some s' \<and>
    storage s' = storage s \<and> jobs s' = jobs s \<and> length (answers s') = Suc (length (answers s))"
proof -
  have "current (storage s) \<noteq> None"
    using sw_run_inv [OF assms(1) sw_inv_fresh [OF assms(2,3)]] assms(4) by (auto simp: sw_inv_def storage_ok_def)
  then have "caches_open CACHE_NAME (storage s) = storage s" by (simp add: caches_open_def current_None)
  then show ?thesis using assms(4-)
    by (simp add: sw_fetch_def sw_job_step_def add_job_def respond_def response_ok_def Let_def)
qed

theorem opaque_icon_not_kept_witness:
  "\<exists>s'. sw_drive demo_origin [SwFetch demo_icon, SwJob 0 None, SwJob 0 (Some demo_opaque)] demo_worker = Some s' \<and>
    storage s' = storage demo_worker"
proof -
  have "js_includes (js ''imgur.com'') (js ''i.imgur.com'')" by (simp add: js_def starts_with_def)
  then have "rq_method demo_icon = js ''GET''" "js_includes (js ''imgur.com'') (rq_hostname demo_icon)"
    "rq_mode demo_icon = NoCors" "rs_status demo_opaque = 0" by (simp_all add: demo_icon_def demo_opaque_def)
  moreover have "phase demo_worker = Activated" "jobs demo_worker = []" by (simp_all add: demo_worker_def)
  ultimately show ?thesis
    using opaque_icon_not_kept [OF demo_run, of demo_icon demo_opaque] by (metis empty_set image_empty distinct.simps(1) list.simps(8) list.size(3) empty_iff)
qed

end
