(* ===== verification/ChatView.thy ===== *)
theory ChatView
  imports ChatRuns AppView EmojiPicker
begin

text \<open>
  What components/ChatWindow.tsx shows for an open conversation, from the contact's header to the status bar, with the
  emoji picker over it. A component that throws throws for the whole window. The events of theory ChatRuns are
  the controls shown here (\<open>events_are_shown\<close>).
\<close>

definition FILE_ACCEPT :: "jstr list" where
  "FILE_ACCEPT = map js [''pdf'', ''doc'', ''docx'', ''xls'', ''xlsx'', ''ppt'', ''pptx'', ''odt'', ''ods'', ''odp'', ''csv'',
     ''txt'', ''rtf'', ''png'', ''jpg'', ''jpeg'', ''gif'', ''webp'', ''mp4'', ''webm'', ''mp3'', ''wav'', ''zip'']"

datatype chat_control =
    ContactHeader avatar jstr "rich_node list option" | BlockButton json
  | ToolButton jstr toolbar_action
  | Greeting jstr | HistoryBubble bubble
  | OwnLine avatar jstr "rich_node list option"
  | FileInput "jstr list" | PhotoInput | EmojiPopup "picker_control list"
  | MessageField jstr jstr | PreviewBox "rich_node list" | PhotoButton | FileButton | SendText bool | NoteLine jstr
  | StatusLine "jstr list"

definition mood_nodes :: "jstr \<Rightarrow> rich_node list option" where
  "mood_nodes m = (if m = [] then None else Some (renderRichEmojiText m))"

definition contact_header :: "(jstr \<Rightarrow> jstr) \<Rightarrow> Contact \<Rightarrow> error + chat_control list" where
  "contact_header up contact = bindR (Avatar up (displayName contact) (avatarData contact) (Some (status contact))) (\<lambda>a.
     Inr [ContactHeader a (displayName contact) (mood_nodes (moodMessage contact)), BlockButton (block_command contact)])"

definition tool_buttons :: "chat_control list" where
  "tool_buttons = map (\<lambda>(l, a, v). ToolButton l a) WinkdToolbar"

definition history_part :: "Conversation \<Rightarrow> Contact \<Rightarrow> Session \<Rightarrow> error + chat_control list" where
  "history_part conv contact ses = bindR (history_view conv ses) (\<lambda>bs. Inr (
     (if bs = [] then [Greeting (js ''Say hi to '' @ displayName contact @ js ''! '' @ [0xD83D, 0xDC4B])] else []) @
     map HistoryBubble bs))"

definition own_line :: "(jstr \<Rightarrow> jstr) \<Rightarrow> Session \<Rightarrow> error + chat_control list" where
  "own_line up ses = (let me = profile ses in
     bindR (Avatar up (displayName me) (avatarData me) (Some (status me))) (\<lambda>a.
       Inr [OwnLine a (displayName me) (mood_nodes (moodMessage me))]))"

definition emoji_popup :: "picker \<Rightarrow> Session \<Rightarrow> chat_window \<Rightarrow> chat_control list" where
  "emoji_popup pick ses w = (if showEmojiPicker w then [EmojiPopup (picker_view True (Some (supporter ses)) pick)] else [])"

definition input_row :: "Contact \<Rightarrow> chat_window \<Rightarrow> chat_control list" where
  "input_row contact w = [MessageField (inputValue w) (js ''Message '' @ displayName contact @ [0x2026])] @
     (case preview_shown w of None \<Rightarrow> [] | Some t \<Rightarrow> [PreviewBox (renderRichEmojiText t)]) @
     [PhotoButton, FileButton, SendText (can_send w), NoteLine (attachment_note w)]"

text \<open>The window and whether it has the class that shakes it.\<close>

definition chat_view :: "(jstr \<Rightarrow> jstr) \<Rightarrow> picker \<Rightarrow> chat_window \<Rightarrow> Conversation \<Rightarrow> Contact \<Rightarrow> Session \<Rightarrow>
    error + bool \<times> chat_control list" where
  "chat_view up pick w conv contact ses =
     bindR (contact_header up contact) (\<lambda>header.
     bindR (history_part conv contact ses) (\<lambda>history.
     bindR (own_line up ses) (\<lambda>me.
     Inr (isShaking conv = Some True, header @ tool_buttons @ history @ me @ [FileInput FILE_ACCEPT, PhotoInput] @
       emoji_popup pick ses w @ input_row contact w @ [StatusLine chat_status_bar]))))"

section \<open>When the window can be shown\<close>

lemma header_shown: "\<exists>a. contact_header up contact =
    Inr [ContactHeader a (displayName contact) (mood_nodes (moodMessage contact)), BlockButton (block_command contact)]"
  using avatar_shown [of up "displayName contact" "avatarData contact" "Some (status contact)"] by (auto simp: contact_header_def)

lemma own_line_shown: "\<exists>a. own_line up ses = Inr [OwnLine a (displayName (profile ses)) (mood_nodes (moodMessage (profile ses)))]"
  using avatar_shown [of up "displayName (profile ses)" "avatarData (profile ses)" "Some (status (profile ses))"]
  by (auto simp: own_line_def Let_def)

text \<open>Nothing but a message of the history keeps the window from being shown.\<close>

lemma chat_view_throws: "chat_view up pick w conv contact ses = Inl e \<longleftrightarrow> history_view conv ses = Inl e"
  using header_shown [of up contact] own_line_shown [of up ses]
  by (cases "history_view conv ses") (auto simp: chat_view_def history_part_def)

lemma chat_view_parts:
  assumes "chat_view up pick w conv contact ses = Inr (b, cs)"
  obtains a bs a' where "history_view conv ses = Inr bs"
    "set cs = {ContactHeader a (displayName contact) (mood_nodes (moodMessage contact)), BlockButton (block_command contact)} \<union>
      set tool_buttons \<union> (if bs = [] then {Greeting (js ''Say hi to '' @ displayName contact @ js ''! '' @ [0xD83D, 0xDC4B])} else {}) \<union>
      HistoryBubble ` set bs \<union> {OwnLine a' (displayName (profile ses)) (mood_nodes (moodMessage (profile ses))),
      FileInput FILE_ACCEPT, PhotoInput, StatusLine chat_status_bar} \<union> set (emoji_popup pick ses w) \<union> set (input_row contact w)"
proof -
  obtain a where a: "contact_header up contact = Inr [ContactHeader a (displayName contact) (mood_nodes (moodMessage contact)),
      BlockButton (block_command contact)]"
    using header_shown by metis
  obtain a' where a': "own_line up ses = Inr [OwnLine a' (displayName (profile ses)) (mood_nodes (moodMessage (profile ses)))]"
    using own_line_shown by metis
  show thesis
  proof (cases "history_view conv ses")
    case (Inr bs)
    with assms a a' show thesis by (intro that [of bs a a']) (auto simp: chat_view_def history_part_def)
  qed (use assms a in \<open>simp add: chat_view_def history_part_def\<close>)
qed

text \<open>What can be done is what is shown.\<close>

lemma events_are_shown:
  assumes "cr_shown r = Some (conv, contact, ses)" and "chat_view up pick (cr_window r) conv contact ses = Inr (b, cs)"
  shows "chat_enabled r (ClickSend i now) \<longleftrightarrow> SendText True \<in> set cs"
    "chat_enabled r (PickEmoji t) \<longleftrightarrow> (\<exists>v. EmojiPopup v \<in> set cs)"
    "chat_enabled r (ClickTool a i now) \<longleftrightarrow> (\<exists>l. ToolButton l a \<in> set cs)"
    "chat_enabled r (TypeText t) \<longleftrightarrow> (\<exists>p. MessageField (inputValue (cr_window r)) p \<in> set cs)"
    "chat_enabled r ClickBlockUser \<longleftrightarrow> BlockButton (block_command contact) \<in> set cs"
proof -
  note parts = tool_buttons_def emoji_popup_def input_row_def
  obtain av bs av' where cs: "set cs = {ContactHeader av (displayName contact) (mood_nodes (moodMessage contact)), BlockButton (block_command contact)} \<union>
      set tool_buttons \<union> (if bs = [] then {Greeting (js ''Say hi to '' @ displayName contact @ js ''! '' @ [0xD83D, 0xDC4B])} else {}) \<union>
      HistoryBubble ` set bs \<union> {OwnLine av' (displayName (profile ses)) (mood_nodes (moodMessage (profile ses))),
      FileInput FILE_ACCEPT, PhotoInput, StatusLine chat_status_bar} \<union> set (emoji_popup pick ses (cr_window r)) \<union> set (input_row contact (cr_window r))"
    by (rule chat_view_parts [OF assms(2)])
  show "chat_enabled r (ClickSend i now) \<longleftrightarrow> SendText True \<in> set cs"
    unfolding cs using assms(1) by (auto simp: parts split: option.splits if_splits)
  show "chat_enabled r (PickEmoji t) \<longleftrightarrow> (\<exists>v. EmojiPopup v \<in> set cs)"
    unfolding cs using assms(1) by (auto simp: parts split: option.splits if_splits)
  have "\<exists>l v. (l, a, v) \<in> set WinkdToolbar" by (cases a) (auto simp: WinkdToolbar_def)
  then obtain l where "ToolButton l a \<in> set tool_buttons" by (force simp: tool_buttons_def)
  then have "ToolButton l a \<in> set cs" by (simp add: cs)
  then show "chat_enabled r (ClickTool a i now) \<longleftrightarrow> (\<exists>l. ToolButton l a \<in> set cs)"
    using assms(1) by auto
  show "chat_enabled r (TypeText t) \<longleftrightarrow> (\<exists>p. MessageField (inputValue (cr_window r)) p \<in> set cs)"
    unfolding cs using assms(1) by (auto simp: input_row_def)
  show "chat_enabled r ClickBlockUser \<longleftrightarrow> BlockButton (block_command contact) \<in> set cs"
    unfolding cs using assms(1) by simp
qed

text \<open>The file dialog offers no kind of file that the policy refuses.\<close>

lemma accepted_not_blocked: "set FILE_ACCEPT \<inter> set BLOCKED_ATTACHMENT_EXTENSIONS = {}"
  by (simp add: FILE_ACCEPT_def BLOCKED_ATTACHMENT_EXTENSIONS_def js_def)

end
