(* ===== verification/PageView.thy ===== *)
theory PageView
  imports ChatView SidebarView
begin

text \<open>
  pages/BuddyListPage.tsx and components/AeroWindow.tsx: the whole page of a user who is signed in, the sidebar and the
  chat window in one frame, each with its own state. \<open>page_shown_as_App\<close> says that it can be shown exactly when
  the page of theory AppView, which leaves the controls out, can be.
\<close>

record 'a aero_window =
  aero_title :: jstr
  aero_icon :: "jstr option"
  aero_controls :: "(jstr \<times> jstr) list"
  aero_content :: 'a

text \<open>The buttons of the title bar do nothing.\<close>

definition CONTROL_BUTTONS :: "(jstr \<times> jstr) list" where
  "CONTROL_BUTTONS = [([0x2212], js ''#4a8ad4''), ([0x25A1], js ''#4a8ad4''), ([0x2715], js ''#c84040'')]"

definition AeroWindow :: "jstr \<Rightarrow> jstr option \<Rightarrow> 'a \<Rightarrow> 'a aero_window" where
  "AeroWindow title icon children = \<lparr>aero_title = title,
     aero_icon = (case icon of Some (c # t) \<Rightarrow> Some (c # t) | _ \<Rightarrow> None), aero_controls = CONTROL_BUTTONS, aero_content = children\<rparr>"

datatype chat_part = NoConversation jstr | OpenConversation bool "chat_control list"

text \<open>Without a conversation, its contact or the session the window is a hint.\<close>

definition ChatWindow_part :: "(jstr \<Rightarrow> jstr) \<Rightarrow> picker \<Rightarrow> chat_window \<Rightarrow> AuthState \<Rightarrow> ContactsState \<Rightarrow> ChatState \<Rightarrow> error + chat_part" where
  "ChatWindow_part up pick w a b ch = (case chat_shown a b ch of
     None \<Rightarrow> Inr (NoConversation (js ''Select a contact to start chatting''))
   | Some (conv, contact, ses) \<Rightarrow> bindR (chat_view up pick w conv contact ses) (\<lambda>(shaking, cs). Inr (OpenConversation shaking cs)))"

definition BuddyListPage :: "(jstr \<Rightarrow> jstr) \<Rightarrow> (jstr \<Rightarrow> jstr) \<Rightarrow> jstr option \<Rightarrow> jstr option \<Rightarrow> sidebar \<Rightarrow> picker \<Rightarrow> chat_window \<Rightarrow>
    AuthState \<Rightarrow> ContactsState \<Rightarrow> ChatState \<Rightarrow> error + (side_control list \<times> chat_part) aero_window" where
  "BuddyListPage up lower membership plusUrl side pick w a b ch =
     bindR (sidebar_view up lower membership plusUrl side a b ch) (\<lambda>sd.
     bindR (ChatWindow_part up pick w a b ch) (\<lambda>cw.
     Inr (AeroWindow (js ''Winkd Messenger'') (Some (js ''https://i.imgur.com/cg6eejI.png'')) (sd, cw))))"

lemma bindR_shown: "(\<exists>v. bindR m f = Inr v) \<longleftrightarrow> (\<exists>x v. m = Inr x \<and> f x = Inr v)"
  by (cases m) auto

lemma chat_part_shown:
  "(\<exists>v. ChatWindow_part up pick w a b ch = Inr v) \<longleftrightarrow>
    (case chat_shown a b ch of None \<Rightarrow> True | Some (conv, contact, ses) \<Rightarrow> \<exists>bs. history_view conv ses = Inr bs)"
proof (cases "chat_shown a b ch")
  case (Some x)
  then obtain conv contact ses where x: "chat_shown a b ch = Some (conv, contact, ses)" by (cases x) auto
  show ?thesis
  proof (cases "history_view conv ses")
    case (Inl e)
    then show ?thesis using x chat_view_throws [of up pick w conv contact ses e] by (simp add: ChatWindow_part_def)
  next
    case (Inr bs)
    then obtain v where "chat_view up pick w conv contact ses = Inr v"
      using chat_view_throws [of up pick w conv contact ses] by (cases "chat_view up pick w conv contact ses") auto
    then show ?thesis using x Inr by (cases v) (simp add: ChatWindow_part_def)
  qed
qed (simp add: ChatWindow_part_def)

text \<open>Whatever the two components hold of their own, the page is shown when the page of theory AppView is.\<close>

theorem page_shown_as_App:
  assumes "session a = Some ses"
  shows "(\<exists>v. BuddyListPage up lower mb pu side pick w a b ch = Inr v) \<longleftrightarrow> (\<exists>v. App a b ch = Inr v)"
proof -
  have ses: "ses' = ses" if "chat_shown a b ch = Some (conv, contact, ses')" for conv contact ses'
    using that assms by (auto simp: chat_shown_def split: option.splits)
  have "(\<exists>v. BuddyListPage up lower mb pu side pick w a b ch = Inr v) \<longleftrightarrow>
      (\<exists>v. sidebar_view up lower mb pu side a b ch = Inr v) \<and> (\<exists>v. ChatWindow_part up pick w a b ch = Inr v)"
    by (auto simp: BuddyListPage_def bindR_shown)
  moreover have "(\<exists>v. App a b ch = Inr v) \<longleftrightarrow> (\<exists>q. myQrImageUrl (profile ses) = Inr q) \<and> STATUS_LABELS (status (profile ses)) \<noteq> None \<and>
      (case chat_shown a b ch of None \<Rightarrow> True | Some (conv, contact, ses) \<Rightarrow> \<exists>bs. history_view conv ses = Inr bs)"
    using assms ses by (auto simp: App_def bindR_shown own_status_line_def split: option.splits)
  ultimately show ?thesis using sidebar_view_throws [OF assms] chat_part_shown by simp
qed

end
