(* ===== verification/Spec2Isabelle.thy ===== *)
theory Spec2Isabelle
  imports SessionProperties LossProperties CrossedContacts OverlapProperties OverlapShared ReceiveProperties CryptoProperties ClientProperties ContactProperties SocketProperties ChatProperties
    UiProperties EmojiProperties SecurityProperties DeliveryProperties WorkerProperties
    PageView
begin

text \<open>
  \<^bold>\<open>Winkd: end-to-end encryption, the protocol client and the web client\<close>

  Winkd is a messenger. The TypeScript packages under src/packages hold what every client shares: the
  encryption (packages/core/src/encryption: X3DH and the double ratchet over WebCrypto, on a key store),
  the protocol client (packages/core/src/protocol/client.ts), the contact list
  (packages/core/src/contacts) and the data types (packages/types). The web client (src/apps/web) keeps
  its state in three stores (stores/), which one React hook (hooks/useSocket.ts) fills from a WebSocket
  and which the views (components/, pages/) show and change. The server is a separate program in Rust;
  here it is whatever sends the messages.

  \<^bold>\<open>Parts and theories\<close>

  \<^item> Base. WinkdPrelude: errors as values (\<open>error + 'a\<close>), async methods that may throw as state passing
    functions (\<open>eff\<close>, \<open>bindE\<close>) and what proofs about them need. Machines: event-driven machines, their
    runs, and the locales \<open>machine_invariant\<close> and \<open>machine_simulation\<close>, interpreted for the protocol
    client, the socket hook, the login page, the security panel, the chat window, the service worker and
    overlapping calls. Tables: the locale \<open>table\<close> (what a
    lookup gives after an entry was put or deleted), interpreted for the contact manager and for each list
    of the contacts store. JsString, TextCodec, JsText, Encoding,
    Json, JsonValues: the parts of the language the sources use (UTF-16 strings, TextEncoder and
    TextDecoder, trim and the like, btoa and atob, JSON, \<open>??\<close> and \<open>String\<close>) written out, with the helpers
    of crypto.ts that sit on them.
  \<^item> Encryption. EncryptionTypes (types.ts), Crypto (crypto.ts), KeyStore (keystore.ts: the interface
    as a record and as the locale \<open>key_store_contract\<close>, with the IndexedDB and the memory store
    interpreted), Session (session.ts: \<open>initSessionFromBundle\<close>, \<open>encrypt\<close>, \<open>decrypt\<close>). WebCrypto is not
    code of the repository: it is the record \<open>webcrypto\<close>, a parameter, with the laws its standards give
    (\<open>subtle_laws\<close>: Diffie-Hellman agrees, exported keys can be imported, a ciphertext decrypts to its
    plaintext, a signature verifies). DemoCrypto and DemoSession show the laws can hold; the witnesses use
    them.
  \<^item> Ratchet, Messages, Handshake, Conversation: the chains of keys, what one call does to them, X3DH, and
    two managers that talk (\<open>chat_step\<close>). LossyConversation: the same over a transport that loses and
    reorders messages (\<open>lossy_step\<close>). Talks: both over the stores of keystore.ts, by simulation in both
    directions. Overlap and OverlapReceive: calls of \<open>encrypt\<close>, and of
    \<open>decrypt\<close>, cut at their awaits and run in any interleaving, on a store whose loads are copies.
    OverlapShared: two calls of \<open>encrypt\<close> whose phases alternate, on the memory store, whose loads are the object itself.
  \<^item> Protocol client. WinkdClient (client.ts): the object, its sockets and timers as a state, the
    browser's callbacks and the method calls as events (\<open>client_run\<close>).
  \<^item> Data and contacts. WinkdTypes (packages/types), ContactManager (contacts/index.ts, with
    encodeURIComponent and decodeURIComponent; the URL constructor is a parameter).
  \<^item> Web client state. AuthStore, ChatStore, ContactsStore (stores/): one function per action;
    ContactsRefinement: the maps that the contacts store stands for. UseSocket
    (useSocket.ts): the hook over the three stores; \<open>commit\<close> is a render with its effects, \<open>handle_event\<close>
    the switch over server events, \<open>hook_run\<close> its runs.
  \<^item> Views. RichEmoji (RichEmojiText.tsx, emojiAssets.ts), MessageBubble, EmojiPicker, UiKit (packages/ui
    and the small components: avatar, contact row, status bar, toolbar, error boundary): what is shown,
    with styles left out. ChatWindow, Sidebar, LoginPage, SecuritySettings: one function per handler, a
    request and its answer being two steps. ChatRuns, SidebarRuns, LoginRuns, SecurityRuns: the same over time, every
    control an event that is possible while it is shown. ChatView and SidebarView: what the two show, part by
    part, and the only data that keep them from being shown. AppView (App.tsx, main.tsx): the page that the
    stores give, with the message history only, and the boundary that replaces it when rendering throws;
    PageView (BuddyListPage.tsx, AeroWindow.tsx): the same page with every control.
  \<^item> Relay: a message as JSON, what the server's relay (server/src/router.rs) makes of it for the recipient
    and for the sender, and what a hook reads: the way between two web clients.
  \<^item> ServiceWorker (public/sw.js): the worker's life, its caches, every promise that a fetch handler
    leaves open as a job, so that answers arrive in any order; notifications; and the visits of pages
    without a network, with the redirection of app.html's first script (\<open>browse\<close>).

  \<^bold>\<open>What is shown\<close>

  \<^item> SessionProperties: messages are delivered in order across ratchet steps and, after first contact, in
    any order; bad signatures and failed calls change nothing; the one-time pre-key is consumed; both
    stores give the same results; and, as they are, what replayed, late and forged envelopes do to a
    session. LossProperties: on IndexedDB everything is read that arrives in order, and with loss and reordering
    everything within reach; the first message must not be lost. CrossedContacts: two first messages that
    cross leave sessions that do not belong together. OverlapProperties: calls that are awaited per peer
    number their messages as calls in a row, calls for one peer that overlap send the same number twice; on the memory store (OverlapShared) they send
    two numbers under one key and leave the chain one key behind its numbers. ReceiveProperties: calls of \<open>decrypt\<close> that
    overlap lose no text, but all of their marks on the session except the last one's; a message sent in
    between uses its key twice. CryptoProperties: X3DH, safety numbers,
    stored sessions.
  \<^item> ClientProperties: authentication first, back-off between one and thirty seconds, dispatch in order.
    SocketInvariants and SocketProperties: the same for the hook, one entry per key in the lists, and the
    ways in which the hook reconnects for ever, loses sends or loses presence.
  \<^item> ContactProperties: every sequence of actions of the contacts store does what it does to maps.
  \<^item> ChatProperties, ContactProperties, UiProperties, EmojiProperties: merging of messages that arrive
    again, receipts, QR codes, the attachment policy, emoji from the picker to the message (whose button never hides the picker), sign-in over all
    runs, the buddy list.
  \<^item> SecurityProperties: one changing request at a time, the codes that are sent, where backup codes come
    from; the button that hides the two-factor controls, the refused status that reads as disabled.
  \<^item> DeliveryProperties: a text from the input of one user to the history of the other, in plain text under
    the label of encryption; what the chat window and the sidebar send over all runs; the message that ends
    the page. WorkerProperties: every visit is answered, redirections end at the root of the site and do
    not end below it, the icon that is never kept.

  \<^bold>\<open>Bounds and fuel\<close>

  \<^item> JSON.parse runs on fuel; \<open>json_parse\<close> gives it more than a text of its length can spend
    (\<open>parse_fuel_enough\<close>). \<open>browse\<close>, which follows redirections, is partial: a value says that they end.
    Every other loop is a total function with a measure: \<open>skip_loop\<close> on the distance to the target,
    \<open>split_tokens\<close> on the rest of the text.
  \<^item> Code units are 16-bit words and bytes 8-bit words. Counters and sizes are integers: a number
    beyond 2 to the 53 is outside the model.

  \<^bold>\<open>Not modelled\<close>

  \<^item> Markup, sizes and styles; the design tokens, build files.
  \<^item> The persist middleware of the auth store and React itself (rendering is the event \<open>commit\<close>).
  \<^item> Vary headers other than \<open>*\<close> and the browser's own eviction of caches.
  \<^item> Calls of \<open>encrypt\<close> and \<open>decrypt\<close> that overlap in other orders than the one of
    \<open>sent_while_receiving\<close>, and other overlapping calls on the memory store than the one of \<open>two_sends\<close>.
  \<^item> The server (Rust), but for the relay of a message.
\<close>

end
